theory Spec2Isabelle
  imports Complex_Main "HOL-Library.Word" "HOL-Library.AList"
begin

unbundle bit_operations_syntax

section \<open>JavaScript values used by the sources\<close>

text \<open>
  Strings are lists of characters; every string operation the sources use
  (\<^verbatim>\<open>startsWith\<close>, \<^verbatim>\<open>endsWith\<close>, \<^verbatim>\<open>includes\<close>, \<^verbatim>\<open>slice\<close>, \<^verbatim>\<open>substring\<close>,
  concatenation) is an operation on the list.
\<close>

definition startsWith :: "string \<Rightarrow> string \<Rightarrow> bool" where
  "startsWith s p \<longleftrightarrow> take (length p) s = p"

definition endsWith :: "string \<Rightarrow> string \<Rightarrow> bool" where
  "endsWith s p \<longleftrightarrow> length p \<le> length s \<and> drop (length s - length p) s = p"

text \<open>\<^verbatim>\<open>s.includes(c)\<close> for a one-character string \<^verbatim>\<open>c\<close>.\<close>

definition includesChar :: "string \<Rightarrow> char \<Rightarrow> bool" where
  "includesChar s c \<longleftrightarrow> c \<in> set s"

text \<open>
  Thrown values. \<^verbatim>\<open>new Error(m)\<close> has a message and no \<^verbatim>\<open>code\<close> property;
  \<open>ErrorNamed\<close> is an error object of another built-in kind, with its name and
  message (a \<^verbatim>\<open>TypeError\<close>, a \<^verbatim>\<open>SyntaxError\<close>, the \<^verbatim>\<open>AbortError\<close> of an aborted
  \<^verbatim>\<open>fetch\<close>); \<^verbatim>\<open>QueryEngineError(message, code)\<close> (types/interfaces) and
  \<^verbatim>\<open>GraphQLLDError(message, code, details)\<close> with its subclasses (given by
  name, message and code) carry a code. \<open>NonError\<close> is a thrown value that is
  not an instance of \<^verbatim>\<open>Error\<close>, given by its \<^verbatim>\<open>String(...)\<close> rendering.
\<close>

datatype js_error =
    Error string
  | ErrorNamed string string
  | QueryEngineError string string
  | GraphQLLDError string string string
  | NonError string

fun error_code :: "js_error \<Rightarrow> string option" where
  "error_code (Error m) = None"
| "error_code (ErrorNamed n m) = None"
| "error_code (QueryEngineError m c) = Some c"
| "error_code (GraphQLLDError n m c) = Some c"
| "error_code (NonError s) = None"

fun error_name :: "js_error \<Rightarrow> string" where
  "error_name (Error m) = ''Error''"
| "error_name (ErrorNamed n m) = n"
| "error_name (QueryEngineError m c) = ''QueryEngineError''"
| "error_name (GraphQLLDError n m c) = n"
| "error_name (NonError s) = []"

fun error_message :: "js_error \<Rightarrow> string" where
  "error_message (Error m) = m"
| "error_message (ErrorNamed n m) = m"
| "error_message (QueryEngineError m c) = m"
| "error_message (GraphQLLDError n m c) = m"
| "error_message (NonError s) = s"

fun instanceof_Error :: "js_error \<Rightarrow> bool" where
  "instanceof_Error (NonError s) = False"
| "instanceof_Error e = True"

fun instanceof_QueryEngineError :: "js_error \<Rightarrow> bool" where
  "instanceof_QueryEngineError (QueryEngineError m c) = True"
| "instanceof_QueryEngineError e = False"

section \<open>The JSON-LD context (\<^verbatim>\<open>context.getContextRaw()\<close>)\<close>

text \<open>
  The raw context is an object from keys to entries. An entry is a primitive
  (a string, \<^verbatim>\<open>null\<close>, a boolean, a number; \<open>JOther\<close> is any other truthy value
  that is neither a string nor a plain object, such as an array) or a term
  object with members such as \<^verbatim>\<open>@id\<close> and \<^verbatim>\<open>@type\<close>.
\<close>

datatype jv = JStr string | JNull | JBool bool | JNum int | JOther

datatype ctx_entry = Prim jv | TermObj "(string \<times> jv) list"

type_synonym jsonld_context = "string \<Rightarrow> ctx_entry option"

text \<open>JavaScript's \<^verbatim>\<open>!x\<close> on a looked-up entry (\<open>None\<close> is \<^verbatim>\<open>undefined\<close>).\<close>

fun falsy :: "ctx_entry option \<Rightarrow> bool" where
  "falsy None = True"
| "falsy (Some (Prim JNull)) = True"
| "falsy (Some (Prim (JBool b))) = (\<not> b)"
| "falsy (Some (Prim (JNum n))) = (n = 0)"
| "falsy (Some (Prim (JStr s))) = (s = [])"
| "falsy (Some (Prim JOther)) = False"
| "falsy (Some (TermObj fs)) = False"

text \<open>
  \<^verbatim>\<open>MutationConverter.expandIri\<close>. A truthy \<^verbatim>\<open>@base\<close> that is not a string has
  no \<^verbatim>\<open>endsWith\<close> method, so the call raises a \<^verbatim>\<open>TypeError\<close>.
\<close>

definition expandIri :: "jsonld_context \<Rightarrow> string \<Rightarrow> js_error + string" where
  "expandIri ctx iri =
     (if startsWith iri ''http://'' \<or> startsWith iri ''https://'' then Inr iri
      else let base = ctx ''@base'' in
        if falsy base then Inr iri
        else case base of
          Some (Prim (JStr b)) \<Rightarrow>
            (let cleanBase = (if endsWith b ''/'' then butlast b else b)
             in Inr (cleanBase @ ''/'' @ iri))
        | _ \<Rightarrow> Inl (ErrorNamed ''TypeError'' ''base.endsWith is not a function''))"

section \<open>The query cache (\<^verbatim>\<open>QueryCache\<close>)\<close>

text \<open>
  \<^verbatim>\<open>cache\<close> is a JavaScript \<^verbatim>\<open>Map\<close>: an association list with one pair per key,
  where setting a present key replaces its value in place and setting a new
  key appends it. The numbers of the configuration, a time to live and the
  fields computed from them are JavaScript numbers, which need not be whole and
  which no operation of the class rounds: they are rationals. A value \<^verbatim>\<open>NaN\<close> is
  falsy, so it is an absent value here; an infinite value is outside this
  type. \<^verbatim>\<open>Date.now()\<close> is the argument \<open>now\<close>, a whole number of milliseconds,
  and the logger calls change nothing of the cache.
\<close>

record 'v cache_entry =
  entry_value :: 'v
  timestamp :: int
  expiresAt :: rat


record 'v query_cache =
  cache :: "(string \<times> 'v cache_entry) list"
  maxEntries :: rat
  defaultTtl :: rat
  cleanupInterval :: rat
  accessOrder :: "string list"







definition delete_entry :: "string \<Rightarrow> 'v query_cache \<Rightarrow> 'v query_cache" where
  "delete_entry key s =
     s\<lparr>cache := AList.delete key (cache s), accessOrder := remove1 key (accessOrder s)\<rparr>"














text \<open>The access order lists its keys by the time of their last access.\<close>

definition recency_inv :: "(string \<Rightarrow> nat) \<Rightarrow> nat \<Rightarrow> 'v query_cache \<Rightarrow> bool" where
  "recency_inv la t s \<longleftrightarrow>
     sorted_wrt (\<lambda>a b. la a < la b) (accessOrder s) \<and> list_all (\<lambda>k. la k \<le> t) (accessOrder s)"

section \<open>More string operations\<close>

text \<open>
  \<^verbatim>\<open>toUpperCase\<close> and \<^verbatim>\<open>toLowerCase\<close> on ASCII letters; GraphQL names consist
  of ASCII letters, digits and the underscore.
\<close>

definition upper_char :: "char \<Rightarrow> char" where
  "upper_char c =
     (let n = (of_char c :: nat) in if 97 \<le> n \<and> n \<le> 122 then char_of (n - 32) else c)"

definition lower_char :: "char \<Rightarrow> char" where
  "lower_char c =
     (let n = (of_char c :: nat) in if 65 \<le> n \<and> n \<le> 90 then char_of (n + 32) else c)"

definition toUpperCase :: "string \<Rightarrow> string" where
  "toUpperCase s = map upper_char s"

definition toLowerCase :: "string \<Rightarrow> string" where
  "toLowerCase s = map lower_char s"

text \<open>\<^verbatim>\<open>s.charAt(0).toUpperCase() + s.slice(1)\<close>\<close>

definition capitalize :: "string \<Rightarrow> string" where
  "capitalize s = toUpperCase (take 1 s) @ drop 1 s"

section \<open>RDF terms, quads and the SPARQL algebra\<close>

datatype rdf_term =
    NamedNode string
  | Literal string string
  | Variable string
  | BlankNode string
  | DefaultGraph

text \<open>\<^verbatim>\<open>dataFactory.literal(v)\<close> without a datatype is a plain \<^verbatim>\<open>xsd:string\<close> literal.\<close>

definition xsd_string :: string where
  "xsd_string = ''http://www.w3.org/2001/XMLSchema#string''"

definition rdf_type :: string where
  "rdf_type = ''http://www.w3.org/1999/02/22-rdf-syntax-ns#type''"

datatype quad = Quad (subject: rdf_term) (predicate: rdf_term) (object: rdf_term) (qgraph: rdf_term)

text \<open>\<^verbatim>\<open>dataFactory.quad(s, p, o)\<close> is a quad in the default graph.\<close>

definition mk_quad :: "rdf_term \<Rightarrow> rdf_term \<Rightarrow> rdf_term \<Rightarrow> quad" where
  "mk_quad s p ob = Quad s p ob DefaultGraph"

datatype pattern =
  Pattern (pat_subject: rdf_term) (pat_predicate: rdf_term) (pat_object: rdf_term)
    (pat_graph: rdf_term)

datatype operation = Bgp "pattern list"

text \<open>
  \<^verbatim>\<open>createDeleteInsert(delete, insert, where)\<close>: each part is present or
  \<^verbatim>\<open>undefined\<close>.
\<close>

datatype delete_insert =
  DeleteInsert (di_delete: "pattern list option") (di_insert: "pattern list option")
    (di_where: "operation option")

datatype update = CompositeUpdate "delete_insert list"

definition quadToAlgebraPattern :: "quad \<Rightarrow> pattern" where
  "quadToAlgebraPattern q = Pattern (subject q) (predicate q) (object q) (qgraph q)"

section \<open>The GraphQL syntax tree\<close>

text \<open>
  The document that \<^verbatim>\<open>parse\<close> of the \<^verbatim>\<open>graphql\<close> library returns, with the
  parts the converter reads: the operation kind, the fields with their names
  and arguments, and the argument values.
\<close>

datatype value_node =
    VariableValue string
  | IntValue string
  | FloatValue string
  | StringValue string
  | BooleanValue bool
  | NullValue
  | EnumValue string
  | ListValue "value_node list"
  | ObjectValue "(string \<times> value_node) list"

record field_node =
  field_name :: string
  arguments :: "(string \<times> value_node) list"

datatype selection =
    Field field_node
  | FragmentSpread string
  | InlineFragment "selection list"

datatype operation_kind = Query | Mutation | Subscription

datatype definition_node =
    OperationDefinition operation_kind "selection list"
  | FragmentDefinition "selection list"
  | OtherDefinition

type_synonym document = "definition_node list"

text \<open>
  \<^verbatim>\<open>visit\<close> walks the document depth first and calls the visitor at every
  operation definition and at every field; the field visitor returns
  \<^verbatim>\<open>false\<close>, so nothing below a field is visited.
\<close>

datatype visit_event = EnterOperationDefinition operation_kind | EnterField field_node

fun selection_events :: "selection \<Rightarrow> visit_event list" where
  "selection_events (Field node) = [EnterField node]"
| "selection_events (FragmentSpread n) = []"
| "selection_events (InlineFragment sels) = concat (map selection_events sels)"

fun definition_events :: "definition_node \<Rightarrow> visit_event list" where
  "definition_events (OperationDefinition k sels) =
     EnterOperationDefinition k # concat (map selection_events sels)"
| "definition_events (FragmentDefinition sels) = concat (map selection_events sels)"
| "definition_events OtherDefinition = []"

definition document_events :: "document \<Rightarrow> visit_event list" where
  "document_events doc = concat (map definition_events doc)"

section \<open>The mutation converter (\<^verbatim>\<open>MutationConverter\<close>)\<close>

text \<open>The shape of a term definition that carries an IRI: a string, or an object
  whose \<^verbatim>\<open>@id\<close> is a string.\<close>

fun term_iri :: "ctx_entry option \<Rightarrow> string option" where
  "term_iri (Some (Prim (JStr s))) = Some s"
| "term_iri (Some (TermObj fs)) = (case map_of fs ''@id'' of Some (JStr i) \<Rightarrow> Some i | _ \<Rightarrow> None)"
| "term_iri _ = None"

definition getPredicateIri :: "jsonld_context \<Rightarrow> string \<Rightarrow> js_error + rdf_term" where
  "getPredicateIri ctx fieldName =
     (case term_iri (ctx fieldName) of
        Some i \<Rightarrow> Inr (NamedNode i)
      | None \<Rightarrow> Inl (Error (''No IRI mapping found for predicate: '' @ fieldName @
                              '' in the JSON-LD context.'')))"

definition getTypeIri :: "jsonld_context \<Rightarrow> string \<Rightarrow> js_error + rdf_term" where
  "getTypeIri ctx typeName =
     (let term = (if falsy (ctx typeName) then ctx (capitalize typeName) else ctx typeName)
      in case term_iri term of
           Some i \<Rightarrow> Inr (NamedNode i)
         | None \<Rightarrow>
             (case ctx ''@vocab'' of
                Some (Prim (JStr vocab)) \<Rightarrow> Inr (NamedNode (vocab @ typeName))
              | _ \<Rightarrow> Inl (Error (''No IRI mapping found for type: '' @ typeName @
                                   '' in the JSON-LD context.''))))"

definition inversePatterns :: "(string \<times> string) list" where
  "inversePatterns =
     [(''product'', ''reviews''), (''review'', ''product''), (''user'', ''posts''),
      (''post'', ''user''), (''author'', ''works''), (''work'', ''author'')]"

definition getInversePredicateIri :: "jsonld_context \<Rightarrow> string \<Rightarrow> rdf_term option" where
  "getInversePredicateIri ctx relationshipName =
     (case map_of inversePatterns relationshipName of
        Some inverseName \<Rightarrow>
          (case getPredicateIri ctx inverseName of Inr iri \<Rightarrow> Some iri | Inl e \<Rightarrow> None)
      | None \<Rightarrow> None)"

definition relationshipFields :: "string list" where
  "relationshipFields =
     [''product'', ''review'', ''user'', ''author'', ''owner'', ''creator'', ''parent'', ''child'']"

definition isRelationshipField :: "jsonld_context \<Rightarrow> string \<Rightarrow> bool" where
  "isRelationshipField ctx fieldName =
     (case ctx fieldName of
        Some (TermObj fs) \<Rightarrow>
          if map_of fs ''@type'' = Some (JStr ''@id'') then True
          else toLowerCase fieldName \<in> set relationshipFields
      | _ \<Rightarrow> toLowerCase fieldName \<in> set relationshipFields)"

fun parseValueNode :: "value_node \<Rightarrow> js_error + rdf_term" where
  "parseValueNode (StringValue v) = Inr (Literal v xsd_string)"
| "parseValueNode (IntValue v) = Inr (Literal v ''http://www.w3.org/2001/XMLSchema#integer'')"
| "parseValueNode (FloatValue v) = Inr (Literal v ''http://www.w3.org/2001/XMLSchema#double'')"
| "parseValueNode (BooleanValue b) =
     Inr (Literal (if b then ''true'' else ''false'') ''http://www.w3.org/2001/XMLSchema#boolean'')"
| "parseValueNode (VariableValue n) = Inl (Error ''Unsupported GraphQL value kind: Variable'')"
| "parseValueNode NullValue = Inl (Error ''Unsupported GraphQL value kind: NullValue'')"
| "parseValueNode (EnumValue n) = Inl (Error ''Unsupported GraphQL value kind: EnumValue'')"
| "parseValueNode (ListValue vs) = Inl (Error ''Unsupported GraphQL value kind: ListValue'')"
| "parseValueNode (ObjectValue fs) = Inl (Error ''Unsupported GraphQL value kind: ObjectValue'')"

text \<open>
  \<^verbatim>\<open>generateUUID\<close>. The random source is the sequence of the values
  \<^verbatim>\<open>(Math.random() * 16) | 0\<close> that the calls draw, each a number from 0 to 15;
  a list stands for the sequence that continues with zeros.
\<close>

type_synonym random_source = "4 word list"

fun draw :: "random_source \<Rightarrow> 4 word \<times> random_source" where
  "draw [] = (0, [])"
| "draw (r # rs) = (r, rs)"

definition hex_digit :: "4 word \<Rightarrow> char" where
  "hex_digit v = ''0123456789abcdef'' ! unat v"

fun replace_xy :: "string \<Rightarrow> random_source \<Rightarrow> string \<times> random_source" where
  "replace_xy [] rnd = ([], rnd)"
| "replace_xy (c # cs) rnd =
     (if c = CHR ''x'' \<or> c = CHR ''y'' then
        (let (r, rnd1) = draw rnd;
             v = (if c = CHR ''x'' then r else (r AND 3) OR 8);
             (rest, rnd2) = replace_xy cs rnd1
         in (hex_digit v # rest, rnd2))
      else (let (rest, rnd2) = replace_xy cs rnd in (c # rest, rnd2)))"

definition generateUUID :: "random_source \<Rightarrow> string \<times> random_source" where
  "generateUUID rnd = replace_xy ''xxxxxxxx-xxxx-4xxx-yxxx-xxxxxxxxxxxx'' rnd"

text \<open>The test that both \<^verbatim>\<open>convert\<close> and \<^verbatim>\<open>handleCreate\<close> apply to a subject IRI.\<close>

definition illegal_iri_chars :: "string \<Rightarrow> bool" where
  "illegal_iri_chars iriValue \<longleftrightarrow>
     includesChar iriValue (CHR 0x0A) \<or> includesChar iriValue (CHR 0x0D) \<or>
     includesChar iriValue (CHR ''>'') \<or> includesChar iriValue (CHR ''<'')"

definition invalid_iri_error :: js_error where
  "invalid_iri_error = Error ''Invalid IRI: contains illegal characters that could cause injection''"

text \<open>\<^verbatim>\<open>xs.find(x => x.name.value === n)\<close> on arguments and object fields.\<close>

definition find_named :: "string \<Rightarrow> (string \<times> value_node) list \<Rightarrow> (string \<times> value_node) option" where
  "find_named n xs = find (\<lambda>x. fst x = n) xs"

text \<open>The subject of a create: the \<^verbatim>\<open>localSubject\<close> block of \<^verbatim>\<open>handleCreate\<close>.\<close>

definition create_subject ::
    "jsonld_context \<Rightarrow> (string \<times> value_node) list \<Rightarrow> random_source
       \<Rightarrow> js_error + (rdf_term \<times> random_source)" where
  "create_subject ctx flds rnd =
     (case find_named ''id'' flds of
        Some (n, StringValue iriValue) \<Rightarrow>
          if illegal_iri_chars iriValue then Inl invalid_iri_error
          else (case expandIri ctx iriValue of
                  Inl e \<Rightarrow> Inl e
                | Inr expandedIri \<Rightarrow> Inr (NamedNode expandedIri, rnd))
      | Some (n, other) \<Rightarrow> Inl (Error ''Input 'id' field must be a String for create.'')
      | None \<Rightarrow> (let (uuid, rnd1) = generateUUID rnd
                 in Inr (NamedNode (''urn:uuid:'' @ uuid), rnd1)))"

text \<open>The body of the \<^verbatim>\<open>forEach\<close> over the input fields in \<^verbatim>\<open>handleCreate\<close>.\<close>

fun is_string_value :: "value_node \<Rightarrow> bool" where
  "is_string_value (StringValue v) = True"
| "is_string_value other = False"

fun string_value :: "value_node \<Rightarrow> string" where
  "string_value (StringValue v) = v"
| "string_value other = []"

text \<open>\<^verbatim>\<open>fieldName.endsWith('Id') ? fieldName.slice(0, -2) : fieldName\<close>\<close>

definition relationship_name :: "string \<Rightarrow> string" where
  "relationship_name fieldName =
     (if endsWith fieldName ''Id'' then take (length fieldName - 2) fieldName else fieldName)"

definition create_field ::
    "jsonld_context \<Rightarrow> rdf_term \<Rightarrow> string \<times> value_node \<Rightarrow> quad list \<Rightarrow> js_error + quad list" where
  "create_field ctx localSubject field quads =
     (let fieldName = fst field in
      if fieldName = ''id'' then Inr quads
      else case getPredicateIri ctx fieldName of
        Inl e \<Rightarrow> Inl e
      | Inr predicateIri \<Rightarrow>
          if (endsWith fieldName ''Id'' \<or> isRelationshipField ctx fieldName) \<and>
             is_string_value (snd field)
          then
            (let relationshipName = relationship_name fieldName
             in case getPredicateIri ctx relationshipName of
                  Inl e \<Rightarrow> Inl e
                | Inr relationshipPredicateIri \<Rightarrow>
                    (case expandIri ctx (string_value (snd field)) of
                       Inl e \<Rightarrow> Inl e
                     | Inr relatedEntityIri \<Rightarrow>
                         (let relatedEntityNode = NamedNode relatedEntityIri;
                              quads1 = quads @
                                [mk_quad localSubject relationshipPredicateIri relatedEntityNode]
                          in case getInversePredicateIri ctx relationshipName of
                               Some inversePredicateIri \<Rightarrow>
                                 Inr (quads1 @
                                   [mk_quad relatedEntityNode inversePredicateIri localSubject])
                             | None \<Rightarrow> Inr quads1)))
          else (case parseValueNode (snd field) of
                  Inl e \<Rightarrow> Inl e
                | Inr objectValue \<Rightarrow>
                    Inr (quads @ [mk_quad localSubject predicateIri objectValue])))"

fun create_fields ::
    "jsonld_context \<Rightarrow> rdf_term \<Rightarrow> (string \<times> value_node) list \<Rightarrow> quad list
       \<Rightarrow> js_error + quad list" where
  "create_fields ctx localSubject [] quads = Inr quads"
| "create_fields ctx localSubject (field # flds) quads =
     (case create_field ctx localSubject field quads of
        Inl e \<Rightarrow> Inl e
      | Inr quads1 \<Rightarrow> create_fields ctx localSubject flds quads1)"

definition handleCreate ::
    "jsonld_context \<Rightarrow> field_node \<Rightarrow> string \<Rightarrow> quad list \<Rightarrow> random_source
       \<Rightarrow> js_error + (quad list \<times> random_source)" where
  "handleCreate ctx node entityName quads rnd =
     (case find_named ''input'' (arguments node) of
        Some (n, ObjectValue flds) \<Rightarrow>
          (case getTypeIri ctx entityName of
             Inl e \<Rightarrow> Inl e
           | Inr entityTypeIri \<Rightarrow>
               (case create_subject ctx flds rnd of
                  Inl e \<Rightarrow> Inl e
                | Inr (localSubject, rnd1) \<Rightarrow>
                    (case create_fields ctx localSubject flds
                            (quads @ [mk_quad localSubject (NamedNode rdf_type) entityTypeIri]) of
                       Inl e \<Rightarrow> Inl e
                     | Inr quads1 \<Rightarrow> Inr (quads1, rnd1))))
      | _ \<Rightarrow> Inl (Error (''Create mutation for '' @ entityName @
                          '' must have an 'input' object argument.'')))"

text \<open>
  \<^verbatim>\<open>handleUpdate\<close> fills three arrays: the insert quads, the delete quads and
  the where patterns.
\<close>

record update_arrays =
  insertQuads :: "quad list"
  deleteQuads :: "quad list"
  wherePatterns :: "pattern list"

definition update_field ::
    "jsonld_context \<Rightarrow> rdf_term \<Rightarrow> string \<times> value_node \<Rightarrow> update_arrays
       \<Rightarrow> js_error + update_arrays" where
  "update_field ctx subj field arrs =
     (let fieldName = fst field in
      if fieldName = ''id'' then
        Inl (Error '''id' field cannot be updated via input object in update mutation.'')
      else case getPredicateIri ctx fieldName of
        Inl e \<Rightarrow> Inl e
      | Inr predicateIri \<Rightarrow>
          (case parseValueNode (snd field) of
             Inl e \<Rightarrow> Inl e
           | Inr newObjectValue \<Rightarrow>
               (let oldObjectVar = Variable (''old_'' @ fieldName)
                in Inr \<lparr> insertQuads = insertQuads arrs @ [mk_quad subj predicateIri newObjectValue],
                         deleteQuads = deleteQuads arrs @ [mk_quad subj predicateIri oldObjectVar],
                         wherePatterns = wherePatterns arrs @
                           [quadToAlgebraPattern (mk_quad subj predicateIri oldObjectVar)] \<rparr>)))"

fun update_fields ::
    "jsonld_context \<Rightarrow> rdf_term \<Rightarrow> (string \<times> value_node) list \<Rightarrow> update_arrays
       \<Rightarrow> js_error + update_arrays" where
  "update_fields ctx subj [] arrs = Inr arrs"
| "update_fields ctx subj (field # flds) arrs =
     (case update_field ctx subj field arrs of
        Inl e \<Rightarrow> Inl e
      | Inr arrs1 \<Rightarrow> update_fields ctx subj flds arrs1)"

definition handleUpdate ::
    "jsonld_context \<Rightarrow> field_node \<Rightarrow> rdf_term \<Rightarrow> string \<Rightarrow> update_arrays
       \<Rightarrow> js_error + update_arrays" where
  "handleUpdate ctx node subj entityName arrs =
     (case find_named ''input'' (arguments node) of
        Some (n, ObjectValue flds) \<Rightarrow>
          (case update_fields ctx subj flds arrs of
             Inl e \<Rightarrow> Inl e
           | Inr arrs1 \<Rightarrow>
               if insertQuads arrs1 = [] then
                 Inl (Error ''Update operation has no fields to update in 'input'.'')
               else Inr arrs1)
      | _ \<Rightarrow> Inl (Error (''Update mutation for '' @ entityName @
                          '' must have an 'input' object argument.'')))"

definition handleDelete ::
    "field_node \<Rightarrow> rdf_term \<Rightarrow> quad list \<times> pattern list \<Rightarrow> quad list \<times> pattern list" where
  "handleDelete node subj arrs =
     (let pVar = Variable ''p_del''; oVar = Variable ''o_del'';
          patternToDelete = quadToAlgebraPattern (mk_quad subj pVar oVar)
      in (fst arrs @ [mk_quad subj pVar oVar], snd arrs @ [patternToDelete]))"

text \<open>The state of the visitor in \<^verbatim>\<open>convert\<close>.\<close>

datatype operation_type = Create | Update | Delete

record visitor_state =
  operationType :: "operation_type option"
  entityTypeName :: "string option"
  subjectHint :: "rdf_term option"
  createQuads :: "quad list"
  updateArrays :: update_arrays
  deleteQuadsV :: "quad list"
  deleteWherePatterns :: "pattern list"
  random :: random_source

definition initial_state :: "random_source \<Rightarrow> visitor_state" where
  "initial_state rnd =
     \<lparr> operationType = None, entityTypeName = None, subjectHint = None, createQuads = [],
       updateArrays = \<lparr> insertQuads = [], deleteQuads = [], wherePatterns = [] \<rparr>,
       deleteQuadsV = [], deleteWherePatterns = [], random = rnd \<rparr>"

fun operation_type_name :: "operation_type \<Rightarrow> string" where
  "operation_type_name Create = ''create''"
| "operation_type_name Update = ''update''"
| "operation_type_name Delete = ''delete''"

text \<open>The operation and the entity name that a mutation field name stands for.\<close>

definition operation_of_name :: "string \<Rightarrow> (operation_type \<times> string) option" where
  "operation_of_name mutationName =
     (if startsWith mutationName ''create'' then Some (Create, drop 6 mutationName)
      else if startsWith mutationName ''update'' then Some (Update, drop 6 mutationName)
      else if startsWith mutationName ''delete'' then Some (Delete, drop 6 mutationName)
      else None)"

text \<open>The subject of an update or delete, from the \<^verbatim>\<open>id\<close> argument of the field.\<close>

definition subject_of_id_argument ::
    "jsonld_context \<Rightarrow> operation_type \<Rightarrow> field_node \<Rightarrow> js_error + rdf_term" where
  "subject_of_id_argument ctx opType node =
     (case find_named ''id'' (arguments node) of
        Some (n, StringValue iriValue) \<Rightarrow>
          if illegal_iri_chars iriValue then Inl invalid_iri_error
          else (case expandIri ctx iriValue of
                  Inl e \<Rightarrow> Inl e
                | Inr expandedIri \<Rightarrow> Inr (NamedNode expandedIri))
      | _ \<Rightarrow> Inl (Error (operation_type_name opType @
                          '' mutations require an 'id' argument of type String.'')))"

text \<open>The first part of the field visitor, run while no operation type is set.\<close>

definition identify_operation ::
    "jsonld_context \<Rightarrow> field_node \<Rightarrow> visitor_state \<Rightarrow> js_error + visitor_state" where
  "identify_operation ctx node st =
     (case operation_of_name (field_name node) of
        None \<Rightarrow> Inl (Error (''Unsupported mutation operation: '' @ field_name node @
                            ''. Must start with create, update, or delete.''))
      | Some (opType, entity) \<Rightarrow>
          if opType = Update \<or> opType = Delete then
            (case subject_of_id_argument ctx opType node of
               Inl e \<Rightarrow> Inl e
             | Inr subj \<Rightarrow> Inr (st\<lparr>operationType := Some opType, entityTypeName := Some entity,
                                    subjectHint := Some subj\<rparr>))
          else Inr (st\<lparr>operationType := Some opType, entityTypeName := Some entity\<rparr>))"

text \<open>The second part of the field visitor: the call of the handler.\<close>

definition dispatch_handler ::
    "jsonld_context \<Rightarrow> field_node \<Rightarrow> visitor_state \<Rightarrow> js_error + visitor_state" where
  "dispatch_handler ctx node st =
     (case (operationType st, entityTypeName st, subjectHint st) of
        (Some Create, Some entity, h) \<Rightarrow>
          (case handleCreate ctx node entity (createQuads st) (random st) of
             Inl e \<Rightarrow> Inl e
           | Inr (quads, rnd) \<Rightarrow> Inr (st\<lparr>createQuads := quads, random := rnd\<rparr>))
      | (Some Update, Some entity, Some subj) \<Rightarrow>
          (case handleUpdate ctx node subj entity (updateArrays st) of
             Inl e \<Rightarrow> Inl e
           | Inr arrs \<Rightarrow> Inr (st\<lparr>updateArrays := arrs\<rparr>))
      | (Some Delete, Some entity, Some subj) \<Rightarrow>
          (let (quads, pats) = handleDelete node subj (deleteQuadsV st, deleteWherePatterns st)
           in Inr (st\<lparr>deleteQuadsV := quads, deleteWherePatterns := pats\<rparr>))
      | _ \<Rightarrow> Inr st)"

fun visit_step :: "jsonld_context \<Rightarrow> visit_event \<Rightarrow> visitor_state \<Rightarrow> js_error + visitor_state" where
  "visit_step ctx (EnterOperationDefinition k) st =
     (if k \<noteq> Mutation then Inl (Error ''Only mutation operations are supported.'') else Inr st)"
| "visit_step ctx (EnterField node) st =
     (case (if operationType st = None then identify_operation ctx node st else Inr st) of
        Inl e \<Rightarrow> Inl e
      | Inr st1 \<Rightarrow> dispatch_handler ctx node st1)"

fun visit_events ::
    "jsonld_context \<Rightarrow> visit_event list \<Rightarrow> visitor_state \<Rightarrow> js_error + visitor_state" where
  "visit_events ctx [] st = Inr st"
| "visit_events ctx (ev # evs) st =
     (case visit_step ctx ev st of
        Inl e \<Rightarrow> Inl e
      | Inr st1 \<Rightarrow> visit_events ctx evs st1)"

text \<open>The part of \<^verbatim>\<open>convert\<close> after the visit: the algebra of the operation.\<close>

definition build_operation :: "visitor_state \<Rightarrow> js_error + update" where
  "build_operation st =
     (if operationType st = Some Create \<and> createQuads st \<noteq> [] then
        Inr (CompositeUpdate
          [DeleteInsert None (Some (map quadToAlgebraPattern (createQuads st))) None])
      else if operationType st = Some Update \<and>
              (insertQuads (updateArrays st) \<noteq> [] \<or> deleteQuads (updateArrays st) \<noteq> []) then
        Inr (CompositeUpdate
          [DeleteInsert
             (if deleteQuads (updateArrays st) \<noteq> []
              then Some (map quadToAlgebraPattern (deleteQuads (updateArrays st))) else None)
             (if insertQuads (updateArrays st) \<noteq> []
              then Some (map quadToAlgebraPattern (insertQuads (updateArrays st))) else None)
             (Some (Bgp (wherePatterns (updateArrays st))))])
      else if operationType st = Some Delete \<and> deleteQuadsV st \<noteq> [] then
        Inr (CompositeUpdate
          [DeleteInsert (Some (map quadToAlgebraPattern (deleteQuadsV st))) None
             (Some (Bgp (deleteWherePatterns st)))])
      else Inl (Error (''Failed to convert mutation to SPARQL algebra. '' @
                       ''Operation type might be unhandled or input was empty.'')))"

text \<open>
  \<^verbatim>\<open>convert\<close>, from the document that \<^verbatim>\<open>parse(mutationString)\<close> returned.
\<close>

definition convert :: "jsonld_context \<Rightarrow> random_source \<Rightarrow> document \<Rightarrow> js_error + update" where
  "convert ctx rnd ast =
     (case visit_events ctx (document_events ast) (initial_state rnd) of
        Inl e \<Rightarrow> Inl e
      | Inr st \<Rightarrow> build_operation st)"

text \<open>The error that \<^verbatim>\<open>handleUpdate\<close> raises at the key \<^verbatim>\<open>id\<close>.\<close>

definition id_update_error :: js_error where
  "id_update_error = Error '''id' field cannot be updated via input object in update mutation.''"

section \<open>Variables of patterns\<close>

fun term_vars :: "rdf_term \<Rightarrow> string set" where
  "term_vars (Variable v) = {v}"
| "term_vars t = {}"

definition quad_vars :: "quad \<Rightarrow> string set" where
  "quad_vars q = term_vars (subject q) \<union> term_vars (predicate q) \<union> term_vars (object q)
     \<union> term_vars (qgraph q)"

definition pattern_vars :: "pattern \<Rightarrow> string set" where
  "pattern_vars p = term_vars (pat_subject p) \<union> term_vars (pat_predicate p)
     \<union> term_vars (pat_object p) \<union> term_vars (pat_graph p)"

text \<open>The variables of the \<^verbatim>\<open>delete\<close> or \<^verbatim>\<open>insert\<close> part of a DeleteInsert.\<close>

fun patterns_vars :: "pattern list option \<Rightarrow> string set" where
  "patterns_vars None = {}"
| "patterns_vars (Some ps) = \<Union> (pattern_vars ` set ps)"

text \<open>The variables of its \<^verbatim>\<open>where\<close> part.\<close>

fun where_vars :: "operation option \<Rightarrow> string set" where
  "where_vars None = {}"
| "where_vars (Some (Bgp ps)) = \<Union> (pattern_vars ` set ps)"

text \<open>
  What the visitor keeps true of its arrays: quads to insert are ground, the
  subject is ground, and the where patterns are the delete quads.
\<close>

definition arrays_wf :: "update_arrays \<Rightarrow> bool" where
  "arrays_wf arrs \<longleftrightarrow>
     list_all (\<lambda>q. quad_vars q = {}) (insertQuads arrs) \<and>
     map quadToAlgebraPattern (deleteQuads arrs) = wherePatterns arrs \<and>
     length (insertQuads arrs) = length (deleteQuads arrs)"

definition state_wf :: "visitor_state \<Rightarrow> bool" where
  "state_wf st \<longleftrightarrow>
     list_all (\<lambda>q. quad_vars q = {}) (createQuads st) \<and>
     arrays_wf (updateArrays st) \<and>
     map quadToAlgebraPattern (deleteQuadsV st) = deleteWherePatterns st \<and>
     (case subjectHint st of None \<Rightarrow> True | Some s \<Rightarrow> term_vars s = {})"

text \<open>
  The quads that one input field of a create contributes, as a relation: a
  literal triple, or the forward triple of a relationship and, when the
  inverse table and the context give an inverse predicate, the inverse triple.
\<close>

definition is_relationship_input :: "jsonld_context \<Rightarrow> string \<times> value_node \<Rightarrow> bool" where
  "is_relationship_input ctx field \<longleftrightarrow>
     (endsWith (fst field) ''Id'' \<or> isRelationshipField ctx (fst field)) \<and>
     is_string_value (snd field)"

definition field_emits :: "jsonld_context \<Rightarrow> rdf_term \<Rightarrow> string \<times> value_node \<Rightarrow> quad \<Rightarrow> bool" where
  "field_emits ctx s field q \<longleftrightarrow>
     fst field \<noteq> ''id'' \<and>
     ((\<not> is_relationship_input ctx field \<and>
       (\<exists>p l. getPredicateIri ctx (fst field) = Inr p \<and> parseValueNode (snd field) = Inr l \<and>
              q = mk_quad s p l)) \<or>
      (is_relationship_input ctx field \<and>
       (\<exists>r iri. getPredicateIri ctx (relationship_name (fst field)) = Inr r \<and>
          expandIri ctx (string_value (snd field)) = Inr iri \<and>
          (q = mk_quad s r (NamedNode iri) \<or>
           (\<exists>inv. getInversePredicateIri ctx (relationship_name (fst field)) = Some inv \<and>
                  q = mk_quad (NamedNode iri) inv s)))))"

text \<open>The characters of the class \<^verbatim>\<open>[0-9a-f-]\<close>.\<close>

definition uuid_alphabet :: "char set" where
  "uuid_alphabet = set ''0123456789abcdef-''"

section \<open>The SPARQL endpoint engine (\<^verbatim>\<open>QueryEngineSparqlEndpoint\<close>)\<close>

text \<open>
  An optional property of an options object: absent, present with the value
  \<^verbatim>\<open>undefined\<close>, or present with a value. The spread
  \<^verbatim>\<open>{ ...defaultOptions, ...options }\<close> keeps the default only for an absent one.
\<close>

datatype 'a optional_prop = Absent | Undefined | Present 'a

record query_engine_options =
  timeout :: "int optional_prop"
  maxResults :: "int optional_prop"
  validateQuery :: "bool optional_prop"

record merged_options =
  m_timeout :: "int option"
  m_maxResults :: "int option"
  m_validateQuery :: "bool option"

fun merge_prop :: "'a \<Rightarrow> 'a optional_prop \<Rightarrow> 'a option" where
  "merge_prop d Absent = Some d"
| "merge_prop d Undefined = None"
| "merge_prop d (Present x) = Some x"

definition mergeOptions :: "query_engine_options option \<Rightarrow> merged_options" where
  "mergeOptions options =
     (case options of
        None \<Rightarrow> \<lparr> m_timeout = Some 30000, m_maxResults = Some 1000, m_validateQuery = Some True \<rparr>
      | Some opts \<Rightarrow>
          \<lparr> m_timeout = merge_prop 30000 (timeout opts),
            m_maxResults = merge_prop 1000 (maxResults opts),
            m_validateQuery = merge_prop True (validateQuery opts) \<rparr>)"

text \<open>Numbers in template strings.\<close>

fun nat_toString :: "nat \<Rightarrow> string" where
  "nat_toString n =
     (if n < 10 then [''0123456789'' ! n]
      else nat_toString (n div 10) @ [''0123456789'' ! (n mod 10)])"

declare nat_toString.simps [simp del]

definition number_toString :: "int \<Rightarrow> string" where
  "number_toString i = (if i < 0 then ''-'' @ nat_toString (nat (- i)) else nat_toString (nat i))"

fun optional_number_toString :: "int option \<Rightarrow> string" where
  "optional_number_toString None = ''undefined''"
| "optional_number_toString (Some i) = number_toString i"

text \<open>Parsed JSON, as \<^verbatim>\<open>response.json()\<close> returns it.\<close>

datatype json =
    JsNull
  | JsBool bool
  | JsNumber int
  | JsString string
  | JsArray "json list"
  | JsObject "(string \<times> json) list"

text \<open>\<^verbatim>\<open>x[key]\<close> for a string key that is not an index: only objects have it.\<close>

fun get_member :: "json \<Rightarrow> string \<Rightarrow> json option" where
  "get_member (JsObject ms) key = map_of ms key"
| "get_member other key = None"

text \<open>\<^verbatim>\<open>x && typeof x === 'object'\<close>: arrays and objects.\<close>

fun is_object_like :: "json option \<Rightarrow> bool" where
  "is_object_like (Some (JsArray xs)) = True"
| "is_object_like (Some (JsObject ms)) = True"
| "is_object_like other = False"

fun is_array :: "json option \<Rightarrow> bool" where
  "is_array (Some (JsArray xs)) = True"
| "is_array other = False"

definition isSparqlQueryResult :: "json \<Rightarrow> bool" where
  "isSparqlQueryResult result \<longleftrightarrow>
     is_object_like (Some result) \<and>
     is_object_like (get_member result ''head'') \<and>
     is_array (Option.bind (get_member result ''head'') (\<lambda>head. get_member head ''vars'')) \<and>
     is_object_like (get_member result ''results'') \<and>
     is_array (Option.bind (get_member result ''results'') (\<lambda>results. get_member results ''bindings''))"

text \<open>\<^verbatim>\<open>xs.slice(0, n)\<close>; a negative \<open>n\<close> counts from the end.\<close>

definition slice0 :: "'a list \<Rightarrow> int \<Rightarrow> 'a list" where
  "slice0 xs n = (if n < 0 then take (nat (int (length xs) + n)) xs else take (nat n) xs)"

text \<open>The \<^verbatim>\<open>maxResults\<close> step on a result that passed the type guard.\<close>

definition apply_maxResults :: "int option \<Rightarrow> json \<Rightarrow> json" where
  "apply_maxResults limit result =
     (case (limit, result, get_member result ''results'') of
        (Some n, JsObject ms, Some (JsObject rs)) \<Rightarrow>
          (case map_of rs ''bindings'' of
             Some (JsArray bindings) \<Rightarrow>
               if n \<noteq> 0 \<and> int (length bindings) > n
               then JsObject (AList.update ''results''
                      (JsObject (AList.update ''bindings'' (JsArray (slice0 bindings n)) rs)) ms)
               else result
           | _ \<Rightarrow> result)
      | _ \<Rightarrow> result)"

text \<open>
  \<^verbatim>\<open>fetch\<close>: the request that the engine sends, with the delay after which its
  abort controller fires, and what comes back: a rejection (a network error,
  or the \<^verbatim>\<open>AbortError\<close> of the abort) or a response.
\<close>

record fetch_request =
  req_url :: string
  req_method :: string
  req_headers :: "(string \<times> string) list"
  req_body :: string
  req_abort_after :: "int option"

record http_response =
  ok :: bool
  status :: int
  statusText :: string
  response_text :: "js_error + string"
  response_json :: "js_error + json"

record sparql_endpoint =
  endpointUrl :: string
  updateEndpointUrl :: string

text \<open>The constructor: \<^verbatim>\<open>updateEndpointUrl || endpointUrl\<close>.\<close>

definition new_QueryEngineSparqlEndpoint :: "string \<Rightarrow> string option \<Rightarrow> sparql_endpoint" where
  "new_QueryEngineSparqlEndpoint url updateUrl =
     \<lparr> endpointUrl = url,
       updateEndpointUrl = (case updateUrl of None \<Rightarrow> url | Some u \<Rightarrow> if u = [] then url else u) \<rparr>"

text \<open>The \<^verbatim>\<open>try\<close> block of \<^verbatim>\<open>query\<close>.\<close>

definition query_try ::
    "(fetch_request \<Rightarrow> js_error + http_response) \<Rightarrow> sparql_endpoint \<Rightarrow> string \<Rightarrow> merged_options
       \<Rightarrow> js_error + json" where
  "query_try fetch this sparql mergedOptions =
     (case fetch \<lparr> req_url = endpointUrl this, req_method = ''POST'',
                    req_headers = [(''Content-Type'', ''application/sparql-query''),
                                   (''Accept'', ''application/sparql-results+json'')],
                    req_body = sparql, req_abort_after = m_timeout mergedOptions \<rparr> of
        Inl e \<Rightarrow> Inl e
      | Inr response \<Rightarrow>
          if \<not> ok response then
            (case response_text response of
               Inl e \<Rightarrow> Inl e
             | Inr errorText \<Rightarrow>
                 Inl (QueryEngineError
                        (''SPARQL query failed: '' @ statusText response @ '' - '' @ errorText)
                        (''HTTP_'' @ number_toString (status response))))
          else
            (case response_json response of
               Inl e \<Rightarrow> Inl e
             | Inr result \<Rightarrow>
                 if \<not> isSparqlQueryResult result then
                   Inl (QueryEngineError ''Invalid SPARQL JSON response structure''
                          ''INVALID_RESPONSE_FORMAT'')
                 else Inr (apply_maxResults (m_maxResults mergedOptions) result)))"

text \<open>The \<^verbatim>\<open>catch\<close> block of \<^verbatim>\<open>query\<close>.\<close>

definition query_catch :: "merged_options \<Rightarrow> js_error \<Rightarrow> js_error" where
  "query_catch mergedOptions error =
     (if instanceof_QueryEngineError error then error
      else if instanceof_Error error then
        (if error_name error = ''AbortError'' then
           QueryEngineError
             (''Query timed out after '' @ optional_number_toString (m_timeout mergedOptions) @ ''ms'')
             ''TIMEOUT''
         else QueryEngineError (''Query execution failed: '' @ error_message error)
                ''EXECUTION_ERROR'')
      else QueryEngineError ''Unknown error occurred during query execution'' ''UNKNOWN_ERROR'')"

text \<open>
  \<^verbatim>\<open>QueryEngineSparqlEndpoint.query\<close>; \<open>toSparql\<close> is the serializer of the
  \<^verbatim>\<open>sparqlalgebrajs\<close> library, called before the \<^verbatim>\<open>try\<close> block.
\<close>

definition endpoint_query ::
    "('alg \<Rightarrow> js_error + string) \<Rightarrow> (fetch_request \<Rightarrow> js_error + http_response)
       \<Rightarrow> sparql_endpoint \<Rightarrow> 'alg \<Rightarrow> query_engine_options option \<Rightarrow> js_error + json" where
  "endpoint_query toSparql fetch this sparqlAlgebra options =
     (let mergedOptions = mergeOptions options in
      case toSparql sparqlAlgebra of
        Inl e \<Rightarrow> Inl e
      | Inr sparql \<Rightarrow>
          (case query_try fetch this sparql mergedOptions of
             Inl error \<Rightarrow> Inl (query_catch mergedOptions error)
           | Inr result \<Rightarrow> Inr result))"

section \<open>The SPARQL query validator (\<^verbatim>\<open>SparqlValidator\<close>)\<close>

text \<open>\<^verbatim>\<open>s.includes(p)\<close> for a string \<open>p\<close>.\<close>

definition includesString :: "string \<Rightarrow> string \<Rightarrow> bool" where
  "includesString s p \<longleftrightarrow> list_ex (\<lambda>i. take (length p) (drop i s) = p) [0..<Suc (length s)]"

definition ValidationError :: "string \<Rightarrow> js_error" where
  "ValidationError message = GraphQLLDError ''ValidationError'' message ''VALIDATION_ERROR''"

definition FORBIDDEN_OPERATIONS :: "string list" where
  "FORBIDDEN_OPERATIONS =
     [''DROP'', ''CREATE'', ''LOAD'', ''CLEAR'', ''DELETE'', ''INSERT'', ''UPDATE'']"

text \<open>The loop over the characters that counts braces; \<open>False\<close> is the throw.\<close>

fun braces_balanced :: "string \<Rightarrow> int \<Rightarrow> bool" where
  "braces_balanced [] braceCount = (braceCount = 0)"
| "braces_balanced (c # cs) braceCount =
     (let n1 = (if c = CHR ''{'' then braceCount + 1 else braceCount);
          n2 = (if c = CHR ''}'' then n1 - 1 else n1)
      in if n2 < 0 then False else braces_balanced cs n2)"

definition SparqlValidator_validateQuery :: "string \<Rightarrow> js_error + unit" where
  "SparqlValidator_validateQuery query =
     (if query = [] then Inl (ValidationError ''Invalid query: must be a non-empty string'')
      else if length query > 10000 then Inl (ValidationError ''Query exceeds maximum length'')
      else let upperQuery = toUpperCase query in
        case find (\<lambda>operation. includesString upperQuery operation) FORBIDDEN_OPERATIONS of
          Some operation \<Rightarrow>
            Inl (ValidationError (''Query contains forbidden operation: '' @ operation))
        | None \<Rightarrow>
            if \<not> startsWith upperQuery ''SELECT'' \<and> \<not> startsWith upperQuery ''CONSTRUCT'' then
              Inl (ValidationError ''Query must start with SELECT or CONSTRUCT'')
            else if \<not> includesString upperQuery ''WHERE'' then
              Inl (ValidationError ''Query must contain WHERE clause'')
            else if \<not> braces_balanced query 0 then
              Inl (ValidationError ''Query has unbalanced braces'')
            else Inr ())"

section \<open>The client (\<^verbatim>\<open>Client\<close>)\<close>

text \<open>
  \<^verbatim>\<open>MutationConverter.convertToSparql\<close>; \<open>parse\<close> is the parser of the \<^verbatim>\<open>graphql\<close>
  library and \<open>toSparql\<close> the serializer of \<^verbatim>\<open>sparqlalgebrajs\<close>. The variables
  are an object, given by its entries, or \<^verbatim>\<open>undefined\<close>.
\<close>

fun has_entries :: "(string \<times> 'v) list option \<Rightarrow> bool" where
  "has_entries None = False"
| "has_entries (Some vs) = (vs \<noteq> [])"

definition convertToSparql ::
    "(string \<Rightarrow> js_error + document) \<Rightarrow> (update \<Rightarrow> js_error + string) \<Rightarrow> jsonld_context
       \<Rightarrow> random_source \<Rightarrow> string \<Rightarrow> (string \<times> 'v) list option \<Rightarrow> js_error + string" where
  "convertToSparql parse toSparql ctx rnd mutationString variables =
     (if has_entries variables then
        Inl (Error ''Variable substitution is not yet implemented in mutation conversion'')
      else case parse mutationString of
        Inl e \<Rightarrow> Inl e
      | Inr ast \<Rightarrow>
          (case convert ctx rnd ast of
             Inl e \<Rightarrow> Inl e
           | Inr algebra \<Rightarrow> toSparql algebra))"

text \<open>
  \<^verbatim>\<open>new GraphQLError(message, ..., originalError, extensions)\<close> with the parts
  the client sets, and the \<^verbatim>\<open>ExecutionResult\<close> that \<^verbatim>\<open>query\<close> and \<^verbatim>\<open>mutate\<close>
  return (\<open>None\<close> is \<^verbatim>\<open>null\<close> for the data and an absent \<^verbatim>\<open>errors\<close>).
\<close>

record graphql_error =
  gql_message :: string
  gql_originalError :: "js_error option"
  gql_extensions_code :: string

record 'd execution_result =
  data :: "'d option"
  errors :: "graphql_error list option"

text \<open>\<^verbatim>\<open>{ mutate: { success, details } }\<close>\<close>

datatype 'r mutate_data = MutateData bool 'r

text \<open>
  The arguments of \<^verbatim>\<open>query\<close> and \<^verbatim>\<open>mutate\<close>: a query (a string or a parsed
  document) with optional variables, or an algebra with its singularize map.
\<close>

datatype ('v, 'alg, 'sing) query_args =
    QueryArgsRaw "string + document" "(string \<times> 'v) list option" "query_engine_options option"
  | QueryArgsSparql 'alg 'sing "query_engine_options option"

text \<open>
  The client with its collaborators: the promise of the parsed context (which
  may reject), the query engine with its optional \<^verbatim>\<open>update\<close>, the converters,
  and the library functions \<^verbatim>\<open>parse\<close>, \<^verbatim>\<open>print\<close> and \<^verbatim>\<open>toSparql\<close>.
\<close>

record ('v, 'alg, 'sing, 'tree, 'r) client =
  context_promise :: "js_error + jsonld_context"
  engine_query :: "'alg \<Rightarrow> query_engine_options option \<Rightarrow> js_error + json"
  engine_update :: "(string \<Rightarrow> query_engine_options option \<Rightarrow> js_error + 'r) option"
  graphqlToSparqlAlgebra ::
    "string + document \<Rightarrow> jsonld_context \<Rightarrow> (string \<times> 'v) list \<Rightarrow> js_error + ('alg \<times> 'sing)"
  sparqlJsonResultsToTree :: "json \<Rightarrow> 'sing \<Rightarrow> js_error + 'tree"
  graphql_parse :: "string \<Rightarrow> js_error + document"
  graphql_print :: "document \<Rightarrow> string"
  update_toSparql :: "update \<Rightarrow> js_error + string"
  math_random :: random_source

definition graphQlToSparql ::
    "('v, 'alg, 'sing, 'tree, 'r) client \<Rightarrow> string + document \<Rightarrow> (string \<times> 'v) list
       \<Rightarrow> js_error + ('alg \<times> 'sing)" where
  "graphQlToSparql c query variables =
     (case (case context_promise c of
              Inl e \<Rightarrow> Inl e
            | Inr ctx \<Rightarrow> graphqlToSparqlAlgebra c query ctx variables) of
        Inl error \<Rightarrow>
          Inl (QueryEngineError
                 (''GraphQL to SPARQL conversion failed: '' @ error_message error)
                 ''CONVERSION_ERROR'')
      | Inr r \<Rightarrow> Inr r)"

text \<open>The \<^verbatim>\<open>catch\<close> block of \<^verbatim>\<open>Client.query\<close>.\<close>

definition client_query_catch :: "js_error \<Rightarrow> js_error" where
  "client_query_catch error =
     (if instanceof_QueryEngineError error then error
      else QueryEngineError (''Query execution failed: '' @ error_message error)
             ''EXECUTION_ERROR'')"

fun args_options :: "('v, 'alg, 'sing) query_args \<Rightarrow> query_engine_options option" where
  "args_options (QueryArgsRaw q vs opts) = opts"
| "args_options (QueryArgsSparql alg sing opts) = opts"

definition client_query ::
    "('v, 'alg, 'sing, 'tree, 'r) client \<Rightarrow> ('v, 'alg, 'sing) query_args
       \<Rightarrow> js_error + 'tree execution_result" where
  "client_query c args =
     (case (case args of
              QueryArgsRaw q vs opts \<Rightarrow>
                graphQlToSparql c q (case vs of None \<Rightarrow> [] | Some entries \<Rightarrow> entries)
            | QueryArgsSparql alg sing opts \<Rightarrow> Inr (alg, sing)) of
        Inl error \<Rightarrow> Inl (client_query_catch error)
      | Inr (sparqlAlgebra, singularizeVariables) \<Rightarrow>
          (case engine_query c sparqlAlgebra (args_options args) of
             Inl error \<Rightarrow> Inl (client_query_catch error)
           | Inr sparqlJsonResult \<Rightarrow>
               (case sparqlJsonResultsToTree c sparqlJsonResult singularizeVariables of
                  Inl error \<Rightarrow> Inl (client_query_catch error)
                | Inr tree \<Rightarrow> Inr \<lparr> data = Some tree, errors = None \<rparr>)))"

text \<open>The result that the \<^verbatim>\<open>catch\<close> block of \<^verbatim>\<open>Client.mutate\<close> returns.\<close>

definition mutation_failed :: "js_error \<Rightarrow> 'd execution_result" where
  "mutation_failed error =
     \<lparr> data = None,
       errors = Some [\<lparr> gql_message = ''Mutation failed: '' @ error_message error,
                        gql_originalError = (if instanceof_Error error then Some error else None),
                        gql_extensions_code = ''MUTATION_ERROR'' \<rparr>] \<rparr>"

definition client_mutate ::
    "('v, 'alg, 'sing, 'tree, 'r) client \<Rightarrow> ('v, 'alg, 'sing) query_args
       \<Rightarrow> js_error + 'r mutate_data execution_result" where
  "client_mutate c args =
     (case args of
        QueryArgsSparql alg sing opts \<Rightarrow>
          Inl (QueryEngineError
                 ''Only GraphQL mutation string input is supported for mutations in this client.''
                 ''INVALID_INPUT'')
      | QueryArgsRaw q vs opts \<Rightarrow>
          (case context_promise c of
             Inl e \<Rightarrow> Inl e
           | Inr ctx \<Rightarrow>
               (let queryString = (case q of Inl s \<Rightarrow> s | Inr doc \<Rightarrow> graphql_print c doc) in
                if has_entries vs then
                  Inl (QueryEngineError
                         ''GraphQL variables in mutations are not yet fully supported.''
                         ''UNSUPPORTED_FEATURE'')
                else case convertToSparql (graphql_parse c) (update_toSparql c) ctx (math_random c)
                            queryString vs of
                  Inl e \<Rightarrow> Inl e
                | Inr sparqlUpdate \<Rightarrow>
                    (case engine_update c of
                       None \<Rightarrow>
                         Inl (QueryEngineError
                                ''Mutations are not supported by the current query engine.''
                                ''UNSUPPORTED_OPERATION'')
                     | Some update \<Rightarrow>
                         (case update sparqlUpdate opts of
                            Inr sparqlJsonResult \<Rightarrow>
                              Inr \<lparr> data = Some (MutateData True sparqlJsonResult),
                                    errors = None \<rparr>
                          | Inl error \<Rightarrow>
                              if instanceof_QueryEngineError error then Inl error
                              else Inr (mutation_failed error))))))"
text \<open>
  A client over mock collaborators, as the tests of the client set them up: a
  query engine whose \<^verbatim>\<open>query\<close> and \<^verbatim>\<open>update\<close> reject with
  \<^verbatim>\<open>new Error('Network error')\<close>, a parser that returns the document of
  \<^verbatim>\<open>mutation { deleteUser(id: "http://example.org/u1") }\<close>, and a serializer
  that returns a fixed text.
\<close>

definition mock_client :: "(unit, unit, unit, unit, unit) client" where
  "mock_client =
     \<lparr> context_promise = Inr Map.empty,
       engine_query = (\<lambda>alg opts. Inl (Error ''Network error'')),
       engine_update = Some (\<lambda>sparqlUpdate opts. Inl (Error ''Network error'')),
       graphqlToSparqlAlgebra = (\<lambda>q ctx vs. Inr ((), ())),
       sparqlJsonResultsToTree = (\<lambda>result sing. Inr ()),
       graphql_parse = (\<lambda>s. Inr [OperationDefinition Mutation
          [Field \<lparr>field_name = ''deleteUser'',
                   arguments = [(''id'', StringValue ''http://example.org/u1'')]\<rparr>]]),
       graphql_print = (\<lambda>doc. ''mutation { deleteUser }''),
       update_toSparql = (\<lambda>algebra. Inr ''DELETE WHERE { <http://example.org/u1> ?p_del ?o_del }''),
       math_random = [] \<rparr>"

section \<open>Properties of the context resolver\<close>

text \<open>
  Claim C5. \<^verbatim>\<open>expand_iri(v)\<close> returns \<open>v\<close> unchanged when \<open>v\<close> starts with
  \<^verbatim>\<open>http://\<close> or \<^verbatim>\<open>https://\<close>. Otherwise, when the context defines \<^verbatim>\<open>@base\<close>
  (the source's test is \<^verbatim>\<open>!base\<close>, so a defined base is a non-empty string
  \<open>b\<close>), the result is the base without one trailing slash, then \<^verbatim>\<open>/\<close>, then
  \<open>v\<close>, whatever \<open>v\<close> contains: a base \<open>b' @ ''/''\<close> gives \<open>b' @ ''/'' @ v\<close> and a
  base without trailing slash gives \<open>b @ ''/'' @ v\<close>. Otherwise (no base, or
  a falsy one) \<open>v\<close> is returned unchanged.
\<close>

theorem expandIri_cases:
  "(startsWith v ''http://'' \<or> startsWith v ''https://'' \<longrightarrow> expandIri ctx v = Inr v) \<and>
   (\<not> startsWith v ''http://'' \<and> \<not> startsWith v ''https://'' \<longrightarrow>
      (ctx ''@base'' = Some (Prim (JStr (b' @ ''/''))) \<longrightarrow>
         expandIri ctx v = Inr (b' @ ''/'' @ v)) \<and>
      (ctx ''@base'' = Some (Prim (JStr b)) \<and> b \<noteq> [] \<and> \<not> endsWith b ''/'' \<longrightarrow>
         expandIri ctx v = Inr (b @ ''/'' @ v)) \<and>
      (falsy (ctx ''@base'') \<longrightarrow> expandIri ctx v = Inr v))"
proof -
  have slash: "endsWith (b' @ ''/'') ''/''"
    by (simp add: endsWith_def)
  show ?thesis
    by (simp add: expandIri_def Let_def slash)
qed

theorem expandIri_cases_witness:
  "expandIri [''@base'' \<mapsto> Prim (JStr ''http://example.org/'')] ''ex:user1''
     = Inr ''http://example.org/ex:user1'' \<and>
   expandIri [''@base'' \<mapsto> Prim (JStr ''http://example.org'')] ''ex:user1''
     = Inr ''http://example.org/ex:user1'' \<and>
   expandIri [''@base'' \<mapsto> Prim (JStr ''http://example.org/'')] ''https://a.b/c''
     = Inr ''https://a.b/c'' \<and>
   expandIri Map.empty ''ex:user1'' = Inr ''ex:user1''"
proof -
  have n: "\<not> startsWith ''ex:user1'' ''http://'' \<and> \<not> startsWith ''ex:user1'' ''https://''"
    by (simp add: startsWith_def)
  have h: "startsWith ''https://a.b/c'' ''http://'' \<or> startsWith ''https://a.b/c'' ''https://''"
    by (simp add: startsWith_def)
  have e: "\<not> endsWith ''http://example.org'' ''/''"
    by (simp add: endsWith_def)
  have 1: "expandIri [''@base'' \<mapsto> Prim (JStr ''http://example.org/'')] ''ex:user1''
     = Inr ''http://example.org/ex:user1''"
    using expandIri_cases [of "''ex:user1''"
        "[''@base'' \<mapsto> Prim (JStr ''http://example.org/'')]" "''http://example.org''" "[]"] n
    by simp
  have 2: "expandIri [''@base'' \<mapsto> Prim (JStr ''http://example.org'')] ''ex:user1''
     = Inr ''http://example.org/ex:user1''"
    using expandIri_cases [of "''ex:user1''"
        "[''@base'' \<mapsto> Prim (JStr ''http://example.org'')]" "[]" "''http://example.org''"] n e
    by simp
  have 3: "expandIri [''@base'' \<mapsto> Prim (JStr ''http://example.org/'')] ''https://a.b/c''
     = Inr ''https://a.b/c''"
    using expandIri_cases [of "''https://a.b/c''"
        "[''@base'' \<mapsto> Prim (JStr ''http://example.org/'')]" "[]" "[]"] h
    by blast
  have 4: "expandIri Map.empty ''ex:user1'' = Inr ''ex:user1''"
    using expandIri_cases [of "''ex:user1''" Map.empty "[]" "[]"] n
    by simp
  from 1 2 3 4 show ?thesis by blast
qed

section \<open>Properties of the query cache\<close>





lemma set_remove1_distinct: "distinct xs \<Longrightarrow> set (remove1 k xs) = set xs - {k}"
  by simp



lemma delete_entry_fields [simp]:
  "maxEntries (delete_entry key s) = maxEntries s"
  "defaultTtl (delete_entry key s) = defaultTtl s"
  by (simp_all add: delete_entry_def)














subsection \<open>The access order is the order of last access\<close>










lemma recency_inv_cache_update [simp]:
  "recency_inv la t (s\<lparr>cache := c\<rparr>) = recency_inv la t s"
  by (simp add: recency_inv_def)











section \<open>Properties of the mutation converter\<close>

subsection \<open>Every error of the converter is an error without a code\<close>

lemma expandIri_uncoded: "expandIri ctx v = Inl e \<Longrightarrow> error_code e = None"
  by (auto simp: expandIri_def Let_def split: if_splits option.splits ctx_entry.splits jv.splits)

lemma getPredicateIri_uncoded: "getPredicateIri ctx f = Inl e \<Longrightarrow> error_code e = None"
  by (auto simp: getPredicateIri_def split: option.splits)

lemma getTypeIri_uncoded: "getTypeIri ctx n = Inl e \<Longrightarrow> error_code e = None"
  by (auto simp: getTypeIri_def Let_def split: option.splits ctx_entry.splits jv.splits)

lemma parseValueNode_uncoded: "parseValueNode v = Inl e \<Longrightarrow> error_code e = None"
  by (cases v) auto

lemma create_subject_uncoded: "create_subject ctx flds rnd = Inl e \<Longrightarrow> error_code e = None"
  by (auto simp: create_subject_def invalid_iri_error_def
      split: option.splits prod.splits value_node.splits if_splits sum.splits
      dest: expandIri_uncoded)

lemma create_field_uncoded: "create_field ctx s field quads = Inl e \<Longrightarrow> error_code e = None"
  unfolding create_field_def Let_def
  by (auto split: if_splits sum.splits option.splits
      dest: getPredicateIri_uncoded expandIri_uncoded parseValueNode_uncoded)

lemma create_fields_uncoded: "create_fields ctx s flds quads = Inl e \<Longrightarrow> error_code e = None"
  by (induction flds arbitrary: quads) (auto split: sum.splits dest: create_field_uncoded)

lemma handleCreate_uncoded: "handleCreate ctx node entity quads rnd = Inl e \<Longrightarrow> error_code e = None"
  unfolding handleCreate_def
  by (auto split: option.splits prod.splits value_node.splits sum.splits
      dest: getTypeIri_uncoded create_subject_uncoded create_fields_uncoded)

lemma update_field_uncoded: "update_field ctx s field arrs = Inl e \<Longrightarrow> error_code e = None"
  unfolding update_field_def Let_def
  by (auto split: if_splits sum.splits dest: getPredicateIri_uncoded parseValueNode_uncoded)

lemma update_fields_uncoded: "update_fields ctx s flds arrs = Inl e \<Longrightarrow> error_code e = None"
  by (induction flds arbitrary: arrs) (auto split: sum.splits dest: update_field_uncoded)

lemma handleUpdate_uncoded: "handleUpdate ctx node s entity arrs = Inl e \<Longrightarrow> error_code e = None"
  unfolding handleUpdate_def
  by (auto split: option.splits prod.splits value_node.splits sum.splits if_splits
      dest: update_fields_uncoded)

lemma subject_of_id_argument_uncoded:
  "subject_of_id_argument ctx opType node = Inl e \<Longrightarrow> error_code e = None"
  unfolding subject_of_id_argument_def
  by (auto simp: invalid_iri_error_def
      split: option.splits prod.splits value_node.splits sum.splits if_splits
      dest: expandIri_uncoded)

lemma identify_operation_uncoded:
  "identify_operation ctx node st = Inl e \<Longrightarrow> error_code e = None"
  unfolding identify_operation_def
  by (auto split: option.splits prod.splits sum.splits if_splits
      dest: subject_of_id_argument_uncoded)

lemma dispatch_handler_uncoded:
  "dispatch_handler ctx node st = Inl e \<Longrightarrow> error_code e = None"
  unfolding dispatch_handler_def
  by (auto split: option.splits prod.splits sum.splits operation_type.splits
      dest: handleCreate_uncoded handleUpdate_uncoded)

lemma visit_step_uncoded: "visit_step ctx ev st = Inl e \<Longrightarrow> error_code e = None"
  by (cases ev)
     (auto split: if_splits sum.splits dest: identify_operation_uncoded dispatch_handler_uncoded)

lemma visit_events_uncoded: "visit_events ctx evs st = Inl e \<Longrightarrow> error_code e = None"
  by (induction evs arbitrary: st) (auto split: sum.splits dest: visit_step_uncoded)

lemma build_operation_uncoded: "build_operation st = Inl e \<Longrightarrow> error_code e = None"
  by (auto simp: build_operation_def split: if_splits)

lemma convert_uncoded: "convert ctx rnd doc = Inl e \<Longrightarrow> error_code e = None"
  by (auto simp: convert_def split: sum.splits
      dest: visit_events_uncoded build_operation_uncoded)

subsection \<open>The first field of a mutation\<close>

lemma convert_first_field_fails:
  assumes "document_events doc = EnterOperationDefinition Mutation # EnterField node # rest"
    and "visit_step ctx (EnterField node) (initial_state rnd) = Inl e"
  shows "convert ctx rnd doc = Inl e"
  using assms by (simp add: convert_def)

lemma first_field_update_or_delete:
  assumes "operation_of_name (field_name node) = Some (opType, entity)" and "opType \<noteq> Create"
    and "subject_of_id_argument ctx opType node = Inl e"
  shows "visit_step ctx (EnterField node) (initial_state rnd) = Inl e"
  using assms by (cases opType) (simp_all add: initial_state_def identify_operation_def)

lemma first_field_update:
  assumes "operation_of_name (field_name node) = Some (Update, entity)"
    and "subject_of_id_argument ctx Update node = Inr subj"
    and "handleUpdate ctx node subj entity \<lparr>insertQuads = [], deleteQuads = [], wherePatterns = []\<rparr> = Inl e"
  shows "visit_step ctx (EnterField node) (initial_state rnd) = Inl e"
  using assms by (simp add: initial_state_def identify_operation_def dispatch_handler_def)

lemma first_field_create:
  assumes "operation_of_name (field_name node) = Some (Create, entity)"
    and "handleCreate ctx node entity [] rnd = Inl e"
  shows "visit_step ctx (EnterField node) (initial_state rnd) = Inl e"
  using assms by (simp add: initial_state_def identify_operation_def dispatch_handler_def)

subsection \<open>The fields after the first one\<close>

text \<open>
  The events of a document with a field are the operation definitions that
  precede the first visited field, that field, and the events after it.
\<close>

lemma visit_events_append:
  "visit_events ctx (xs @ ys) st =
     (case visit_events ctx xs st of Inl e \<Rightarrow> Inl e | Inr st1 \<Rightarrow> visit_events ctx ys st1)"
  by (induction xs arbitrary: st) (auto split: sum.splits)

lemma visit_operation_definitions:
  "visit_events ctx (map EnterOperationDefinition ks @ evs) st =
     (if list_all (\<lambda>k. k = Mutation) ks then visit_events ctx evs st
      else Inl (Error ''Only mutation operations are supported.''))"
  by (induction ks) auto

text \<open>Once the operation type is set, no later event changes it, the entity
  name or the subject.\<close>

lemma dispatch_handler_keeps:
  assumes "dispatch_handler ctx node st = Inr st1"
  shows "operationType st1 = operationType st \<and> entityTypeName st1 = entityTypeName st \<and>
         subjectHint st1 = subjectHint st"
  using assms unfolding dispatch_handler_def handleDelete_def Let_def
  by (auto split: option.splits operation_type.splits sum.splits prod.splits)

lemma visit_step_keeps:
  assumes "operationType st = Some t" and "visit_step ctx ev st = Inr st1"
  shows "operationType st1 = Some t \<and> entityTypeName st1 = entityTypeName st \<and>
         subjectHint st1 = subjectHint st"
proof (cases ev)
  case (EnterOperationDefinition k)
  with assms show ?thesis by (auto split: if_splits)
next
  case (EnterField node)
  with assms have "dispatch_handler ctx node st = Inr st1" by simp
  from dispatch_handler_keeps [OF this] assms(1) show ?thesis by simp
qed

lemma visit_events_keeps:
  "operationType st = Some t \<Longrightarrow> visit_events ctx evs st = Inr st1 \<Longrightarrow>
   operationType st1 = Some t \<and> entityTypeName st1 = entityTypeName st \<and>
   subjectHint st1 = subjectHint st"
proof (induction evs arbitrary: st)
  case Nil
  then show ?case by simp
next
  case (Cons ev evs)
  from Cons.prems(2) obtain st2 where s: "visit_step ctx ev st = Inr st2"
    and r: "visit_events ctx evs st2 = Inr st1"
    by (auto split: sum.splits)
  from visit_step_keeps [OF Cons.prems(1) s]
  have k: "operationType st2 = Some t" "entityTypeName st2 = entityTypeName st"
    "subjectHint st2 = subjectHint st" by simp_all
  from Cons.IH [OF k(1) r] k show ?case by simp
qed

text \<open>The state after the first visited field.\<close>

lemma first_field_state:
  assumes "visit_step ctx (EnterField node) (initial_state rnd) = Inr st1"
    and "operation_of_name (field_name node) = Some (t, entity)"
  shows "operationType st1 = Some t \<and> entityTypeName st1 = Some entity \<and>
    (t \<noteq> Create \<longrightarrow>
       (\<exists>subj. subject_of_id_argument ctx t node = Inr subj \<and> subjectHint st1 = Some subj))"
proof -
  from assms obtain st0 where i: "identify_operation ctx node (initial_state rnd) = Inr st0"
    and d: "dispatch_handler ctx node st0 = Inr st1"
    by (auto simp: initial_state_def split: sum.splits)
  from i assms(2) have "operationType st0 = Some t \<and> entityTypeName st0 = Some entity \<and>
    (t \<noteq> Create \<longrightarrow>
       (\<exists>subj. subject_of_id_argument ctx t node = Inr subj \<and> subjectHint st0 = Some subj))"
    by (cases t) (auto simp: identify_operation_def split: sum.splits)
  with dispatch_handler_keeps [OF d] show ?thesis by simp
qed

text \<open>
  The state in which a visited field \<open>node\<close> is reached: the initial state when
  it is the first field, and otherwise a state that holds the operation and
  the entity name of the first field, and the subject of its \<^verbatim>\<open>id\<close> argument.
\<close>

lemma state_before_field:
  assumes "EnterField first # rest = pre @ EnterField node # post"
    and "visit_events ctx pre (initial_state rnd) = Inr st"
    and "operation_of_name (field_name first) = Some (t, entity)"
  shows "(pre = [] \<and> node = first \<and> st = initial_state rnd) \<or>
    (operationType st = Some t \<and> entityTypeName st = Some entity \<and>
     (t \<noteq> Create \<longrightarrow>
        (\<exists>subj. subject_of_id_argument ctx t first = Inr subj \<and> subjectHint st = Some subj)))"
proof (cases pre)
  case Nil
  with assms(1,2) show ?thesis by simp
next
  case (Cons ev more)
  with assms(1) have ev: "ev = EnterField first" by simp
  from assms(2) Cons ev obtain st1
    where s: "visit_step ctx (EnterField first) (initial_state rnd) = Inr st1"
      and r: "visit_events ctx more st1 = Inr st"
    by (auto split: sum.splits)
  from first_field_state [OF s assms(3)]
  have f: "operationType st1 = Some t" "entityTypeName st1 = Some entity"
    "t \<noteq> Create \<longrightarrow>
       (\<exists>subj. subject_of_id_argument ctx t first = Inr subj \<and> subjectHint st1 = Some subj)"
    by simp_all
  from visit_events_keeps [OF f(1) r] f show ?thesis by simp
qed

text \<open>A field at which the visitor fails makes the conversion fail.\<close>

lemma convert_field_fails:
  assumes "document_events doc = map EnterOperationDefinition ks @ EnterField first # rest"
    and "EnterField first # rest = pre @ EnterField node # post"
    and "\<And>st. visit_events ctx pre (initial_state rnd) = Inr st \<Longrightarrow>
           \<exists>e. visit_step ctx (EnterField node) st = Inl e"
  shows "\<exists>e. convert ctx rnd doc = Inl e \<and> error_code e = None"
proof -
  have "\<exists>e. visit_events ctx (pre @ EnterField node # post) (initial_state rnd) = Inl e"
  proof (cases "visit_events ctx pre (initial_state rnd)")
    case (Inl e)
    then show ?thesis by (simp add: visit_events_append)
  next
    case (Inr st)
    from assms(3) [OF Inr] obtain e where "visit_step ctx (EnterField node) st = Inl e" by blast
    with Inr show ?thesis by (simp add: visit_events_append)
  qed
  then have "\<exists>e. visit_events ctx (document_events doc) (initial_state rnd) = Inl e"
    unfolding assms(1) visit_operation_definitions assms(2) by simp
  then obtain e where "convert ctx rnd doc = Inl e"
    by (auto simp: convert_def)
  then show ?thesis using convert_uncoded by blast
qed

lemma convert_field_fails_with:
  assumes "document_events doc = map EnterOperationDefinition ks @ EnterField first # rest"
    and "EnterField first # rest = pre @ EnterField node # post"
    and "visit_events ctx (map EnterOperationDefinition ks @ pre) (initial_state rnd) = Inr st"
    and "visit_step ctx (EnterField node) st = Inl e"
  shows "convert ctx rnd doc = Inl e"
proof -
  have "document_events doc = (map EnterOperationDefinition ks @ pre) @ EnterField node # post"
    by (simp add: assms(1,2))
  moreover have "visit_events ctx ((map EnterOperationDefinition ks @ pre) @ EnterField node # post)
      (initial_state rnd) = visit_events ctx (EnterField node # post) st"
    by (simp only: visit_events_append [of ctx "map EnterOperationDefinition ks @ pre"] assms(3)
          sum.case)
  moreover have "visit_events ctx (EnterField node # post) st = Inl e"
    by (simp only: visit_events.simps assms(4) sum.case)
  ultimately have "visit_events ctx (document_events doc) (initial_state rnd) = Inl e"
    by simp
  then show ?thesis by (simp add: convert_def)
qed

lemma visited_prefix:
  assumes "visit_events ctx (map EnterOperationDefinition ks @ pre) (initial_state rnd) = Inr st"
  shows "list_all (\<lambda>k. k = Mutation) ks \<and> visit_events ctx pre (initial_state rnd) = Inr st"
  using assms unfolding visit_operation_definitions by (auto split: if_splits)

subsection \<open>Updates of \<^verbatim>\<open>id\<close>\<close>

lemma update_fields_append:
  "update_fields ctx s (pre @ post) arrs =
     (case update_fields ctx s pre arrs of Inl e \<Rightarrow> Inl e | Inr arrs1 \<Rightarrow> update_fields ctx s post arrs1)"
  by (induction pre arbitrary: arrs) (auto split: sum.splits)

lemma update_fields_id_fails:
  "''id'' \<in> fst ` set flds \<Longrightarrow> \<exists>e. update_fields ctx s flds arrs = Inl e"
proof (induction flds arbitrary: arrs)
  case Nil
  then show ?case by simp
next
  case (Cons field flds)
  show ?case
  proof (cases "fst field = ''id''")
    case True
    then show ?thesis by (simp add: update_field_def)
  next
    case False
    with Cons.prems have "''id'' \<in> fst ` set flds" by auto
    then show ?thesis using Cons.IH by (auto split: sum.splits)
  qed
qed

lemma handleUpdate_id_fails:
  assumes "find_named ''input'' (arguments node) = Some (n, ObjectValue flds)"
    and "''id'' \<in> fst ` set flds"
  shows "\<exists>e. handleUpdate ctx node subj entity arrs = Inl e"
  using update_fields_id_fails [OF assms(2), of ctx subj arrs]
  by (auto simp: handleUpdate_def assms(1))

lemma handleUpdate_id_error:
  assumes "find_named ''input'' (arguments node) = Some (n, ObjectValue flds)"
    and "flds = pre @ (''id'', v) # post"
    and "update_fields ctx subj pre arrs = Inr arrs1"
  shows "handleUpdate ctx node subj entity arrs = Inl id_update_error"
proof -
  have "update_fields ctx subj flds arrs = Inl id_update_error"
    unfolding assms(2) update_fields_append
    by (simp add: assms(3) update_field_def id_update_error_def)
  then show ?thesis by (simp add: handleUpdate_def assms(1))
qed

text \<open>The visitor at a field of an update mutation, the first one or a later one.\<close>

lemma update_step_fails:
  assumes "(node = first \<and> st = initial_state rnd) \<or>
      (operationType st = Some Update \<and> entityTypeName st = Some entity \<and>
       (\<exists>subj. subject_of_id_argument ctx Update first = Inr subj \<and> subjectHint st = Some subj))"
    and "operation_of_name (field_name first) = Some (Update, entity)"
    and "subject_of_id_argument ctx Update first = Inr subj"
    and "handleUpdate ctx node subj entity (updateArrays st) = Inl e"
  shows "visit_step ctx (EnterField node) st = Inl e"
  using assms(1)
proof
  assume a: "node = first \<and> st = initial_state rnd"
  with assms(4) have "handleUpdate ctx first subj entity
      \<lparr>insertQuads = [], deleteQuads = [], wherePatterns = []\<rparr> = Inl e"
    by (simp add: initial_state_def)
  from first_field_update [OF assms(2,3) this] a show ?thesis by simp
next
  assume b: "operationType st = Some Update \<and> entityTypeName st = Some entity \<and>
       (\<exists>subj. subject_of_id_argument ctx Update first = Inr subj \<and> subjectHint st = Some subj)"
  with assms(3) have "subjectHint st = Some subj" by auto
  with b assms(4) show ?thesis by (simp add: dispatch_handler_def)
qed

lemma update_step_fails_ex:
  assumes "(node = first \<and> st = initial_state rnd) \<or>
      (operationType st = Some Update \<and> entityTypeName st = Some entity \<and>
       (\<exists>subj. subject_of_id_argument ctx Update first = Inr subj \<and> subjectHint st = Some subj))"
    and "operation_of_name (field_name first) = Some (Update, entity)"
    and "\<And>subj. \<exists>e. handleUpdate ctx node subj entity (updateArrays st) = Inl e"
  shows "\<exists>e. visit_step ctx (EnterField node) st = Inl e"
proof (cases "subject_of_id_argument ctx Update first")
  case (Inl e)
  with assms(1) have a: "node = first \<and> st = initial_state rnd" by auto
  from first_field_update_or_delete [OF assms(2) _ Inl, of rnd] a show ?thesis by auto
next
  case (Inr subj)
  from assms(3) obtain e where "handleUpdate ctx node subj entity (updateArrays st) = Inl e"
    by blast
  from update_step_fails [OF assms(1,2) Inr this] show ?thesis by blast
qed

text \<open>
  Claim C7, as amended. Let the first field that the visitor reaches in a
  document be an update field \<open>first\<close> (the operation definitions \<open>ks\<close> are what
  it reaches before; a field of a fragment definition that precedes the
  operation counts as a field), and let \<open>node\<close> be that field or any field
  visited after it. When the \<^verbatim>\<open>input\<close> object of \<open>node\<close> has a key \<^verbatim>\<open>id\<close>, the
  conversion fails, so no update operation is emitted; the error is an error
  without a code. When the visit reaches \<open>node\<close>, in a state \<open>st\<close>, and the input
  fields before the first \<^verbatim>\<open>id\<close> key convert, the error is the plain error
  "'id' field cannot be updated via input object in update mutation.".
\<close>

theorem update_with_id_key_fails:
  assumes "document_events doc = map EnterOperationDefinition ks @ EnterField first # rest"
    and "operation_of_name (field_name first) = Some (Update, entity)"
    and "EnterField node \<in> set (EnterField first # rest)"
    and "find_named ''input'' (arguments node) = Some (n, ObjectValue flds)"
    and "''id'' \<in> fst ` set flds"
  shows "(\<exists>e. convert ctx rnd doc = Inl e \<and> error_code e = None) \<and>
    (\<forall>before after st subj pre v post arrs.
       EnterField first # rest = before @ EnterField node # after \<and>
       visit_events ctx (map EnterOperationDefinition ks @ before) (initial_state rnd) = Inr st \<and>
       subject_of_id_argument ctx Update first = Inr subj \<and> flds = pre @ (''id'', v) # post \<and>
       update_fields ctx subj pre (updateArrays st) = Inr arrs
       \<longrightarrow> convert ctx rnd doc = Inl id_update_error)"
proof -
  from assms(3) have "\<exists>before after. EnterField first # rest = before @ EnterField node # after"
    by (rule split_list)
  then obtain before after
    where dec: "EnterField first # rest = before @ EnterField node # after"
    by blast
  have general: "\<exists>e. convert ctx rnd doc = Inl e \<and> error_code e = None"
  proof (rule convert_field_fails [OF assms(1) dec])
    fix st
    assume v: "visit_events ctx before (initial_state rnd) = Inr st"
    from state_before_field [OF dec v assms(2)]
    have s: "(node = first \<and> st = initial_state rnd) \<or>
      (operationType st = Some Update \<and> entityTypeName st = Some entity \<and>
       (\<exists>subj. subject_of_id_argument ctx Update first = Inr subj \<and> subjectHint st = Some subj))"
      by auto
    show "\<exists>e. visit_step ctx (EnterField node) st = Inl e"
      by (rule update_step_fails_ex [OF s assms(2)])
         (rule handleUpdate_id_fails [OF assms(4,5)])
  qed
  have specific: "convert ctx rnd doc = Inl id_update_error"
    if d: "EnterField first # rest = before @ EnterField node # after"
      and v: "visit_events ctx (map EnterOperationDefinition ks @ before) (initial_state rnd) = Inr st"
      and s: "subject_of_id_argument ctx Update first = Inr subj"
      and f: "flds = pre @ (''id'', v1) # post"
      and p: "update_fields ctx subj pre (updateArrays st) = Inr arrs"
    for before after st subj pre v1 post arrs
  proof -
    from visited_prefix [OF v]
    have v': "visit_events ctx before (initial_state rnd) = Inr st" by simp
    from state_before_field [OF d v' assms(2)]
    have st: "(node = first \<and> st = initial_state rnd) \<or>
      (operationType st = Some Update \<and> entityTypeName st = Some entity \<and>
       (\<exists>subj. subject_of_id_argument ctx Update first = Inr subj \<and> subjectHint st = Some subj))"
      by auto
    have "handleUpdate ctx node subj entity (updateArrays st) = Inl id_update_error"
      by (rule handleUpdate_id_error [OF assms(4) f p])
    from update_step_fails [OF st assms(2) s this]
    show ?thesis by (rule convert_field_fails_with [OF assms(1) d v])
  qed
  from general specific show ?thesis by blast
qed

theorem update_with_id_key_fails_witness:
  "convert [''name'' \<mapsto> Prim (JStr ''http://xmlns.com/foaf/0.1/name'')] []
     [OperationDefinition Mutation
        [Field \<lparr>field_name = ''updateUser'',
                 arguments = [(''id'', StringValue ''ex:user1''),
                              (''input'', ObjectValue [(''name'', StringValue ''Alicia'')])]\<rparr>,
         Field \<lparr>field_name = ''updateUser'',
                 arguments = [(''id'', StringValue ''ex:user1''),
                              (''input'', ObjectValue [(''id'', StringValue ''ex:user2'')])]\<rparr>]]
     = Inl id_update_error \<and>
   error_code id_update_error = None"
proof -
  let ?ctx = "[''name'' \<mapsto> Prim (JStr ''http://xmlns.com/foaf/0.1/name'')]"
  let ?flds = "[(''id'', StringValue ''ex:user2'')]"
  let ?first = "\<lparr>field_name = ''updateUser'',
                 arguments = [(''id'', StringValue ''ex:user1''),
                              (''input'', ObjectValue [(''name'', StringValue ''Alicia'')])]\<rparr>"
  let ?node = "\<lparr>field_name = ''updateUser'',
                 arguments = [(''id'', StringValue ''ex:user1''), (''input'', ObjectValue ?flds)]\<rparr>"
  let ?doc = "[OperationDefinition Mutation [Field ?first, Field ?node]]"
  let ?subj = "NamedNode ''ex:user1''"
  let ?arrs = "\<lparr>insertQuads = [mk_quad ?subj (NamedNode ''http://xmlns.com/foaf/0.1/name'')
                                   (Literal ''Alicia'' xsd_string)],
                 deleteQuads = [mk_quad ?subj (NamedNode ''http://xmlns.com/foaf/0.1/name'')
                                   (Variable ''old_name'')],
                 wherePatterns = [quadToAlgebraPattern
                    (mk_quad ?subj (NamedNode ''http://xmlns.com/foaf/0.1/name'')
                       (Variable ''old_name''))]\<rparr>"
  let ?st = "\<lparr> operationType = Some Update, entityTypeName = Some ''User'',
       subjectHint = Some ?subj, createQuads = [], updateArrays = ?arrs,
       deleteQuadsV = [], deleteWherePatterns = [], random = [] \<rparr>"
  have ev: "document_events ?doc =
      map EnterOperationDefinition [Mutation] @ EnterField ?first # [EnterField ?node]"
    by (simp add: document_events_def)
  have op: "operation_of_name (field_name ?first) = Some (Update, ''User'')"
    by (simp add: operation_of_name_def startsWith_def)
  have mem: "EnterField ?node \<in> set (EnterField ?first # [EnterField ?node])"
    by simp
  have inp: "find_named ''input'' (arguments ?node) = Some (''input'', ObjectValue ?flds)"
    by (simp add: find_named_def)
  have idk: "''id'' \<in> fst ` set ?flds" by simp
  have dec: "EnterField ?first # [EnterField ?node] = [EnterField ?first] @ EnterField ?node # []"
    by simp
  have subj: "subject_of_id_argument ?ctx Update ?first = Inr ?subj"
    by (simp add: subject_of_id_argument_def find_named_def illegal_iri_chars_def
          includesChar_def expandIri_def startsWith_def)
  have vis: "visit_events ?ctx (map EnterOperationDefinition [Mutation] @ [EnterField ?first])
      (initial_state []) = Inr ?st"
    by (simp add: initial_state_def identify_operation_def operation_of_name_def startsWith_def
          subject_of_id_argument_def illegal_iri_chars_def includesChar_def expandIri_def
          dispatch_handler_def handleUpdate_def find_named_def update_field_def
          getPredicateIri_def Let_def)
  have split: "?flds = [] @ (''id'', StringValue ''ex:user2'') # []"
    by simp
  have pre: "update_fields ?ctx ?subj [] (updateArrays ?st) = Inr ?arrs"
    by simp
  from update_with_id_key_fails [OF ev op mem inp idk, of ?ctx "[]"] dec vis subj split pre
  have "convert ?ctx [] ?doc = Inl id_update_error" by blast
  then show ?thesis by (simp add: id_update_error_def)
qed

text \<open>
  The claim as stated fails on the error code: the error raised for an \<^verbatim>\<open>id\<close>
  key is a plain \<^verbatim>\<open>Error\<close>, which has no code. It also fails for an update
  that is the first field under the mutation operation but not the first field
  visited: after a fragment definition whose field is a create, the update
  field is handled by \<^verbatim>\<open>handleCreate\<close>, and the document compiles to an insertion.
\<close>

theorem update_id_error_code_counterexample:
  "convert Map.empty []
     [OperationDefinition Mutation
        [Field \<lparr>field_name = ''updateUser'',
                 arguments = [(''id'', StringValue ''ex:user1''),
                              (''input'', ObjectValue [(''id'', StringValue ''ex:user2'')])]\<rparr>]]
     = Inl (Error '''id' field cannot be updated via input object in update mutation.'') \<and>
   error_code (Error '''id' field cannot be updated via input object in update mutation.'')
     \<noteq> Some ''CONVERSION_ERROR'' \<and>
   convert [''User'' \<mapsto> Prim (JStr ''http://example.org/User'')] []
     [FragmentDefinition
        [Field \<lparr>field_name = ''createUser'',
                 arguments = [(''input'', ObjectValue [(''id'', StringValue ''ex:u1'')])]\<rparr>],
      OperationDefinition Mutation
        [Field \<lparr>field_name = ''updateUser'',
                 arguments = [(''id'', StringValue ''ex:u2''),
                              (''input'', ObjectValue [(''id'', StringValue ''ex:u3'')])]\<rparr>]]
     = Inr (CompositeUpdate
         [DeleteInsert None
            (Some [Pattern (NamedNode ''ex:u1'') (NamedNode rdf_type)
                     (NamedNode ''http://example.org/User'') DefaultGraph,
                   Pattern (NamedNode ''ex:u3'') (NamedNode rdf_type)
                     (NamedNode ''http://example.org/User'') DefaultGraph])
            None])"
  by (simp add: convert_def document_events_def initial_state_def identify_operation_def
        operation_of_name_def startsWith_def subject_of_id_argument_def find_named_def
        illegal_iri_chars_def includesChar_def expandIri_def dispatch_handler_def
        handleUpdate_def update_field_def handleCreate_def create_subject_def create_field_def
        getTypeIri_def build_operation_def mk_quad_def quadToAlgebraPattern_def Let_def)

subsection \<open>Subject IRIs with illegal characters\<close>

lemma illegal_iri_charsI:
  "c \<in> {CHR 0x0A, CHR 0x0D, CHR ''<'', CHR ''>''} \<Longrightarrow> c \<in> set iriValue \<Longrightarrow> illegal_iri_chars iriValue"
  by (auto simp: illegal_iri_chars_def includesChar_def)

lemma legal_iri_chars:
  "set iri \<inter> {CHR 0x0A, CHR 0x0D, CHR ''<'', CHR ''>''} = {} \<Longrightarrow> \<not> illegal_iri_chars iri"
  by (auto simp: illegal_iri_chars_def includesChar_def)

lemma handleCreate_illegal_id:
  assumes "find_named ''input'' (arguments node) = Some (n, ObjectValue flds)"
    and "find_named ''id'' flds = Some (m, StringValue iriValue)"
    and "illegal_iri_chars iriValue"
  shows "handleCreate ctx node entity quads rnd =
           (case getTypeIri ctx entity of Inl e \<Rightarrow> Inl e | Inr t \<Rightarrow> Inl invalid_iri_error)"
proof -
  from assms(2,3) have "create_subject ctx flds rnd = Inl invalid_iri_error"
    by (simp add: create_subject_def)
  then show ?thesis by (simp add: handleCreate_def assms(1) split: sum.splits)
qed

text \<open>The visitor at a field of a create mutation, the first one or a later one.\<close>

lemma create_step_fails:
  assumes "(node = first \<and> st = initial_state rnd) \<or>
      (operationType st = Some Create \<and> entityTypeName st = Some entity)"
    and "operation_of_name (field_name first) = Some (Create, entity)"
    and "handleCreate ctx node entity (createQuads st) (random st) = Inl e"
  shows "visit_step ctx (EnterField node) st = Inl e"
  using assms(1)
proof
  assume a: "node = first \<and> st = initial_state rnd"
  with assms(3) have "handleCreate ctx first entity [] rnd = Inl e"
    by (simp add: initial_state_def)
  from first_field_create [OF assms(2) this] a show ?thesis by simp
next
  assume "operationType st = Some Create \<and> entityTypeName st = Some entity"
  with assms(3) show ?thesis by (simp add: dispatch_handler_def)
qed

text \<open>A delete and a create of one field whose subject IRI passes the test.\<close>

lemma convert_single_delete:
  assumes "\<not> illegal_iri_chars iri" and "expandIri ctx iri = Inr expanded"
  shows "convert ctx rnd
     [OperationDefinition Mutation
        [Field \<lparr>field_name = ''delete'' @ name, arguments = [(''id'', StringValue iri)]\<rparr>]]
     = Inr (CompositeUpdate
         [DeleteInsert
            (Some [Pattern (NamedNode expanded) (Variable ''p_del'') (Variable ''o_del'') DefaultGraph])
            None
            (Some (Bgp [Pattern (NamedNode expanded) (Variable ''p_del'') (Variable ''o_del'')
                DefaultGraph]))])"
proof -
  let ?node = "\<lparr>field_name = ''delete'' @ name, arguments = [(''id'', StringValue iri)]\<rparr>"
  have s: "subject_of_id_argument ctx Delete ?node = Inr (NamedNode expanded)"
    using assms by (simp add: subject_of_id_argument_def find_named_def)
  have "visit_step ctx (EnterField ?node) (initial_state rnd) =
      Inr ((initial_state rnd)\<lparr>operationType := Some Delete, entityTypeName := Some name,
          subjectHint := Some (NamedNode expanded),
          deleteQuadsV := [mk_quad (NamedNode expanded) (Variable ''p_del'') (Variable ''o_del'')],
          deleteWherePatterns := [quadToAlgebraPattern
             (mk_quad (NamedNode expanded) (Variable ''p_del'') (Variable ''o_del''))]\<rparr>)"
    using s
    by (simp add: initial_state_def identify_operation_def operation_of_name_def startsWith_def
          dispatch_handler_def handleDelete_def Let_def)
  then show ?thesis
    by (simp add: convert_def document_events_def initial_state_def build_operation_def
          mk_quad_def quadToAlgebraPattern_def)
qed

lemma convert_single_create_id:
  assumes "\<not> illegal_iri_chars iri" and "expandIri ctx iri = Inr expanded"
    and "getTypeIri ctx name = Inr t"
  shows "convert ctx rnd
     [OperationDefinition Mutation
        [Field \<lparr>field_name = ''create'' @ name,
                 arguments = [(''input'', ObjectValue [(''id'', StringValue iri)])]\<rparr>]]
     = Inr (CompositeUpdate
         [DeleteInsert None
            (Some [Pattern (NamedNode expanded) (NamedNode rdf_type) t DefaultGraph])
            None])"
proof -
  let ?node = "\<lparr>field_name = ''create'' @ name,
                 arguments = [(''input'', ObjectValue [(''id'', StringValue iri)])]\<rparr>"
  have h: "handleCreate ctx ?node name [] rnd =
      Inr ([mk_quad (NamedNode expanded) (NamedNode rdf_type) t], rnd)"
    using assms
    by (simp add: handleCreate_def find_named_def create_subject_def create_field_def)
  have "visit_step ctx (EnterField ?node) (initial_state rnd) =
      Inr ((initial_state rnd)\<lparr>operationType := Some Create, entityTypeName := Some name,
          createQuads := [mk_quad (NamedNode expanded) (NamedNode rdf_type) t],
          random := rnd\<rparr>)"
    using h
    by (simp add: initial_state_def identify_operation_def operation_of_name_def startsWith_def
          dispatch_handler_def)
  then show ?thesis
    by (simp add: convert_def document_events_def initial_state_def build_operation_def
          mk_quad_def quadToAlgebraPattern_def)
qed

text \<open>
  Claim C1, as amended. The compiler tests a subject IRI string for four
  characters: the line feed, the carriage return, \<^verbatim>\<open><\<close> and \<^verbatim>\<open>>\<close>. Let \<open>first\<close> be
  the first field that the visitor reaches in a document, after the operation
  definitions \<open>ks\<close>. When \<open>first\<close> is an update or a delete field and its \<^verbatim>\<open>id\<close>
  argument contains one of these characters, the conversion fails with an
  error without a code, and no algebra is returned; the error is the plain
  error "Invalid IRI: contains illegal characters that could cause injection"
  when the operations \<open>ks\<close> are mutations. When \<open>first\<close> is a create field and
  the input object of \<open>first\<close> or of any field \<open>node\<close> visited after it has a
  string \<^verbatim>\<open>id\<close> with one of these characters, the conversion fails with an error
  without a code; the error is the same plain error when the visit reaches
  \<open>node\<close> and the entity type resolves. No other character is tested: a delete
  of one field compiles for every \<^verbatim>\<open>id\<close> without the four characters that
  \<^verbatim>\<open>expandIri\<close> accepts, and so does a create whose entity type resolves.
\<close>

theorem illegal_subject_iri_fails:
  "error_code invalid_iri_error = None \<and>
   (document_events doc = map EnterOperationDefinition ks @ EnterField first # rest \<and>
    c \<in> {CHR 0x0A, CHR 0x0D, CHR ''<'', CHR ''>''} \<and> c \<in> set iriValue \<and>
    operation_of_name (field_name first) = Some (opType, entity) \<longrightarrow>
      (opType \<noteq> Create \<and> find_named ''id'' (arguments first) = Some (n, StringValue iriValue) \<longrightarrow>
         (\<exists>e. convert ctx rnd doc = Inl e \<and> error_code e = None) \<and>
         (list_all (\<lambda>k. k = Mutation) ks \<longrightarrow> convert ctx rnd doc = Inl invalid_iri_error)) \<and>
      (opType = Create \<and> EnterField node \<in> set (EnterField first # rest) \<and>
       find_named ''input'' (arguments node) = Some (n, ObjectValue flds) \<and>
       find_named ''id'' flds = Some (m, StringValue iriValue) \<longrightarrow>
         (\<exists>e. convert ctx rnd doc = Inl e \<and> error_code e = None) \<and>
         (\<forall>before after st t.
            EnterField first # rest = before @ EnterField node # after \<and>
            visit_events ctx (map EnterOperationDefinition ks @ before) (initial_state rnd) = Inr st \<and>
            getTypeIri ctx entity = Inr t
            \<longrightarrow> convert ctx rnd doc = Inl invalid_iri_error))) \<and>
   (set iri \<inter> {CHR 0x0A, CHR 0x0D, CHR ''<'', CHR ''>''} = {} \<and> expandIri ctx iri = Inr expanded \<longrightarrow>
      convert ctx rnd
        [OperationDefinition Mutation
           [Field \<lparr>field_name = ''delete'' @ name, arguments = [(''id'', StringValue iri)]\<rparr>]]
        = Inr (CompositeUpdate
            [DeleteInsert
               (Some [Pattern (NamedNode expanded) (Variable ''p_del'') (Variable ''o_del'')
                   DefaultGraph])
               None
               (Some (Bgp [Pattern (NamedNode expanded) (Variable ''p_del'') (Variable ''o_del'')
                   DefaultGraph]))]) \<and>
      (\<forall>t. getTypeIri ctx name = Inr t \<longrightarrow>
         convert ctx rnd
           [OperationDefinition Mutation
              [Field \<lparr>field_name = ''create'' @ name,
                       arguments = [(''input'', ObjectValue [(''id'', StringValue iri)])]\<rparr>]]
           = Inr (CompositeUpdate
               [DeleteInsert None
                  (Some [Pattern (NamedNode expanded) (NamedNode rdf_type) t DefaultGraph])
                  None])))"
proof -
  have code: "error_code invalid_iri_error = None" by (simp add: invalid_iri_error_def)
  have upd: "(\<exists>e. convert ctx rnd doc = Inl e \<and> error_code e = None) \<and>
         (list_all (\<lambda>k. k = Mutation) ks \<longrightarrow> convert ctx rnd doc = Inl invalid_iri_error)"
    if ev: "document_events doc = map EnterOperationDefinition ks @ EnterField first # rest"
      and c: "c \<in> {CHR 0x0A, CHR 0x0D, CHR ''<'', CHR ''>''}" "c \<in> set iriValue"
      and o: "operation_of_name (field_name first) = Some (opType, entity)"
      and t: "opType \<noteq> Create"
      and i: "find_named ''id'' (arguments first) = Some (n, StringValue iriValue)"
  proof -
    have bad: "illegal_iri_chars iriValue" using c by (rule illegal_iri_charsI)
    with i have "subject_of_id_argument ctx opType first = Inl invalid_iri_error"
      by (simp add: subject_of_id_argument_def)
    then have s: "visit_step ctx (EnterField first) (initial_state rnd) = Inl invalid_iri_error"
      by (rule first_field_update_or_delete [OF o t])
    have dec: "EnterField first # rest = [] @ EnterField first # rest" by simp
    have 1: "\<exists>e. convert ctx rnd doc = Inl e \<and> error_code e = None"
      by (rule convert_field_fails [OF ev dec]) (use s in auto)
    have 2: "convert ctx rnd doc = Inl invalid_iri_error" if "list_all (\<lambda>k. k = Mutation) ks"
    proof -
      from that have "visit_events ctx (map EnterOperationDefinition ks @ []) (initial_state rnd)
          = Inr (initial_state rnd)"
        by (simp only: visit_operation_definitions) simp
      from convert_field_fails_with [OF ev dec this s] show ?thesis .
    qed
    from 1 2 show ?thesis by blast
  qed
  have cre: "(\<exists>e. convert ctx rnd doc = Inl e \<and> error_code e = None) \<and>
         (\<forall>before after st t.
            EnterField first # rest = before @ EnterField node # after \<and>
            visit_events ctx (map EnterOperationDefinition ks @ before) (initial_state rnd) = Inr st \<and>
            getTypeIri ctx entity = Inr t
            \<longrightarrow> convert ctx rnd doc = Inl invalid_iri_error)"
    if ev: "document_events doc = map EnterOperationDefinition ks @ EnterField first # rest"
      and c: "c \<in> {CHR 0x0A, CHR 0x0D, CHR ''<'', CHR ''>''}" "c \<in> set iriValue"
      and o: "operation_of_name (field_name first) = Some (Create, entity)"
      and mem: "EnterField node \<in> set (EnterField first # rest)"
      and i: "find_named ''input'' (arguments node) = Some (n, ObjectValue flds)"
      and f: "find_named ''id'' flds = Some (m, StringValue iriValue)"
  proof -
    have bad: "illegal_iri_chars iriValue" using c by (rule illegal_iri_charsI)
    note h = handleCreate_illegal_id [OF i f bad]
    have hf: "\<exists>e. handleCreate ctx node entity quads r = Inl e" for quads r
      unfolding h by (cases "getTypeIri ctx entity") auto
    from mem have "\<exists>before after. EnterField first # rest = before @ EnterField node # after"
      by (rule split_list)
    then obtain before after
      where dec: "EnterField first # rest = before @ EnterField node # after"
      by blast
    have 1: "\<exists>e. convert ctx rnd doc = Inl e \<and> error_code e = None"
    proof (rule convert_field_fails [OF ev dec])
      fix st
      assume v: "visit_events ctx before (initial_state rnd) = Inr st"
      from state_before_field [OF dec v o]
      have s: "(node = first \<and> st = initial_state rnd) \<or>
        (operationType st = Some Create \<and> entityTypeName st = Some entity)"
        by auto
      from hf obtain e where "handleCreate ctx node entity (createQuads st) (random st) = Inl e"
        by blast
      from create_step_fails [OF s o this]
      show "\<exists>e. visit_step ctx (EnterField node) st = Inl e" by blast
    qed
    have 2: "convert ctx rnd doc = Inl invalid_iri_error"
      if d: "EnterField first # rest = before @ EnterField node # after"
        and v: "visit_events ctx (map EnterOperationDefinition ks @ before) (initial_state rnd) = Inr st"
        and ty: "getTypeIri ctx entity = Inr t"
      for before after st t
    proof -
      from visited_prefix [OF v]
      have v': "visit_events ctx before (initial_state rnd) = Inr st" by simp
      from state_before_field [OF d v' o]
      have s: "(node = first \<and> st = initial_state rnd) \<or>
        (operationType st = Some Create \<and> entityTypeName st = Some entity)"
        by auto
      have "handleCreate ctx node entity (createQuads st) (random st) = Inl invalid_iri_error"
        unfolding h by (simp add: ty)
      from create_step_fails [OF s o this]
      show ?thesis by (rule convert_field_fails_with [OF ev d v])
    qed
    from 1 2 show ?thesis by blast
  qed
  have other: "convert ctx rnd
        [OperationDefinition Mutation
           [Field \<lparr>field_name = ''delete'' @ name, arguments = [(''id'', StringValue iri)]\<rparr>]]
        = Inr (CompositeUpdate
            [DeleteInsert
               (Some [Pattern (NamedNode expanded) (Variable ''p_del'') (Variable ''o_del'')
                   DefaultGraph])
               None
               (Some (Bgp [Pattern (NamedNode expanded) (Variable ''p_del'') (Variable ''o_del'')
                   DefaultGraph]))]) \<and>
      (\<forall>t. getTypeIri ctx name = Inr t \<longrightarrow>
         convert ctx rnd
           [OperationDefinition Mutation
              [Field \<lparr>field_name = ''create'' @ name,
                       arguments = [(''input'', ObjectValue [(''id'', StringValue iri)])]\<rparr>]]
           = Inr (CompositeUpdate
               [DeleteInsert None
                  (Some [Pattern (NamedNode expanded) (NamedNode rdf_type) t DefaultGraph])
                  None]))"
    if l: "set iri \<inter> {CHR 0x0A, CHR 0x0D, CHR ''<'', CHR ''>''} = {}"
      and e: "expandIri ctx iri = Inr expanded"
  proof -
    from l have ok: "\<not> illegal_iri_chars iri" by (rule legal_iri_chars)
    from convert_single_delete [OF ok e] convert_single_create_id [OF ok e]
    show ?thesis by blast
  qed
  from code upd cre other show ?thesis by blast
qed

theorem illegal_subject_iri_fails_witness:
  "convert Map.empty []
     [OperationDefinition Mutation
        [Field \<lparr>field_name = ''deleteUser'',
                 arguments = [(''id'', StringValue ''ex:user1>'')]\<rparr>]]
     = Inl invalid_iri_error \<and>
   convert [''User'' \<mapsto> Prim (JStr ''http://example.org/User'')] []
     [OperationDefinition Mutation
        [Field \<lparr>field_name = ''createUser'',
                 arguments = [(''input'', ObjectValue [(''id'', StringValue ''ex:user1'')])]\<rparr>,
         Field \<lparr>field_name = ''createUser'',
                 arguments = [(''input'', ObjectValue [(''id'', StringValue ''ex:user2>'')])]\<rparr>]]
     = Inl invalid_iri_error \<and>
   convert Map.empty []
     [OperationDefinition Mutation
        [Field \<lparr>field_name = ''delete'' @ ''User'',
                 arguments = [(''id'', StringValue ''ex:user 1|x'')]\<rparr>]]
     = Inr (CompositeUpdate
         [DeleteInsert
            (Some [Pattern (NamedNode ''ex:user 1|x'') (Variable ''p_del'') (Variable ''o_del'')
                DefaultGraph])
            None
            (Some (Bgp [Pattern (NamedNode ''ex:user 1|x'') (Variable ''p_del'') (Variable ''o_del'')
                DefaultGraph]))])"
proof -
  let ?ctx = "[''User'' \<mapsto> Prim (JStr ''http://example.org/User'')]"
  let ?dnode = "\<lparr>field_name = ''deleteUser'', arguments = [(''id'', StringValue ''ex:user1>'')]\<rparr>"
  let ?first = "\<lparr>field_name = ''createUser'',
                  arguments = [(''input'', ObjectValue [(''id'', StringValue ''ex:user1'')])]\<rparr>"
  let ?flds = "[(''id'', StringValue ''ex:user2>'')]"
  let ?cnode = "\<lparr>field_name = ''createUser'', arguments = [(''input'', ObjectValue ?flds)]\<rparr>"
  let ?st = "\<lparr> operationType = Some Create, entityTypeName = Some ''User'',
       subjectHint = None,
       createQuads = [mk_quad (NamedNode ''ex:user1'') (NamedNode rdf_type)
                        (NamedNode ''http://example.org/User'')],
       updateArrays = \<lparr>insertQuads = [], deleteQuads = [], wherePatterns = []\<rparr>,
       deleteQuadsV = [], deleteWherePatterns = [], random = [] \<rparr>"
  have c1: "CHR ''>'' \<in> {CHR 0x0A, CHR 0x0D, CHR ''<'', CHR ''>''}" by simp
  have c2: "CHR ''>'' \<in> set ''ex:user1>''" by simp
  have c3: "CHR ''>'' \<in> set ''ex:user2>''" by simp
  have dev: "document_events [OperationDefinition Mutation [Field ?dnode]]
               = map EnterOperationDefinition [Mutation] @ EnterField ?dnode # []"
    by (simp add: document_events_def)
  have dop: "operation_of_name (field_name ?dnode) = Some (Delete, ''User'')"
    by (simp add: operation_of_name_def startsWith_def)
  have did: "find_named ''id'' (arguments ?dnode) = Some (''id'', StringValue ''ex:user1>'')"
    by (simp add: find_named_def)
  have mut: "list_all (\<lambda>k. k = Mutation) [Mutation]" by simp
  from illegal_subject_iri_fails [where doc = "[OperationDefinition Mutation [Field ?dnode]]"
      and ks = "[Mutation]" and first = ?dnode and rest = "[]" and c = "CHR ''>''"
      and iriValue = "''ex:user1>''" and opType = Delete and entity = "''User''"
      and n = "''id''" and ctx = Map.empty and rnd = "[]"]
    dev c1 c2 dop did mut
  have d: "convert Map.empty [] [OperationDefinition Mutation [Field ?dnode]] = Inl invalid_iri_error"
    by blast
  have cev: "document_events [OperationDefinition Mutation [Field ?first, Field ?cnode]]
               = map EnterOperationDefinition [Mutation] @ EnterField ?first # [EnterField ?cnode]"
    by (simp add: document_events_def)
  have cop: "operation_of_name (field_name ?first) = Some (Create, ''User'')"
    by (simp add: operation_of_name_def startsWith_def)
  have mem: "EnterField ?cnode \<in> set (EnterField ?first # [EnterField ?cnode])" by simp
  have cin: "find_named ''input'' (arguments ?cnode) = Some (''input'', ObjectValue ?flds)"
    by (simp add: find_named_def)
  have cid: "find_named ''id'' ?flds = Some (''id'', StringValue ''ex:user2>'')"
    by (simp add: find_named_def)
  have dec: "EnterField ?first # [EnterField ?cnode] = [EnterField ?first] @ EnterField ?cnode # []"
    by simp
  have ty: "getTypeIri ?ctx ''User'' = Inr (NamedNode ''http://example.org/User'')"
    by (simp add: getTypeIri_def)
  have vis: "visit_events ?ctx (map EnterOperationDefinition [Mutation] @ [EnterField ?first])
      (initial_state []) = Inr ?st"
    by (simp add: initial_state_def identify_operation_def operation_of_name_def startsWith_def
          dispatch_handler_def handleCreate_def find_named_def create_subject_def
          illegal_iri_chars_def includesChar_def expandIri_def create_field_def getTypeIri_def)
  have tt: "Create = Create" by simp
  from illegal_subject_iri_fails
      [where doc = "[OperationDefinition Mutation [Field ?first, Field ?cnode]]"
      and ks = "[Mutation]" and first = ?first and rest = "[EnterField ?cnode]"
      and c = "CHR ''>''" and iriValue = "''ex:user2>''" and opType = Create
      and entity = "''User''" and node = ?cnode and n = "''input''" and flds = ?flds
      and m = "''id''" and ctx = ?ctx and rnd = "[]"]
    cev c1 c3 cop tt mem cin cid dec vis ty
  have c: "convert ?ctx [] [OperationDefinition Mutation [Field ?first, Field ?cnode]]
      = Inl invalid_iri_error"
    by blast
  have l: "set ''ex:user 1|x'' \<inter> {CHR 0x0A, CHR 0x0D, CHR ''<'', CHR ''>''} = {}" by simp
  have x: "expandIri Map.empty ''ex:user 1|x'' = Inr ''ex:user 1|x''"
    by (simp add: expandIri_def startsWith_def)
  from illegal_subject_iri_fails [where iri = "''ex:user 1|x''" and ctx = Map.empty
      and expanded = "''ex:user 1|x''" and rnd = "[]" and name = "''User''"] l x
  have o: "convert Map.empty []
     [OperationDefinition Mutation
        [Field \<lparr>field_name = ''delete'' @ ''User'',
                 arguments = [(''id'', StringValue ''ex:user 1|x'')]\<rparr>]]
     = Inr (CompositeUpdate
         [DeleteInsert
            (Some [Pattern (NamedNode ''ex:user 1|x'') (Variable ''p_del'') (Variable ''o_del'')
                DefaultGraph])
            None
            (Some (Bgp [Pattern (NamedNode ''ex:user 1|x'') (Variable ''p_del'') (Variable ''o_del'')
                DefaultGraph]))])"
    by blast
  from d c o show ?thesis by blast
qed

text \<open>
  The claim as stated fails for the other characters of the disallowed set:
  a subject IRI with a space (U+0020) compiles. It also fails for the \<^verbatim>\<open>id\<close>
  argument of a field after the first one: that argument is never read, and a
  second delete field whose \<^verbatim>\<open>id\<close> contains \<^verbatim>\<open>>\<close> compiles, to a second pattern
  with the subject of the first field.
\<close>

theorem subject_iri_unchecked_counterexample:
  "CHR '' '' \<in> set ''a b'' \<and>
   convert Map.empty []
     [OperationDefinition Mutation
        [Field \<lparr>field_name = ''deleteUser'', arguments = [(''id'', StringValue ''a b'')]\<rparr>]]
     = Inr (CompositeUpdate
         [DeleteInsert
            (Some [Pattern (NamedNode ''a b'') (Variable ''p_del'') (Variable ''o_del'') DefaultGraph])
            None
            (Some (Bgp [Pattern (NamedNode ''a b'') (Variable ''p_del'') (Variable ''o_del'')
                DefaultGraph]))]) \<and>
   CHR ''>'' \<in> set ''a>b'' \<and>
   convert Map.empty []
     [OperationDefinition Mutation
        [Field \<lparr>field_name = ''deleteUser'',
                 arguments = [(''id'', StringValue ''http://example.org/ok'')]\<rparr>,
         Field \<lparr>field_name = ''deleteUser'', arguments = [(''id'', StringValue ''a>b'')]\<rparr>]]
     = Inr (CompositeUpdate
         [DeleteInsert
            (Some [Pattern (NamedNode ''http://example.org/ok'') (Variable ''p_del'')
                     (Variable ''o_del'') DefaultGraph,
                   Pattern (NamedNode ''http://example.org/ok'') (Variable ''p_del'')
                     (Variable ''o_del'') DefaultGraph])
            None
            (Some (Bgp [Pattern (NamedNode ''http://example.org/ok'') (Variable ''p_del'')
                          (Variable ''o_del'') DefaultGraph,
                        Pattern (NamedNode ''http://example.org/ok'') (Variable ''p_del'')
                          (Variable ''o_del'') DefaultGraph]))])"
  by (simp add: convert_def document_events_def initial_state_def identify_operation_def
        operation_of_name_def startsWith_def subject_of_id_argument_def find_named_def
        illegal_iri_chars_def includesChar_def expandIri_def dispatch_handler_def
        handleDelete_def build_operation_def mk_quad_def quadToAlgebraPattern_def Let_def)

subsection \<open>Variables of the produced DeleteInsert\<close>

lemma getPredicateIri_ground: "getPredicateIri ctx f = Inr p \<Longrightarrow> term_vars p = {}"
  by (auto simp: getPredicateIri_def split: option.splits)

lemma getTypeIri_ground: "getTypeIri ctx n = Inr t \<Longrightarrow> term_vars t = {}"
  by (auto simp: getTypeIri_def Let_def split: option.splits ctx_entry.splits jv.splits)

lemma parseValueNode_ground: "parseValueNode v = Inr l \<Longrightarrow> term_vars l = {}"
  by (cases v) auto

lemma getInversePredicateIri_ground: "getInversePredicateIri ctx r = Some q \<Longrightarrow> term_vars q = {}"
  by (auto simp: getInversePredicateIri_def split: option.splits sum.splits
      dest: getPredicateIri_ground)

lemma create_subject_ground: "create_subject ctx flds rnd = Inr (s, rnd1) \<Longrightarrow> term_vars s = {}"
  by (auto simp: create_subject_def
      split: option.splits prod.splits value_node.splits if_splits sum.splits)

lemma create_field_cases:
  assumes "create_field ctx s field quads = Inr quads1"
  obtains (skip) "fst field = ''id''" and "quads1 = quads"
    | (literal) p l where "fst field \<noteq> ''id''" and "getPredicateIri ctx (fst field) = Inr p"
        and "\<not> ((endsWith (fst field) ''Id'' \<or> isRelationshipField ctx (fst field)) \<and>
               is_string_value (snd field))"
        and "parseValueNode (snd field) = Inr l" and "quads1 = quads @ [mk_quad s p l]"
    | (relation) p r iri where "fst field \<noteq> ''id''"
        and "(endsWith (fst field) ''Id'' \<or> isRelationshipField ctx (fst field)) \<and>
               is_string_value (snd field)"
        and "getPredicateIri ctx
               (relationship_name (fst field)) = Inr r"
        and "expandIri ctx (string_value (snd field)) = Inr iri"
        and "quads1 = quads @ [mk_quad s r (NamedNode iri)] @
               (case getInversePredicateIri ctx
                       (relationship_name (fst field)) of
                  Some q \<Rightarrow> [mk_quad (NamedNode iri) q s] | None \<Rightarrow> [])"
        and "getPredicateIri ctx (fst field) = Inr p"
proof (cases "fst field = ''id''")
  case True
  with assms have "quads1 = quads" by (simp add: create_field_def)
  with True show thesis by (rule skip)
next
  case False
  with assms obtain p where p: "getPredicateIri ctx (fst field) = Inr p"
    by (auto simp: create_field_def Let_def split: sum.splits)
  show thesis
  proof (cases "(endsWith (fst field) ''Id'' \<or> isRelationshipField ctx (fst field)) \<and>
               is_string_value (snd field)")
    case rel: True
    let ?r = "relationship_name (fst field)"
    from assms False p rel obtain r where r: "getPredicateIri ctx ?r = Inr r"
      by (simp add: create_field_def Let_def split: sum.splits)
    from assms False p rel r obtain iri where i: "expandIri ctx (string_value (snd field)) = Inr iri"
      by (simp add: create_field_def Let_def split: sum.splits)
    from assms False p rel r i
    have "quads1 = quads @ [mk_quad s r (NamedNode iri)] @
               (case getInversePredicateIri ctx ?r of
                  Some q \<Rightarrow> [mk_quad (NamedNode iri) q s] | None \<Rightarrow> [])"
      by (simp add: create_field_def Let_def split: option.splits)
    with False rel r i show thesis using p by (rule relation)
  next
    case lit: False
    from assms False p lit obtain l where l: "parseValueNode (snd field) = Inr l"
      by (simp add: create_field_def Let_def split: sum.splits)
    from assms False p lit l have "quads1 = quads @ [mk_quad s p l]"
      by (simp add: create_field_def Let_def)
    with False p lit l show thesis by (rule literal)
  qed
qed

lemma create_field_ground:
  assumes "create_field ctx s field quads = Inr quads1" and "term_vars s = {}"
    and "list_all (\<lambda>q. quad_vars q = {}) quads"
  shows "list_all (\<lambda>q. quad_vars q = {}) quads1"
  using assms(1)
proof (cases rule: create_field_cases)
  case skip
  with assms(3) show ?thesis by simp
next
  case (literal p l)
  from literal(2) have "term_vars p = {}" by (rule getPredicateIri_ground)
  moreover from literal(4) have "term_vars l = {}" by (rule parseValueNode_ground)
  ultimately show ?thesis
    using assms(2,3) literal(5) by (simp add: quad_vars_def mk_quad_def)
next
  case (relation p r iri)
  from relation(3) have r: "term_vars r = {}" by (rule getPredicateIri_ground)
  have "list_all (\<lambda>q. quad_vars q = {})
          (case getInversePredicateIri ctx
                  (relationship_name (fst field)) of
             Some q \<Rightarrow> [mk_quad (NamedNode iri) q s] | None \<Rightarrow> [])"
    using assms(2)
    by (auto simp: quad_vars_def mk_quad_def split: option.splits
        dest: getInversePredicateIri_ground)
  with r show ?thesis
    using assms(2,3) relation(5) by (simp add: quad_vars_def mk_quad_def)
qed

lemma create_fields_ground:
  assumes "create_fields ctx s flds quads = Inr quads1" and "term_vars s = {}"
    and "list_all (\<lambda>q. quad_vars q = {}) quads"
  shows "list_all (\<lambda>q. quad_vars q = {}) quads1"
  using assms
proof (induction flds arbitrary: quads)
  case Nil
  then show ?case by simp
next
  case (Cons field flds)
  from Cons.prems(1) obtain q1 where 1: "create_field ctx s field quads = Inr q1"
    and 2: "create_fields ctx s flds q1 = Inr quads1"
    by (auto split: sum.splits)
  from create_field_ground [OF 1 Cons.prems(2,3)] Cons.IH [OF 2 Cons.prems(2)]
  show ?case by simp
qed

lemma handleCreate_ground:
  assumes "handleCreate ctx node entity quads rnd = Inr (quads1, rnd1)"
    and "list_all (\<lambda>q. quad_vars q = {}) quads"
  shows "list_all (\<lambda>q. quad_vars q = {}) quads1"
proof -
  from assms(1) obtain n flds t s where
    t: "getTypeIri ctx entity = Inr t" and s: "create_subject ctx flds rnd = Inr (s, rnd1)"
    and f: "create_fields ctx s flds (quads @ [mk_quad s (NamedNode rdf_type) t]) = Inr quads1"
    unfolding handleCreate_def
    by (auto split: option.splits prod.splits value_node.splits sum.splits)
  have g: "term_vars s = {}" by (rule create_subject_ground [OF s])
  have "list_all (\<lambda>q. quad_vars q = {}) (quads @ [mk_quad s (NamedNode rdf_type) t])"
    using assms(2) g getTypeIri_ground [OF t] by (simp add: quad_vars_def mk_quad_def)
  from create_fields_ground [OF f g this] show ?thesis .
qed

lemma update_field_result:
  assumes "update_field ctx s field arrs = Inr arrs1"
  obtains p l where "fst field \<noteq> ''id''" and "getPredicateIri ctx (fst field) = Inr p"
    and "parseValueNode (snd field) = Inr l"
    and "arrs1 = \<lparr> insertQuads = insertQuads arrs @ [mk_quad s p l],
           deleteQuads = deleteQuads arrs @ [mk_quad s p (Variable (''old_'' @ fst field))],
           wherePatterns = wherePatterns arrs @
             [quadToAlgebraPattern (mk_quad s p (Variable (''old_'' @ fst field)))] \<rparr>"
proof -
  from assms have n: "fst field \<noteq> ''id''"
    by (auto simp: update_field_def Let_def split: if_splits)
  with assms obtain p where p: "getPredicateIri ctx (fst field) = Inr p"
    by (auto simp: update_field_def Let_def split: sum.splits)
  with assms n obtain l where l: "parseValueNode (snd field) = Inr l"
    by (auto simp: update_field_def Let_def split: sum.splits)
  from assms n p l have "arrs1 = \<lparr> insertQuads = insertQuads arrs @ [mk_quad s p l],
           deleteQuads = deleteQuads arrs @ [mk_quad s p (Variable (''old_'' @ fst field))],
           wherePatterns = wherePatterns arrs @
             [quadToAlgebraPattern (mk_quad s p (Variable (''old_'' @ fst field)))] \<rparr>"
    by (simp add: update_field_def Let_def)
  with n p l show thesis by (rule that)
qed

lemma update_field_wf:
  assumes "update_field ctx s field arrs = Inr arrs1" and "term_vars s = {}" and "arrays_wf arrs"
  shows "arrays_wf arrs1"
proof -
  from assms(1) obtain p l where p: "getPredicateIri ctx (fst field) = Inr p"
    and l: "parseValueNode (snd field) = Inr l"
    and a: "arrs1 = \<lparr> insertQuads = insertQuads arrs @ [mk_quad s p l],
           deleteQuads = deleteQuads arrs @ [mk_quad s p (Variable (''old_'' @ fst field))],
           wherePatterns = wherePatterns arrs @
             [quadToAlgebraPattern (mk_quad s p (Variable (''old_'' @ fst field)))] \<rparr>"
    by (rule update_field_result)
  from p have "term_vars p = {}" by (rule getPredicateIri_ground)
  moreover from l have "term_vars l = {}" by (rule parseValueNode_ground)
  ultimately show ?thesis
    using assms(2,3) a by (simp add: arrays_wf_def quad_vars_def mk_quad_def)
qed

lemma update_fields_wf:
  assumes "update_fields ctx s flds arrs = Inr arrs1" and "term_vars s = {}" and "arrays_wf arrs"
  shows "arrays_wf arrs1"
  using assms
proof (induction flds arbitrary: arrs)
  case Nil
  then show ?case by simp
next
  case (Cons field flds)
  from Cons.prems(1) obtain a1 where 1: "update_field ctx s field arrs = Inr a1"
    and 2: "update_fields ctx s flds a1 = Inr arrs1"
    by (auto split: sum.splits)
  from update_field_wf [OF 1 Cons.prems(2,3)] Cons.IH [OF 2 Cons.prems(2)]
  show ?case by simp
qed

lemma handleUpdate_wf:
  assumes "handleUpdate ctx node s entity arrs = Inr arrs1" and "term_vars s = {}"
    and "arrays_wf arrs"
  shows "arrays_wf arrs1 \<and> insertQuads arrs1 \<noteq> []"
  using assms unfolding handleUpdate_def
  by (auto split: option.splits prod.splits value_node.splits sum.splits if_splits
      dest: update_fields_wf)

lemma subject_of_id_argument_ground:
  "subject_of_id_argument ctx opType node = Inr s \<Longrightarrow> term_vars s = {}"
  unfolding subject_of_id_argument_def
  by (auto split: option.splits prod.splits value_node.splits sum.splits if_splits)

lemma identify_operation_wf:
  assumes "identify_operation ctx node st = Inr st1" and "state_wf st"
  shows "state_wf st1"
  using assms unfolding identify_operation_def state_wf_def
  by (auto split: option.splits prod.splits sum.splits if_splits
      dest: subject_of_id_argument_ground)

lemma dispatch_handler_wf:
  assumes "dispatch_handler ctx node st = Inr st1" and "state_wf st"
  shows "state_wf st1"
proof (cases "operationType st")
  case None
  with assms show ?thesis by (simp add: dispatch_handler_def)
next
  case (Some opType)
  show ?thesis
  proof (cases "entityTypeName st")
    case None
    with Some assms show ?thesis
      by (cases opType) (simp_all add: dispatch_handler_def)
  next
    case ent: (Some entity)
    show ?thesis
    proof (cases opType)
      case Create
      with Some ent assms(1) obtain quads rnd1 where
        h: "handleCreate ctx node entity (createQuads st) (random st) = Inr (quads, rnd1)"
        and s: "st1 = st\<lparr>createQuads := quads, random := rnd1\<rparr>"
        by (auto simp: dispatch_handler_def split: sum.splits prod.splits)
      from assms(2) have "list_all (\<lambda>q. quad_vars q = {}) (createQuads st)"
        by (simp add: state_wf_def)
      from handleCreate_ground [OF h this] assms(2) s show ?thesis
        by (simp add: state_wf_def)
    next
      case Update
      show ?thesis
      proof (cases "subjectHint st")
        case None
        with Some ent Update assms show ?thesis by (simp add: dispatch_handler_def)
      next
        case sub: (Some subj)
        with Some ent Update assms(1) obtain arrs where
          h: "handleUpdate ctx node subj entity (updateArrays st) = Inr arrs"
          and s: "st1 = st\<lparr>updateArrays := arrs\<rparr>"
          by (auto simp: dispatch_handler_def split: sum.splits)
        from assms(2) sub have "term_vars subj = {}" and "arrays_wf (updateArrays st)"
          by (simp_all add: state_wf_def)
        from handleUpdate_wf [OF h this] assms(2) s show ?thesis
          by (simp add: state_wf_def)
      qed
    next
      case Delete
      show ?thesis
      proof (cases "subjectHint st")
        case None
        with Some ent Delete assms show ?thesis by (simp add: dispatch_handler_def)
      next
        case sub: (Some subj)
        with Some ent Delete assms show ?thesis
          by (auto simp: dispatch_handler_def handleDelete_def Let_def state_wf_def)
      qed
    qed
  qed
qed

lemma visit_step_wf:
  assumes "visit_step ctx ev st = Inr st1" and "state_wf st"
  shows "state_wf st1"
proof (cases ev)
  case (EnterOperationDefinition k)
  with assms show ?thesis by (auto split: if_splits)
next
  case (EnterField node)
  with assms(1) obtain st0 where
    i: "(if operationType st = None then identify_operation ctx node st else Inr st) = Inr st0"
    and d: "dispatch_handler ctx node st0 = Inr st1"
    by (auto split: sum.splits)
  from i assms(2) have "state_wf st0"
    by (auto split: if_splits dest: identify_operation_wf)
  with d show ?thesis by (rule dispatch_handler_wf)
qed

lemma visit_events_wf:
  assumes "visit_events ctx evs st = Inr st1" and "state_wf st"
  shows "state_wf st1"
  using assms
  by (induction evs arbitrary: st) (auto split: sum.splits dest: visit_step_wf)

lemma initial_state_wf: "state_wf (initial_state rnd)"
  by (simp add: state_wf_def initial_state_def arrays_wf_def)

lemma pattern_vars_of_quad: "pattern_vars (quadToAlgebraPattern q) = quad_vars q"
  by (simp add: quad_vars_def pattern_vars_def quadToAlgebraPattern_def)

lemma ground_quads_patterns:
  assumes "list_all (\<lambda>q. quad_vars q = {}) qs"
  shows "patterns_vars (Some (map quadToAlgebraPattern qs)) = {}"
proof -
  have "patterns_vars (Some (map quadToAlgebraPattern qs)) = \<Union> (quad_vars ` set qs)"
    by (simp add: pattern_vars_of_quad)
  also from assms have "\<dots> = {}"
    by (simp add: list_all_iff)
  finally show ?thesis .
qed

lemma build_operation_cases:
  assumes "build_operation st = Inr result"
  obtains (create) "operationType st = Some Create" and "createQuads st \<noteq> []"
      and "result = CompositeUpdate
         [DeleteInsert None (Some (map quadToAlgebraPattern (createQuads st))) None]"
    | (update) "operationType st = Some Update"
      and "insertQuads (updateArrays st) \<noteq> [] \<or> deleteQuads (updateArrays st) \<noteq> []"
      and "result = CompositeUpdate
          [DeleteInsert
             (if deleteQuads (updateArrays st) \<noteq> []
              then Some (map quadToAlgebraPattern (deleteQuads (updateArrays st))) else None)
             (if insertQuads (updateArrays st) \<noteq> []
              then Some (map quadToAlgebraPattern (insertQuads (updateArrays st))) else None)
             (Some (Bgp (wherePatterns (updateArrays st))))]"
    | (delete) "operationType st = Some Delete" and "deleteQuadsV st \<noteq> []"
      and "result = CompositeUpdate
          [DeleteInsert (Some (map quadToAlgebraPattern (deleteQuadsV st))) None
             (Some (Bgp (deleteWherePatterns st)))]"
proof (cases "operationType st")
  case None
  with assms show thesis by (simp add: build_operation_def)
next
  case (Some opType)
  show thesis
  proof (cases opType)
    case Create
    with Some have o: "operationType st = Some Create" by simp
    with assms have "createQuads st \<noteq> [] \<and> result = CompositeUpdate
         [DeleteInsert None (Some (map quadToAlgebraPattern (createQuads st))) None]"
      by (simp add: build_operation_def split: if_splits)
    with o show thesis using create by blast
  next
    case Update
    with Some have o: "operationType st = Some Update" by simp
    with assms have "(insertQuads (updateArrays st) \<noteq> [] \<or> deleteQuads (updateArrays st) \<noteq> [])
      \<and> result = CompositeUpdate
          [DeleteInsert
             (if deleteQuads (updateArrays st) \<noteq> []
              then Some (map quadToAlgebraPattern (deleteQuads (updateArrays st))) else None)
             (if insertQuads (updateArrays st) \<noteq> []
              then Some (map quadToAlgebraPattern (insertQuads (updateArrays st))) else None)
             (Some (Bgp (wherePatterns (updateArrays st))))]"
      by (simp add: build_operation_def split: if_splits)
    with o show thesis using update by blast
  next
    case Delete
    with Some have o: "operationType st = Some Delete" by simp
    with assms have "deleteQuadsV st \<noteq> [] \<and> result = CompositeUpdate
          [DeleteInsert (Some (map quadToAlgebraPattern (deleteQuadsV st))) None
             (Some (Bgp (deleteWherePatterns st)))]"
      by (simp add: build_operation_def split: if_splits)
    with o show thesis using delete by blast
  qed
qed

lemma build_operation_vars:
  assumes "build_operation st = Inr result" and "state_wf st"
  shows "\<exists>d i w. result = CompositeUpdate [DeleteInsert d i w] \<and>
           patterns_vars d \<union> patterns_vars i \<subseteq> where_vars w"
  using assms(1)
proof (cases rule: build_operation_cases)
  case create
  from assms(2) have "list_all (\<lambda>q. quad_vars q = {}) (createQuads st)"
    by (simp add: state_wf_def)
  then have "patterns_vars (Some (map quadToAlgebraPattern (createQuads st))) = {}"
    by (rule ground_quads_patterns)
  with create(3) show ?thesis by simp
next
  case update
  from assms(2) have "list_all (\<lambda>q. quad_vars q = {}) (insertQuads (updateArrays st))"
    by (simp add: state_wf_def arrays_wf_def)
  then have "patterns_vars (Some (map quadToAlgebraPattern (insertQuads (updateArrays st)))) = {}"
    by (rule ground_quads_patterns)
  then have i: "patterns_vars (if insertQuads (updateArrays st) \<noteq> []
              then Some (map quadToAlgebraPattern (insertQuads (updateArrays st))) else None) = {}"
    by simp
  from assms(2) have "map quadToAlgebraPattern (deleteQuads (updateArrays st))
      = wherePatterns (updateArrays st)"
    by (simp add: state_wf_def arrays_wf_def)
  then have "patterns_vars (Some (map quadToAlgebraPattern (deleteQuads (updateArrays st))))
      = where_vars (Some (Bgp (wherePatterns (updateArrays st))))"
    by simp
  then have d: "patterns_vars (if deleteQuads (updateArrays st) \<noteq> []
              then Some (map quadToAlgebraPattern (deleteQuads (updateArrays st))) else None)
            \<subseteq> where_vars (Some (Bgp (wherePatterns (updateArrays st))))"
    by simp
  from i d have "patterns_vars (if deleteQuads (updateArrays st) \<noteq> []
              then Some (map quadToAlgebraPattern (deleteQuads (updateArrays st))) else None)
          \<union> patterns_vars (if insertQuads (updateArrays st) \<noteq> []
              then Some (map quadToAlgebraPattern (insertQuads (updateArrays st))) else None)
          \<subseteq> where_vars (Some (Bgp (wherePatterns (updateArrays st))))"
    by (simp only: Un_subset_iff) simp
  with update(3) show ?thesis by blast
next
  case delete
  from assms(2) have "map quadToAlgebraPattern (deleteQuadsV st) = deleteWherePatterns st"
    by (simp add: state_wf_def)
  then have "patterns_vars (Some (map quadToAlgebraPattern (deleteQuadsV st)))
      = where_vars (Some (Bgp (deleteWherePatterns st)))"
    by simp
  then have "patterns_vars (Some (map quadToAlgebraPattern (deleteQuadsV st))) \<union> patterns_vars None
      \<subseteq> where_vars (Some (Bgp (deleteWherePatterns st)))"
    by simp
  with delete(3) show ?thesis by blast
qed
lemma update_fields_delete_mono:
  "update_fields ctx s flds arrs = Inr arrs1 \<Longrightarrow> set (deleteQuads arrs) \<subseteq> set (deleteQuads arrs1)"
proof (induction flds arbitrary: arrs)
  case Nil
  then show ?case by simp
next
  case (Cons field flds)
  from Cons.prems obtain a1 where 1: "update_field ctx s field arrs = Inr a1"
    and 2: "update_fields ctx s flds a1 = Inr arrs1"
    by (auto split: sum.splits)
  from 1 have "set (deleteQuads arrs) \<subseteq> set (deleteQuads a1)"
    by (rule update_field_result) auto
  with Cons.IH [OF 2] show ?case by blast
qed

lemma update_fields_delete_member:
  assumes "update_fields ctx s flds arrs = Inr arrs1" and "(f, v) \<in> set flds"
  shows "\<exists>p. getPredicateIri ctx f = Inr p \<and>
           mk_quad s p (Variable (''old_'' @ f)) \<in> set (deleteQuads arrs1)"
  using assms
proof (induction flds arbitrary: arrs)
  case Nil
  then show ?case by simp
next
  case (Cons field flds)
  from Cons.prems(1) obtain a1 where 1: "update_field ctx s field arrs = Inr a1"
    and 2: "update_fields ctx s flds a1 = Inr arrs1"
    by (auto split: sum.splits)
  show ?case
  proof (cases "(f, v) = field")
    case True
    from 1 obtain p where p: "getPredicateIri ctx (fst field) = Inr p"
      and m: "mk_quad s p (Variable (''old_'' @ fst field)) \<in> set (deleteQuads a1)"
      by (rule update_field_result) auto
    from m update_fields_delete_mono [OF 2]
    have "mk_quad s p (Variable (''old_'' @ fst field)) \<in> set (deleteQuads arrs1)" by blast
    with p True show ?thesis by auto
  next
    case False
    with Cons.prems(2) have "(f, v) \<in> set flds" by auto
    from Cons.IH [OF 2 this] show ?thesis .
  qed
qed

lemma handleUpdate_delete_mono:
  "handleUpdate ctx node s entity arrs = Inr arrs1 \<Longrightarrow>
     set (deleteQuads arrs) \<subseteq> set (deleteQuads arrs1)"
  unfolding handleUpdate_def
  by (auto split: option.splits prod.splits value_node.splits sum.splits if_splits
      dest: update_fields_delete_mono)

lemma dispatch_handler_update_mono:
  assumes "dispatch_handler ctx node st = Inr st1" and "operationType st = Some Update"
  shows "operationType st1 = Some Update \<and>
         set (deleteQuads (updateArrays st)) \<subseteq> set (deleteQuads (updateArrays st1))"
proof (cases "entityTypeName st")
  case None
  with assms show ?thesis by (simp add: dispatch_handler_def)
next
  case ent: (Some entity)
  show ?thesis
  proof (cases "subjectHint st")
    case None
    with assms ent show ?thesis by (simp add: dispatch_handler_def)
  next
    case (Some subj)
    with assms ent obtain arrs where
      h: "handleUpdate ctx node subj entity (updateArrays st) = Inr arrs"
      and s: "st1 = st\<lparr>updateArrays := arrs\<rparr>"
      by (auto simp: dispatch_handler_def split: sum.splits)
    from handleUpdate_delete_mono [OF h] s assms(2) show ?thesis by simp
  qed
qed

lemma visit_step_update_mono:
  assumes "visit_step ctx ev st = Inr st1" and "operationType st = Some Update"
  shows "operationType st1 = Some Update \<and>
         set (deleteQuads (updateArrays st)) \<subseteq> set (deleteQuads (updateArrays st1))"
proof (cases ev)
  case (EnterOperationDefinition k)
  with assms show ?thesis by (auto split: if_splits)
next
  case (EnterField node)
  with assms have "dispatch_handler ctx node st = Inr st1" by simp
  then show ?thesis using assms(2) by (rule dispatch_handler_update_mono)
qed

lemma visit_events_update_mono:
  assumes "visit_events ctx evs st = Inr st1" and "operationType st = Some Update"
  shows "operationType st1 = Some Update \<and>
         set (deleteQuads (updateArrays st)) \<subseteq> set (deleteQuads (updateArrays st1))"
  using assms
proof (induction evs arbitrary: st)
  case Nil
  then show ?case by simp
next
  case (Cons ev evs)
  from Cons.prems(1) obtain s1 where 1: "visit_step ctx ev st = Inr s1"
    and 2: "visit_events ctx evs s1 = Inr st1"
    by (auto split: sum.splits)
  from visit_step_update_mono [OF 1 Cons.prems(2)]
  have o: "operationType s1 = Some Update"
    and m: "set (deleteQuads (updateArrays st)) \<subseteq> set (deleteQuads (updateArrays s1))"
    by simp_all
  from Cons.IH [OF 2 o] m show ?case by blast
qed

lemma first_field_update_state:
  assumes "visit_step ctx (EnterField node) (initial_state rnd) = Inr st1"
    and "operation_of_name (field_name node) = Some (Update, entity)"
    and "subject_of_id_argument ctx Update node = Inr subj"
  shows "operationType st1 = Some Update \<and>
         handleUpdate ctx node subj entity \<lparr>insertQuads = [], deleteQuads = [], wherePatterns = []\<rparr>
           = Inr (updateArrays st1)"
  using assms
  by (auto simp: initial_state_def identify_operation_def dispatch_handler_def split: sum.splits)

text \<open>
  Claim C4. For every mutation that compiles, the result is one DeleteInsert
  and every variable of its delete and insert patterns occurs in its where
  clause. In particular, when the mutation is an update (its first field is an
  update field with subject \<open>subj\<close> and input fields \<open>flds\<close>), the delete
  patterns are the patterns of the where clause, and for each input field \<open>f\<close>
  the pattern \<open>subj predicate_iri(f) ?old_f\<close> is among them.
\<close>

theorem delete_insert_variables_in_where:
  assumes "convert ctx rnd doc = Inr result"
  shows "\<exists>d i w. result = CompositeUpdate [DeleteInsert d i w] \<and>
     patterns_vars d \<union> patterns_vars i \<subseteq> where_vars w \<and>
     (\<forall>node rest entity n flds subj.
        document_events doc = EnterOperationDefinition Mutation # EnterField node # rest \<and>
        operation_of_name (field_name node) = Some (Update, entity) \<and>
        find_named ''input'' (arguments node) = Some (n, ObjectValue flds) \<and>
        subject_of_id_argument ctx Update node = Inr subj
        \<longrightarrow> (\<exists>ps. d = Some ps \<and> w = Some (Bgp ps) \<and>
               (\<forall>(f, v) \<in> set flds. \<exists>p. getPredicateIri ctx f = Inr p \<and>
                    Pattern subj p (Variable (''old_'' @ f)) DefaultGraph \<in> set ps)))"
proof -
  from assms obtain st where v: "visit_events ctx (document_events doc) (initial_state rnd) = Inr st"
    and b: "build_operation st = Inr result"
    by (auto simp: convert_def split: sum.splits)
  have wf: "state_wf st"
    by (rule visit_events_wf [OF v initial_state_wf])
  from build_operation_vars [OF b wf] obtain d i w where
    r: "result = CompositeUpdate [DeleteInsert d i w]"
    and vars: "patterns_vars d \<union> patterns_vars i \<subseteq> where_vars w"
    by blast
  have upd: "\<exists>ps. d = Some ps \<and> w = Some (Bgp ps) \<and>
               (\<forall>(f, v) \<in> set flds. \<exists>p. getPredicateIri ctx f = Inr p \<and>
                    Pattern subj p (Variable (''old_'' @ f)) DefaultGraph \<in> set ps)"
    if ev: "document_events doc = EnterOperationDefinition Mutation # EnterField node # rest"
      and op: "operation_of_name (field_name node) = Some (Update, entity)"
      and inp: "find_named ''input'' (arguments node) = Some (n, ObjectValue flds)"
      and sub: "subject_of_id_argument ctx Update node = Inr subj"
    for node rest entity n flds subj
  proof -
    let ?arrs0 = "\<lparr>insertQuads = [], deleteQuads = [], wherePatterns = []\<rparr>"
    from v ev obtain st1 where
      1: "visit_step ctx (EnterField node) (initial_state rnd) = Inr st1"
      and 2: "visit_events ctx rest st1 = Inr st"
      by (auto split: sum.splits)
    from first_field_update_state [OF 1 op sub]
    have o1: "operationType st1 = Some Update"
      and h: "handleUpdate ctx node subj entity ?arrs0 = Inr (updateArrays st1)"
      by simp_all
    from h inp have uf: "update_fields ctx subj flds ?arrs0 = Inr (updateArrays st1)"
      by (auto simp: handleUpdate_def split: sum.splits if_splits)
    from visit_events_update_mono [OF 2 o1]
    have o: "operationType st = Some Update"
      and mono: "set (deleteQuads (updateArrays st1)) \<subseteq> set (deleteQuads (updateArrays st))"
      by simp_all
    from wf have len: "length (insertQuads (updateArrays st)) = length (deleteQuads (updateArrays st))"
      and whr: "map quadToAlgebraPattern (deleteQuads (updateArrays st)) = wherePatterns (updateArrays st)"
      by (simp_all add: state_wf_def arrays_wf_def)
    from b o len have ne: "deleteQuads (updateArrays st) \<noteq> []"
      by (cases rule: build_operation_cases) auto
    from b o ne r have d: "d = Some (map quadToAlgebraPattern (deleteQuads (updateArrays st)))"
      and w: "w = Some (Bgp (wherePatterns (updateArrays st)))"
      by (cases rule: build_operation_cases; simp)+
    have mem: "\<exists>p. getPredicateIri ctx f = Inr p \<and>
        Pattern subj p (Variable (''old_'' @ f)) DefaultGraph
          \<in> set (map quadToAlgebraPattern (deleteQuads (updateArrays st)))"
      if "(f, v) \<in> set flds" for f v
    proof -
      from update_fields_delete_member [OF uf that] obtain p where
        p: "getPredicateIri ctx f = Inr p"
        and m: "mk_quad subj p (Variable (''old_'' @ f)) \<in> set (deleteQuads (updateArrays st1))"
        by blast
      from m mono have "mk_quad subj p (Variable (''old_'' @ f)) \<in> set (deleteQuads (updateArrays st))"
        by blast
      then have "quadToAlgebraPattern (mk_quad subj p (Variable (''old_'' @ f)))
          \<in> set (map quadToAlgebraPattern (deleteQuads (updateArrays st)))"
        by simp
      then show ?thesis using p by (auto simp: quadToAlgebraPattern_def mk_quad_def)
    qed
    from d w whr mem show ?thesis by auto
  qed
  from r vars upd show ?thesis by blast
qed
theorem delete_insert_variables_in_where_witness:
  "convert [''name'' \<mapsto> Prim (JStr ''http://xmlns.com/foaf/0.1/name'')] []
     [OperationDefinition Mutation
        [Field \<lparr>field_name = ''updateUser'',
                 arguments = [(''id'', StringValue ''http://example.org/user1''),
                              (''input'', ObjectValue [(''name'', StringValue ''Alicia'')])]\<rparr>]]
     = Inr (CompositeUpdate
         [DeleteInsert
            (Some [Pattern (NamedNode ''http://example.org/user1'')
                     (NamedNode ''http://xmlns.com/foaf/0.1/name'') (Variable ''old_name'')
                     DefaultGraph])
            (Some [Pattern (NamedNode ''http://example.org/user1'')
                     (NamedNode ''http://xmlns.com/foaf/0.1/name'')
                     (Literal ''Alicia'' ''http://www.w3.org/2001/XMLSchema#string'') DefaultGraph])
            (Some (Bgp [Pattern (NamedNode ''http://example.org/user1'')
                     (NamedNode ''http://xmlns.com/foaf/0.1/name'') (Variable ''old_name'')
                     DefaultGraph]))]) \<and>
   patterns_vars (Some [Pattern (NamedNode ''http://example.org/user1'')
                     (NamedNode ''http://xmlns.com/foaf/0.1/name'') (Variable ''old_name'')
                     DefaultGraph])
     \<union> patterns_vars (Some [Pattern (NamedNode ''http://example.org/user1'')
                     (NamedNode ''http://xmlns.com/foaf/0.1/name'')
                     (Literal ''Alicia'' ''http://www.w3.org/2001/XMLSchema#string'') DefaultGraph])
     \<subseteq> where_vars (Some (Bgp [Pattern (NamedNode ''http://example.org/user1'')
                     (NamedNode ''http://xmlns.com/foaf/0.1/name'') (Variable ''old_name'')
                     DefaultGraph]))"
proof -
  let ?ctx = "[''name'' \<mapsto> Prim (JStr ''http://xmlns.com/foaf/0.1/name'')]"
  let ?doc = "[OperationDefinition Mutation
        [Field \<lparr>field_name = ''updateUser'',
                 arguments = [(''id'', StringValue ''http://example.org/user1''),
                              (''input'', ObjectValue [(''name'', StringValue ''Alicia'')])]\<rparr>]]"
  let ?d = "Some [Pattern (NamedNode ''http://example.org/user1'')
                     (NamedNode ''http://xmlns.com/foaf/0.1/name'') (Variable ''old_name'')
                     DefaultGraph]"
  let ?i = "Some [Pattern (NamedNode ''http://example.org/user1'')
                     (NamedNode ''http://xmlns.com/foaf/0.1/name'')
                     (Literal ''Alicia'' ''http://www.w3.org/2001/XMLSchema#string'') DefaultGraph]"
  let ?w = "Some (Bgp [Pattern (NamedNode ''http://example.org/user1'')
                     (NamedNode ''http://xmlns.com/foaf/0.1/name'') (Variable ''old_name'')
                     DefaultGraph])"
  have conv: "convert ?ctx [] ?doc = Inr (CompositeUpdate [DeleteInsert ?d ?i ?w])"
    by (simp add: convert_def document_events_def initial_state_def identify_operation_def
          operation_of_name_def startsWith_def subject_of_id_argument_def find_named_def
          illegal_iri_chars_def includesChar_def expandIri_def dispatch_handler_def
          handleUpdate_def update_field_def getPredicateIri_def build_operation_def
          mk_quad_def quadToAlgebraPattern_def xsd_string_def Let_def)
  from delete_insert_variables_in_where [OF conv] obtain d i w where
    r: "CompositeUpdate [DeleteInsert ?d ?i ?w] = CompositeUpdate [DeleteInsert d i w]"
    and v: "patterns_vars d \<union> patterns_vars i \<subseteq> where_vars w"
    by blast
  from r have "d = ?d" and "i = ?i" and "w = ?w" by simp_all
  with v have "patterns_vars ?d \<union> patterns_vars ?i \<subseteq> where_vars ?w" by simp
  with conv show ?thesis by (rule conjI)
qed

subsection \<open>Create mutations\<close>

lemma hex_digit_range: "hex_digit v \<in> set ''0123456789abcdef''"
proof -
  have "unat v < 16"
    using unsigned_less [of v, where ?'a = nat] by simp
  then have "unat v < length ''0123456789abcdef''" by simp
  then show ?thesis unfolding hex_digit_def by (rule nth_mem)
qed

lemma replace_xy_length: "length (fst (replace_xy t rnd)) = length t"
proof (induction t arbitrary: rnd)
  case Nil
  then show ?case by simp
next
  case (Cons c cs)
  obtain r rnd1 where d: "draw rnd = (r, rnd1)" by (cases "draw rnd")
  obtain rest1 rnd2 where r1: "replace_xy cs rnd1 = (rest1, rnd2)" by (cases "replace_xy cs rnd1")
  obtain rest rnd3 where r0: "replace_xy cs rnd = (rest, rnd3)" by (cases "replace_xy cs rnd")
  from Cons.IH [of rnd1] r1 have l1: "length rest1 = length cs" by simp
  from Cons.IH [of rnd] r0 have l0: "length rest = length cs" by simp
  show ?case
    by (cases "c = CHR ''x'' \<or> c = CHR ''y''") (simp_all add: d r1 r0 l1 l0 Let_def)
qed

lemma replace_xy_chars_in:
  assumes "\<And>v. hex_digit v \<in> H"
  shows "set (fst (replace_xy t rnd)) \<subseteq> H \<union> (set t - {CHR ''x'', CHR ''y''})"
proof (induction t arbitrary: rnd)
  case Nil
  then show ?case by simp
next
  case (Cons c cs)
  show ?case
  proof (cases "c = CHR ''x'' \<or> c = CHR ''y''")
    case True
    obtain r rnd1 where d: "draw rnd = (r, rnd1)" by (cases "draw rnd")
    obtain rest rnd2 where rest: "replace_xy cs rnd1 = (rest, rnd2)" by (cases "replace_xy cs rnd1")
    let ?v = "if c = CHR ''x'' then r else (r AND 3) OR 8"
    from True d rest have e: "fst (replace_xy (c # cs) rnd) = hex_digit ?v # rest"
      by (simp add: Let_def)
    from Cons.IH [of rnd1] rest
    have "set rest \<subseteq> H \<union> (set cs - {CHR ''x'', CHR ''y''})" by simp
    with assms [of ?v] show ?thesis unfolding e by auto
  next
    case False
    obtain rest rnd2 where rest: "replace_xy cs rnd = (rest, rnd2)" by (cases "replace_xy cs rnd")
    from False rest have e: "fst (replace_xy (c # cs) rnd) = c # rest"
      by (simp add: Let_def)
    from Cons.IH [of rnd] rest
    have "set rest \<subseteq> H \<union> (set cs - {CHR ''x'', CHR ''y''})" by simp
    with False show ?thesis unfolding e by auto
  qed
qed

lemma replace_xy_chars:
  "set (fst (replace_xy t rnd)) \<subseteq> set ''0123456789abcdef'' \<union> (set t - {CHR ''x'', CHR ''y''})"
  by (rule replace_xy_chars_in) (rule hex_digit_range)

lemma generateUUID_shape:
  "length (fst (generateUUID rnd)) = 36 \<and> set (fst (generateUUID rnd)) \<subseteq> uuid_alphabet"
proof -
  define T where "T = set ''xxxxxxxx-xxxx-4xxx-yxxx-xxxxxxxxxxxx''"
  define H where "H = set ''0123456789abcdef''"
  define D where "D = set ''0123456789abcdef-''"
  define U where "U = set (fst (generateUUID rnd))"
  have 1: "U \<subseteq> H \<union> (T - {CHR ''x'', CHR ''y''})"
    unfolding U_def H_def T_def generateUUID_def by (rule replace_xy_chars)
  have 2: "\<forall>c \<in> H. c \<in> D"
    unfolding H_def D_def by simp
  have 3: "\<forall>c \<in> T. c = CHR ''x'' \<or> c = CHR ''y'' \<or> c \<in> D"
    unfolding T_def D_def by simp
  from 1 2 3 have "U \<subseteq> D" by blast
  then have "set (fst (generateUUID rnd)) \<subseteq> uuid_alphabet"
    unfolding U_def D_def uuid_alphabet_def .
  moreover have "length (fst (generateUUID rnd)) = 36"
    unfolding generateUUID_def replace_xy_length by simp
  ultimately show ?thesis by simp
qed

lemma create_subject_cases:
  assumes "create_subject ctx flds rnd = Inr (s, rnd1)"
  obtains (given) m iri e where "find_named ''id'' flds = Some (m, StringValue iri)"
      and "\<not> illegal_iri_chars iri" and "expandIri ctx iri = Inr e" and "s = NamedNode e"
    | (minted) "find_named ''id'' flds = None"
      and "s = NamedNode (''urn:uuid:'' @ fst (generateUUID rnd))"
proof (cases "find_named ''id'' flds")
  case None
  with assms have "s = NamedNode (''urn:uuid:'' @ fst (generateUUID rnd))"
    by (auto simp: create_subject_def split: prod.splits)
  with None show thesis by (rule minted)
next
  case (Some a)
  obtain m v where a: "a = (m, v)" by (cases a)
  from assms Some a obtain iri where v: "v = StringValue iri"
    by (cases v) (simp_all add: create_subject_def)
  from assms Some a v have n: "\<not> illegal_iri_chars iri"
    by (auto simp: create_subject_def split: if_splits)
  with assms Some a v obtain e where e: "expandIri ctx iri = Inr e" and s: "s = NamedNode e"
    by (auto simp: create_subject_def split: sum.splits)
  from Some a v have "find_named ''id'' flds = Some (m, StringValue iri)" by simp
  then show thesis using n e s by (rule given)
qed

lemma create_field_emits:
  assumes "create_field ctx s field quads = Inr quads1"
  obtains qs where "quads1 = quads @ qs" and "\<forall>q \<in> set qs. field_emits ctx s field q"
  using assms
proof (cases rule: create_field_cases)
  case skip
  then have "quads1 = quads @ []" by simp
  then show ?thesis by (rule that) simp
next
  case (literal p l)
  have "field_emits ctx s field (mk_quad s p l)"
    unfolding field_emits_def is_relationship_input_def using literal(1-4) by blast
  with literal(5) show ?thesis by (intro that [of "[mk_quad s p l]"]) simp_all
next
  case (relation p r iri)
  let ?inv = "case getInversePredicateIri ctx (relationship_name (fst field)) of
                  Some q \<Rightarrow> [mk_quad (NamedNode iri) q s] | None \<Rightarrow> []"
  have f: "field_emits ctx s field (mk_quad s r (NamedNode iri))"
    unfolding field_emits_def is_relationship_input_def using relation(1-4) by blast
  have i: "\<forall>q \<in> set ?inv. field_emits ctx s field q"
  proof (cases "getInversePredicateIri ctx (relationship_name (fst field))")
    case None
    then show ?thesis by simp
  next
    case (Some inv)
    have "field_emits ctx s field (mk_quad (NamedNode iri) inv s)"
      unfolding field_emits_def is_relationship_input_def using relation(1-4) Some by blast
    with Some show ?thesis by simp
  qed
  from relation(5) have "quads1 = quads @ (mk_quad s r (NamedNode iri) # ?inv)" by simp
  then show ?thesis using f i by (intro that [of "mk_quad s r (NamedNode iri) # ?inv"]) simp_all
qed

lemma create_fields_emits:
  "create_fields ctx s flds quads = Inr quads1 \<Longrightarrow>
     \<exists>qs. quads1 = quads @ qs \<and> (\<forall>q \<in> set qs. \<exists>field \<in> set flds. field_emits ctx s field q)"
proof (induction flds arbitrary: quads)
  case Nil
  then show ?case by simp
next
  case (Cons field flds)
  from Cons.prems obtain q1 where 1: "create_field ctx s field quads = Inr q1"
    and 2: "create_fields ctx s flds q1 = Inr quads1"
    by (auto split: sum.splits)
  from 1 obtain qa where a: "q1 = quads @ qa" and ea: "\<forall>q \<in> set qa. field_emits ctx s field q"
    by (rule create_field_emits)
  from Cons.IH [OF 2] obtain qb where b: "quads1 = q1 @ qb"
    and eb: "\<forall>q \<in> set qb. \<exists>field \<in> set flds. field_emits ctx s field q"
    by blast
  from a b have "quads1 = quads @ (qa @ qb)" by simp
  moreover from ea eb have "\<forall>q \<in> set (qa @ qb). \<exists>f \<in> set (field # flds). field_emits ctx s f q"
    by auto
  ultimately show ?case by blast
qed

lemma handleCreate_structure:
  assumes "handleCreate ctx node entity [] rnd = Inr (quads, rnd1)"
  obtains n flds t s qs where "find_named ''input'' (arguments node) = Some (n, ObjectValue flds)"
    and "getTypeIri ctx entity = Inr t" and "create_subject ctx flds rnd = Inr (s, rnd1)"
    and "create_fields ctx s flds [mk_quad s (NamedNode rdf_type) t] = Inr quads"
    and "quads = mk_quad s (NamedNode rdf_type) t # qs"
    and "\<forall>q \<in> set qs. \<exists>field \<in> set flds. field_emits ctx s field q"
proof -
  from assms obtain n flds t s where
    i: "find_named ''input'' (arguments node) = Some (n, ObjectValue flds)"
    and t: "getTypeIri ctx entity = Inr t" and s: "create_subject ctx flds rnd = Inr (s, rnd1)"
    and f: "create_fields ctx s flds [mk_quad s (NamedNode rdf_type) t] = Inr quads"
    unfolding handleCreate_def
    by (auto split: option.splits prod.splits value_node.splits sum.splits)
  from create_fields_emits [OF f] obtain qs where "quads = [mk_quad s (NamedNode rdf_type) t] @ qs"
    and e: "\<forall>q \<in> set qs. \<exists>field \<in> set flds. field_emits ctx s field q"
    by blast
  then have "quads = mk_quad s (NamedNode rdf_type) t # qs" by simp
  with i t s f show thesis using e by (rule that)
qed

text \<open>A create mutation with one root field: \<^verbatim>\<open>convert\<close> is \<^verbatim>\<open>handleCreate\<close> on that field.\<close>

lemma first_field_create_state:
  assumes "operation_of_name (field_name node) = Some (Create, entity)"
  shows "visit_step ctx (EnterField node) (initial_state rnd) =
     (case handleCreate ctx node entity [] rnd of
        Inl e \<Rightarrow> Inl e
      | Inr (quads, rnd1) \<Rightarrow>
          Inr ((initial_state rnd)\<lparr>operationType := Some Create, entityTypeName := Some entity,
                  createQuads := quads, random := rnd1\<rparr>))"
  using assms
  by (simp add: initial_state_def identify_operation_def dispatch_handler_def
      split: sum.splits prod.splits)

lemma visit_single_field:
  "visit_events ctx [EnterOperationDefinition Mutation, EnterField node] st =
     visit_step ctx (EnterField node) st"
  by (cases "visit_step ctx (EnterField node) st") simp_all

lemma convert_single_create:
  assumes "document_events doc = [EnterOperationDefinition Mutation, EnterField node]"
    and "operation_of_name (field_name node) = Some (Create, entity)"
    and "convert ctx rnd doc = Inr result"
  obtains quads rnd1 where "handleCreate ctx node entity [] rnd = Inr (quads, rnd1)"
    and "result = CompositeUpdate [DeleteInsert None (Some (map quadToAlgebraPattern quads)) None]"
proof -
  from assms(3) obtain st where v: "visit_events ctx (document_events doc) (initial_state rnd) = Inr st"
    and b: "build_operation st = Inr result"
    by (auto simp: convert_def split: sum.splits)
  from v have 1: "visit_step ctx (EnterField node) (initial_state rnd) = Inr st"
    unfolding assms(1) visit_single_field .
  then obtain quads rnd1 where h: "handleCreate ctx node entity [] rnd = Inr (quads, rnd1)"
    and st: "st = (initial_state rnd)\<lparr>operationType := Some Create, entityTypeName := Some entity,
                  createQuads := quads, random := rnd1\<rparr>"
    unfolding first_field_create_state [OF assms(2)]
    by (auto split: sum.splits prod.splits)
  from st have o: "operationType st = Some Create" and c: "createQuads st = quads" by simp_all
  from b o c have "result = CompositeUpdate
      [DeleteInsert None (Some (map quadToAlgebraPattern quads)) None]"
    by (cases rule: build_operation_cases) simp_all
  with h show thesis by (rule that)
qed
lemma create_fields_relationship:
  assumes "create_fields ctx s flds quads = Inr quads1" and "field \<in> set flds"
    and "fst field \<noteq> ''id''" and "is_relationship_input ctx field"
  shows "\<exists>r iri. getPredicateIri ctx (relationship_name (fst field)) = Inr r \<and>
           expandIri ctx (string_value (snd field)) = Inr iri \<and>
           mk_quad s r (NamedNode iri) \<in> set quads1 \<and>
           (\<forall>inv. getInversePredicateIri ctx (relationship_name (fst field)) = Some inv
                  \<longrightarrow> mk_quad (NamedNode iri) inv s \<in> set quads1)"
  using assms(1,2)
proof (induction flds arbitrary: quads)
  case Nil
  then show ?case by simp
next
  case (Cons fld flds)
  from Cons.prems(1) obtain q1 where 1: "create_field ctx s fld quads = Inr q1"
    and 2: "create_fields ctx s flds q1 = Inr quads1"
    by (auto split: sum.splits)
  show ?case
  proof (cases "field = fld")
    case True
    from create_fields_emits [OF 2] obtain qs where mono: "quads1 = q1 @ qs" by blast
    from 1 show ?thesis
    proof (cases rule: create_field_cases)
      case skip
      with True assms(3) show ?thesis by simp
    next
      case (literal p l)
      with True assms(4) show ?thesis by (simp add: is_relationship_input_def)
    next
      case (relation p r iri)
      have f: "mk_quad s r (NamedNode iri) \<in> set quads1"
        unfolding mono relation(5) by simp
      have i: "mk_quad (NamedNode iri) inv s \<in> set quads1"
        if "getInversePredicateIri ctx (relationship_name (fst fld)) = Some inv" for inv
        unfolding mono relation(5) using that by simp
      from relation(3,4) f i True show ?thesis by blast
    qed
  next
    case False
    with Cons.prems(2) have "field \<in> set flds" by simp
    from Cons.IH [OF 2 this] show ?thesis .
  qed
qed

lemma pattern_of_mk_quad: "quadToAlgebraPattern (mk_quad a b c) = Pattern a b c DefaultGraph"
  by (simp add: quadToAlgebraPattern_def mk_quad_def)

lemma field_emits_cases:
  assumes "field_emits ctx s field q"
  obtains (subject) p ob where "q = mk_quad s p ob"
      and "getPredicateIri ctx (fst field) = Inr p \<or>
           getPredicateIri ctx (relationship_name (fst field)) = Inr p"
    | (inverse) iri inv where "is_relationship_input ctx field"
      and "expandIri ctx (string_value (snd field)) = Inr iri"
      and "getInversePredicateIri ctx (relationship_name (fst field)) = Some inv"
      and "q = mk_quad (NamedNode iri) inv s"
  using assms unfolding field_emits_def by blast

text \<open>
  Claim C2, as amended. For a create mutation with one root field that
  compiles: when the input has a string \<^verbatim>\<open>id\<close> field, the subject \<open>s\<close> is
  \<^verbatim>\<open>expand_iri(input.id)\<close>; when it has no \<^verbatim>\<open>id\<close> field, \<open>s\<close> is one IRI
  \<^verbatim>\<open>urn:uuid:\<close> followed by 36 characters from \<^verbatim>\<open>[0-9a-f-]\<close>. Every emitted
  triple has subject \<open>s\<close>, except the inverse triples of relationship fields,
  which have the related entity as subject and \<open>s\<close> as object.
\<close>

theorem create_triples_subject:
  assumes "document_events doc = [EnterOperationDefinition Mutation, EnterField node]"
    and "operation_of_name (field_name node) = Some (Create, entity)"
    and "find_named ''input'' (arguments node) = Some (n, ObjectValue flds)"
    and "convert ctx rnd doc = Inr result"
  shows "\<exists>s ps. result = CompositeUpdate [DeleteInsert None (Some ps) None] \<and>
     (\<forall>m iri. find_named ''id'' flds = Some (m, StringValue iri)
         \<longrightarrow> (\<exists>e. expandIri ctx iri = Inr e \<and> s = NamedNode e)) \<and>
     (find_named ''id'' flds = None
         \<longrightarrow> (\<exists>u. s = NamedNode (''urn:uuid:'' @ u) \<and> length u = 36 \<and>
                  set u \<subseteq> uuid_alphabet)) \<and>
     (\<forall>p \<in> set ps. pat_subject p = s \<or>
         (\<exists>field iri inv. field \<in> set flds \<and> is_relationship_input ctx field \<and>
             expandIri ctx (string_value (snd field)) = Inr iri \<and>
             getInversePredicateIri ctx (relationship_name (fst field)) = Some inv \<and>
             p = Pattern (NamedNode iri) inv s DefaultGraph))"
proof -
  from assms(1,2,4) obtain quads rnd1 where
    h: "handleCreate ctx node entity [] rnd = Inr (quads, rnd1)"
    and r: "result = CompositeUpdate [DeleteInsert None (Some (map quadToAlgebraPattern quads)) None]"
    by (rule convert_single_create)
  from h obtain n' flds' t s qs where
    i: "find_named ''input'' (arguments node) = Some (n', ObjectValue flds')"
    and s: "create_subject ctx flds' rnd = Inr (s, rnd1)"
    and q: "quads = mk_quad s (NamedNode rdf_type) t # qs"
    and e: "\<forall>q \<in> set qs. \<exists>field \<in> set flds'. field_emits ctx s field q"
    by (rule handleCreate_structure)
  from i assms(3) have same: "flds' = flds" by simp
  have given: "\<exists>e. expandIri ctx iri = Inr e \<and> s = NamedNode e"
    if "find_named ''id'' flds = Some (m, StringValue iri)" for m iri
    using s that unfolding same by (cases rule: create_subject_cases) auto
  have minted: "\<exists>u. s = NamedNode (''urn:uuid:'' @ u) \<and> length u = 36 \<and> set u \<subseteq> uuid_alphabet"
    if "find_named ''id'' flds = None"
  proof -
    from s that have "s = NamedNode (''urn:uuid:'' @ fst (generateUUID rnd))"
      unfolding same by (cases rule: create_subject_cases) auto
    moreover have "length (fst (generateUUID rnd)) = 36"
      by (rule conjunct1 [OF generateUUID_shape])
    moreover have "set (fst (generateUUID rnd)) \<subseteq> uuid_alphabet"
      by (rule conjunct2 [OF generateUUID_shape])
    ultimately show ?thesis by (intro exI [of _ "fst (generateUUID rnd)"] conjI)
  qed
  have subj: "pat_subject p = s \<or>
         (\<exists>field iri inv. field \<in> set flds \<and> is_relationship_input ctx field \<and>
             expandIri ctx (string_value (snd field)) = Inr iri \<and>
             getInversePredicateIri ctx (relationship_name (fst field)) = Some inv \<and>
             p = Pattern (NamedNode iri) inv s DefaultGraph)"
    if "p \<in> set (map quadToAlgebraPattern quads)" for p
  proof -
    from that obtain qd where qd: "qd \<in> set quads" and p: "p = quadToAlgebraPattern qd" by auto
    show ?thesis
    proof (cases "qd = mk_quad s (NamedNode rdf_type) t")
      case True
      with p show ?thesis by (simp add: pattern_of_mk_quad)
    next
      case False
      with qd q have "qd \<in> set qs" by simp
      with e same obtain field where f: "field \<in> set flds" and fe: "field_emits ctx s field qd"
        by blast
      from fe show ?thesis
      proof (cases rule: field_emits_cases)
        case (subject pr ob)
        with p show ?thesis by (simp add: pattern_of_mk_quad)
      next
        case (inverse iri inv)
        with p f show ?thesis by (auto simp: pattern_of_mk_quad)
      qed
    qed
  qed
  show ?thesis
  proof (intro exI conjI)
    show "result = CompositeUpdate [DeleteInsert None (Some (map quadToAlgebraPattern quads)) None]"
      by (rule r)
    show "\<forall>m iri. find_named ''id'' flds = Some (m, StringValue iri)
         \<longrightarrow> (\<exists>e. expandIri ctx iri = Inr e \<and> s = NamedNode e)"
      using given by (intro allI impI)
    show "find_named ''id'' flds = None
         \<longrightarrow> (\<exists>u. s = NamedNode (''urn:uuid:'' @ u) \<and> length u = 36 \<and> set u \<subseteq> uuid_alphabet)"
      using minted by (intro impI)
    show "\<forall>p \<in> set (map quadToAlgebraPattern quads). pat_subject p = s \<or>
         (\<exists>field iri inv. field \<in> set flds \<and> is_relationship_input ctx field \<and>
             expandIri ctx (string_value (snd field)) = Inr iri \<and>
             getInversePredicateIri ctx (relationship_name (fst field)) = Some inv \<and>
             p = Pattern (NamedNode iri) inv s DefaultGraph)"
      using subj by (intro ballI)
  qed
qed
theorem create_triples_subject_witness:
  "convert [''@base'' \<mapsto> Prim (JStr ''http://example.org/''),
            ''User'' \<mapsto> Prim (JStr ''http://example.org/User''),
            ''name'' \<mapsto> Prim (JStr ''http://xmlns.com/foaf/0.1/name'')] []
     [OperationDefinition Mutation
        [Field \<lparr>field_name = ''createUser'',
                 arguments = [(''input'', ObjectValue [(''id'', StringValue ''ex:user1''),
                                                      (''name'', StringValue ''Alice'')])]\<rparr>]]
     = Inr (CompositeUpdate
         [DeleteInsert None
            (Some [Pattern (NamedNode ''http://example.org/ex:user1'') (NamedNode rdf_type)
                     (NamedNode ''http://example.org/User'') DefaultGraph,
                   Pattern (NamedNode ''http://example.org/ex:user1'')
                     (NamedNode ''http://xmlns.com/foaf/0.1/name'')
                     (Literal ''Alice'' xsd_string) DefaultGraph])
            None]) \<and>
   expandIri [''@base'' \<mapsto> Prim (JStr ''http://example.org/''),
            ''User'' \<mapsto> Prim (JStr ''http://example.org/User''),
            ''name'' \<mapsto> Prim (JStr ''http://xmlns.com/foaf/0.1/name'')] ''ex:user1''
     = Inr ''http://example.org/ex:user1''"
proof -
  let ?ctx = "[''@base'' \<mapsto> Prim (JStr ''http://example.org/''),
            ''User'' \<mapsto> Prim (JStr ''http://example.org/User''),
            ''name'' \<mapsto> Prim (JStr ''http://xmlns.com/foaf/0.1/name'')]"
  let ?flds = "[(''id'', StringValue ''ex:user1''), (''name'', StringValue ''Alice'')]"
  let ?node = "\<lparr>field_name = ''createUser'', arguments = [(''input'', ObjectValue ?flds)]\<rparr>"
  let ?doc = "[OperationDefinition Mutation [Field ?node]]"
  let ?ps = "[Pattern (NamedNode ''http://example.org/ex:user1'') (NamedNode rdf_type)
                     (NamedNode ''http://example.org/User'') DefaultGraph,
                   Pattern (NamedNode ''http://example.org/ex:user1'')
                     (NamedNode ''http://xmlns.com/foaf/0.1/name'')
                     (Literal ''Alice'' xsd_string) DefaultGraph]"
  have ev: "document_events ?doc = [EnterOperationDefinition Mutation, EnterField ?node]"
    by (simp add: document_events_def)
  have op: "operation_of_name (field_name ?node) = Some (Create, ''User'')"
    by (simp add: operation_of_name_def startsWith_def)
  have inp: "find_named ''input'' (arguments ?node) = Some (''input'', ObjectValue ?flds)"
    by (simp add: find_named_def)
  have ex: "expandIri ?ctx ''ex:user1'' = Inr ''http://example.org/ex:user1''"
    by (simp add: expandIri_def startsWith_def endsWith_def)
  have conv: "convert ?ctx [] ?doc = Inr (CompositeUpdate [DeleteInsert None (Some ?ps) None])"
    by (simp add: convert_def document_events_def initial_state_def identify_operation_def
          operation_of_name_def startsWith_def find_named_def dispatch_handler_def
          handleCreate_def getTypeIri_def create_subject_def illegal_iri_chars_def
          includesChar_def ex create_field_def getPredicateIri_def endsWith_def
          isRelationshipField_def relationshipFields_def toLowerCase_def lower_char_def
          build_operation_def mk_quad_def quadToAlgebraPattern_def Let_def)
  have idf: "find_named ''id'' ?flds = Some (''id'', StringValue ''ex:user1'')"
    by (simp add: find_named_def)
  from create_triples_subject [OF ev op inp conv] obtain s ps where
    c: "CompositeUpdate [DeleteInsert None (Some ?ps) None]
          = CompositeUpdate [DeleteInsert None (Some ps) None] \<and>
        (\<forall>m iri. find_named ''id'' ?flds = Some (m, StringValue iri)
           \<longrightarrow> (\<exists>e. expandIri ?ctx iri = Inr e \<and> s = NamedNode e))"
    by (elim exE conjE) (rule that, rule conjI)
  from c idf have "\<exists>e. expandIri ?ctx ''ex:user1'' = Inr e \<and> s = NamedNode e" by blast
  with conv ex show ?thesis by simp
qed

text \<open>
  The claim as stated fails for the inverse triple of a relationship field:
  its subject is the related entity, not \<^verbatim>\<open>expand_iri(input.id)\<close>.
\<close>

theorem inverse_triple_subject_counterexample:
  "expandIri [''Review'' \<mapsto> Prim (JStr ''https://schema.org/Review''),
            ''product'' \<mapsto> TermObj [(''@id'', JStr ''https://schema.org/itemReviewed''),
                                     (''@type'', JStr ''@id'')],
            ''reviews'' \<mapsto> TermObj [(''@id'', JStr ''https://schema.org/review''),
                                     (''@type'', JStr ''@id'')]] ''http://example.org/r1''
     = Inr ''http://example.org/r1'' \<and>
   convert [''Review'' \<mapsto> Prim (JStr ''https://schema.org/Review''),
            ''product'' \<mapsto> TermObj [(''@id'', JStr ''https://schema.org/itemReviewed''),
                                     (''@type'', JStr ''@id'')],
            ''reviews'' \<mapsto> TermObj [(''@id'', JStr ''https://schema.org/review''),
                                     (''@type'', JStr ''@id'')]] []
     [OperationDefinition Mutation
        [Field \<lparr>field_name = ''createReview'',
                 arguments = [(''input'', ObjectValue
                    [(''id'', StringValue ''http://example.org/r1''),
                     (''product'', StringValue ''http://example.org/p1'')])]\<rparr>]]
     = Inr (CompositeUpdate
         [DeleteInsert None
            (Some [Pattern (NamedNode ''http://example.org/r1'') (NamedNode rdf_type)
                     (NamedNode ''https://schema.org/Review'') DefaultGraph,
                   Pattern (NamedNode ''http://example.org/r1'')
                     (NamedNode ''https://schema.org/itemReviewed'')
                     (NamedNode ''http://example.org/p1'') DefaultGraph,
                   Pattern (NamedNode ''http://example.org/p1'')
                     (NamedNode ''https://schema.org/review'')
                     (NamedNode ''http://example.org/r1'') DefaultGraph])
            None]) \<and>
   pat_subject (Pattern (NamedNode ''http://example.org/p1'')
                     (NamedNode ''https://schema.org/review'')
                     (NamedNode ''http://example.org/r1'') DefaultGraph)
     \<noteq> NamedNode ''http://example.org/r1''"
  by (simp add: convert_def document_events_def initial_state_def identify_operation_def
        operation_of_name_def startsWith_def find_named_def dispatch_handler_def
        handleCreate_def getTypeIri_def create_subject_def illegal_iri_chars_def
        includesChar_def expandIri_def create_field_def getPredicateIri_def endsWith_def
        isRelationshipField_def relationship_name_def getInversePredicateIri_def
        inversePatterns_def build_operation_def mk_quad_def quadToAlgebraPattern_def Let_def)

lemma getPredicateIri_term:
  "getPredicateIri ctx nm = Inr p \<Longrightarrow> \<exists>i. term_iri (ctx nm) = Some i \<and> p = NamedNode i"
  by (auto simp: getPredicateIri_def split: option.splits)

lemma getInversePredicateIri_term:
  "getInversePredicateIri ctx r = Some q \<Longrightarrow> \<exists>nm i. term_iri (ctx nm) = Some i \<and> q = NamedNode i"
proof -
  assume "getInversePredicateIri ctx r = Some q"
  then obtain nm where "getPredicateIri ctx nm = Inr q"
    unfolding getInversePredicateIri_def by (auto split: option.splits sum.splits)
  from getPredicateIri_term [OF this] show ?thesis by blast
qed

lemma getInversePredicateIri_table:
  "map_of inversePatterns r = Some inverseName \<Longrightarrow> getPredicateIri ctx inverseName = Inr q \<Longrightarrow>
     getInversePredicateIri ctx r = Some q"
  by (simp add: getInversePredicateIri_def)

lemma field_emits_predicate:
  assumes "field_emits ctx s field q"
  shows "\<exists>nm i. term_iri (ctx nm) = Some i \<and> predicate q = NamedNode i"
  using assms
proof (cases rule: field_emits_cases)
  case (subject p ob)
  from subject(2) obtain nm where "getPredicateIri ctx nm = Inr p" by blast
  from getPredicateIri_term [OF this] subject(1) show ?thesis
    by (auto simp: mk_quad_def)
next
  case (inverse iri inv)
  from getInversePredicateIri_term [OF inverse(3)] inverse(4) show ?thesis
    by (auto simp: mk_quad_def)
qed

lemma getTypeIri_resolution:
  assumes "getTypeIri ctx entity = Inr t"
  shows "(\<not> falsy (ctx entity) \<longrightarrow> (\<forall>i. term_iri (ctx entity) = Some i \<longrightarrow> t = NamedNode i)) \<and>
     (falsy (ctx entity) \<longrightarrow>
        (\<forall>i. term_iri (ctx (capitalize entity)) = Some i \<longrightarrow> t = NamedNode i)) \<and>
     (term_iri (if falsy (ctx entity) then ctx (capitalize entity) else ctx entity) = None \<longrightarrow>
        (\<exists>vocab. ctx ''@vocab'' = Some (Prim (JStr vocab)) \<and> t = NamedNode (vocab @ entity)))"
  using assms unfolding getTypeIri_def Let_def
  by (auto split: option.splits ctx_entry.splits jv.splits if_splits)

lemma operation_of_name_create:
  "operation_of_name nm = Some (Create, entity) \<Longrightarrow> startsWith nm ''create'' \<and> entity = drop 6 nm"
  by (auto simp: operation_of_name_def split: if_splits)

text \<open>
  Claim C3, as amended. A create mutation with one root field that compiles
  emits, as its first triple, \<open>s rdf:type type_iri(Entity)\<close>, where \<open>Entity\<close>
  is the field name without the prefix \<^verbatim>\<open>create\<close> and \<open>type_iri\<close> takes the
  exact context entry when that entry is truthy, the entry of the capitalized
  name when the exact one is falsy, and \<^verbatim>\<open>@vocab\<close> followed by the name when the
  entry taken carries no IRI. When no term of the context is mapped to
  \<^verbatim>\<open>rdf:type\<close>, no other emitted triple has the predicate \<^verbatim>\<open>rdf:type\<close>.
\<close>

theorem create_type_triple:
  assumes "document_events doc = [EnterOperationDefinition Mutation, EnterField node]"
    and "operation_of_name (field_name node) = Some (Create, entity)"
    and "convert ctx rnd doc = Inr result"
  shows "\<exists>s t ps.
     result = CompositeUpdate
       [DeleteInsert None (Some (Pattern s (NamedNode rdf_type) t DefaultGraph # ps)) None] \<and>
     startsWith (field_name node) ''create'' \<and> entity = drop 6 (field_name node) \<and>
     getTypeIri ctx entity = Inr t \<and>
     (\<not> falsy (ctx entity) \<longrightarrow> (\<forall>i. term_iri (ctx entity) = Some i \<longrightarrow> t = NamedNode i)) \<and>
     (falsy (ctx entity) \<longrightarrow>
        (\<forall>i. term_iri (ctx (capitalize entity)) = Some i \<longrightarrow> t = NamedNode i)) \<and>
     (term_iri (if falsy (ctx entity) then ctx (capitalize entity) else ctx entity) = None \<longrightarrow>
        (\<exists>vocab. ctx ''@vocab'' = Some (Prim (JStr vocab)) \<and> t = NamedNode (vocab @ entity))) \<and>
     ((\<forall>nm. term_iri (ctx nm) \<noteq> Some rdf_type) \<longrightarrow>
        (\<forall>p \<in> set ps. pat_predicate p \<noteq> NamedNode rdf_type))"
proof -
  from assms obtain quads rnd1 where
    h: "handleCreate ctx node entity [] rnd = Inr (quads, rnd1)"
    and r: "result = CompositeUpdate [DeleteInsert None (Some (map quadToAlgebraPattern quads)) None]"
    by (rule convert_single_create)
  from h obtain n flds t s qs where
    t: "getTypeIri ctx entity = Inr t"
    and q: "quads = mk_quad s (NamedNode rdf_type) t # qs"
    and e: "\<forall>q \<in> set qs. \<exists>field \<in> set flds. field_emits ctx s field q"
    by (rule handleCreate_structure)
  from r q have r': "result = CompositeUpdate
       [DeleteInsert None
          (Some (Pattern s (NamedNode rdf_type) t DefaultGraph # map quadToAlgebraPattern qs)) None]"
    by (simp add: pattern_of_mk_quad)
  have others: "\<forall>p \<in> set (map quadToAlgebraPattern qs). pat_predicate p \<noteq> NamedNode rdf_type"
    if no: "\<forall>nm. term_iri (ctx nm) \<noteq> Some rdf_type"
  proof
    fix p assume "p \<in> set (map quadToAlgebraPattern qs)"
    then obtain qd where qd: "qd \<in> set qs" and p: "p = quadToAlgebraPattern qd" by auto
    from e qd obtain field where "field_emits ctx s field qd" by blast
    from field_emits_predicate [OF this] obtain nm i where
      "term_iri (ctx nm) = Some i" and "predicate qd = NamedNode i" by blast
    with no p show "pat_predicate p \<noteq> NamedNode rdf_type"
      by (auto simp: quadToAlgebraPattern_def)
  qed
  note name = operation_of_name_create [OF assms(2)]
  note res = getTypeIri_resolution [OF t]
  show ?thesis
  proof (intro exI conjI)
    show "result = CompositeUpdate
       [DeleteInsert None
          (Some (Pattern s (NamedNode rdf_type) t DefaultGraph # map quadToAlgebraPattern qs)) None]"
      by (rule r')
    show "startsWith (field_name node) ''create''" using name by (rule conjunct1)
    show "entity = drop 6 (field_name node)" using name by (rule conjunct2)
    show "getTypeIri ctx entity = Inr t" by (rule t)
    show "\<not> falsy (ctx entity) \<longrightarrow> (\<forall>i. term_iri (ctx entity) = Some i \<longrightarrow> t = NamedNode i)"
      using res by (rule conjunct1)
    show "falsy (ctx entity) \<longrightarrow>
        (\<forall>i. term_iri (ctx (capitalize entity)) = Some i \<longrightarrow> t = NamedNode i)"
      using res by (elim conjE)
    show "term_iri (if falsy (ctx entity) then ctx (capitalize entity) else ctx entity) = None \<longrightarrow>
        (\<exists>vocab. ctx ''@vocab'' = Some (Prim (JStr vocab)) \<and> t = NamedNode (vocab @ entity))"
      using res by (elim conjE)
    show "(\<forall>nm. term_iri (ctx nm) \<noteq> Some rdf_type) \<longrightarrow>
        (\<forall>p \<in> set (map quadToAlgebraPattern qs). pat_predicate p \<noteq> NamedNode rdf_type)"
      using others by (intro impI)
  qed
qed

theorem create_type_triple_witness:
  "convert [''user'' \<mapsto> Prim JNull,
            ''User'' \<mapsto> TermObj [(''@id'', JStr ''http://example.org/User'')],
            ''name'' \<mapsto> Prim (JStr ''http://xmlns.com/foaf/0.1/name'')] []
     [OperationDefinition Mutation
        [Field \<lparr>field_name = ''createuser'',
                 arguments = [(''input'', ObjectValue
                   [(''id'', StringValue ''http://example.org/u1''),
                    (''name'', StringValue ''Alice'')])]\<rparr>]]
     = Inr (CompositeUpdate
         [DeleteInsert None
            (Some [Pattern (NamedNode ''http://example.org/u1'') (NamedNode rdf_type)
                     (NamedNode ''http://example.org/User'') DefaultGraph,
                   Pattern (NamedNode ''http://example.org/u1'')
                     (NamedNode ''http://xmlns.com/foaf/0.1/name'')
                     (Literal ''Alice'' xsd_string) DefaultGraph])
            None]) \<and>
   getTypeIri [''user'' \<mapsto> Prim JNull,
            ''User'' \<mapsto> TermObj [(''@id'', JStr ''http://example.org/User'')],
            ''name'' \<mapsto> Prim (JStr ''http://xmlns.com/foaf/0.1/name'')] ''user''
     = Inr (NamedNode ''http://example.org/User'')"
proof -
  let ?ctx = "[''user'' \<mapsto> Prim JNull,
            ''User'' \<mapsto> TermObj [(''@id'', JStr ''http://example.org/User'')],
            ''name'' \<mapsto> Prim (JStr ''http://xmlns.com/foaf/0.1/name'')]"
  let ?flds = "[(''id'', StringValue ''http://example.org/u1''), (''name'', StringValue ''Alice'')]"
  let ?node = "\<lparr>field_name = ''createuser'', arguments = [(''input'', ObjectValue ?flds)]\<rparr>"
  let ?doc = "[OperationDefinition Mutation [Field ?node]]"
  let ?p1 = "Pattern (NamedNode ''http://example.org/u1'') (NamedNode rdf_type)
                     (NamedNode ''http://example.org/User'') DefaultGraph"
  let ?p2 = "Pattern (NamedNode ''http://example.org/u1'')
                     (NamedNode ''http://xmlns.com/foaf/0.1/name'')
                     (Literal ''Alice'' xsd_string) DefaultGraph"
  have ev: "document_events ?doc = [EnterOperationDefinition Mutation, EnterField ?node]"
    by (simp add: document_events_def)
  have op: "operation_of_name (field_name ?node) = Some (Create, ''user'')"
    by (simp add: operation_of_name_def startsWith_def)
  have cap: "capitalize ''user'' = ''User''"
    by code_simp
  have ty: "getTypeIri ?ctx ''user'' = Inr (NamedNode ''http://example.org/User'')"
    by (simp add: getTypeIri_def cap)
  have conv: "convert ?ctx [] ?doc = Inr (CompositeUpdate [DeleteInsert None (Some [?p1, ?p2]) None])"
    by (simp add: convert_def document_events_def initial_state_def identify_operation_def
          operation_of_name_def startsWith_def find_named_def dispatch_handler_def
          handleCreate_def ty create_subject_def illegal_iri_chars_def
          includesChar_def expandIri_def create_field_def getPredicateIri_def endsWith_def
          isRelationshipField_def relationshipFields_def toLowerCase_def lower_char_def
          build_operation_def mk_quad_def quadToAlgebraPattern_def Let_def)
  from create_type_triple [OF ev op conv] obtain s t ps where
    c: "CompositeUpdate [DeleteInsert None (Some [?p1, ?p2]) None] = CompositeUpdate
         [DeleteInsert None (Some (Pattern s (NamedNode rdf_type) t DefaultGraph # ps)) None] \<and>
        startsWith (field_name ?node) ''create'' \<and> ''user'' = drop 6 (field_name ?node) \<and>
        getTypeIri ?ctx ''user'' = Inr t"
    by (elim exE conjE) (rule that, intro conjI)
  then have "t = NamedNode ''http://example.org/User''" by simp
  with c have "getTypeIri ?ctx ''user'' = Inr (NamedNode ''http://example.org/User'')" by simp
  with conv show ?thesis by (rule conjI)
qed

text \<open>
  The claim as stated fails when an input field is mapped to \<^verbatim>\<open>rdf:type\<close>: two
  emitted triples then have the predicate \<^verbatim>\<open>rdf:type\<close>.
\<close>

theorem two_type_triples_counterexample:
  "convert [''User'' \<mapsto> Prim (JStr ''http://example.org/User''),
            ''kind'' \<mapsto> Prim (JStr ''http://www.w3.org/1999/02/22-rdf-syntax-ns#type'')] []
     [OperationDefinition Mutation
        [Field \<lparr>field_name = ''createUser'',
                 arguments = [(''input'', ObjectValue
                   [(''id'', StringValue ''http://example.org/u1''),
                    (''kind'', StringValue ''Admin'')])]\<rparr>]]
     = Inr (CompositeUpdate
         [DeleteInsert None
            (Some [Pattern (NamedNode ''http://example.org/u1'')
                     (NamedNode ''http://www.w3.org/1999/02/22-rdf-syntax-ns#type'')
                     (NamedNode ''http://example.org/User'') DefaultGraph,
                   Pattern (NamedNode ''http://example.org/u1'')
                     (NamedNode ''http://www.w3.org/1999/02/22-rdf-syntax-ns#type'')
                     (Literal ''Admin'' ''http://www.w3.org/2001/XMLSchema#string'') DefaultGraph])
            None]) \<and>
   rdf_type = ''http://www.w3.org/1999/02/22-rdf-syntax-ns#type''"
  by (simp add: convert_def document_events_def initial_state_def identify_operation_def
        operation_of_name_def startsWith_def find_named_def dispatch_handler_def
        handleCreate_def getTypeIri_def create_subject_def illegal_iri_chars_def
        includesChar_def expandIri_def create_field_def getPredicateIri_def endsWith_def
        isRelationshipField_def relationshipFields_def toLowerCase_def lower_char_def
        build_operation_def mk_quad_def quadToAlgebraPattern_def Let_def rdf_type_def
        xsd_string_def)

lemma endsWith_Id_split: "endsWith f ''Id'' \<Longrightarrow> f = relationship_name f @ ''Id''"
proof -
  assume h: "endsWith f ''Id''"
  have l: "length ''Id'' = 2" by simp
  from h have "drop (length f - 2) f = ''Id''"
    unfolding endsWith_def l by (rule conjunct2)
  then have "take (length f - 2) f @ ''Id'' = f"
    by (metis append_take_drop_id)
  with h show ?thesis by (simp add: relationship_name_def)
qed

text \<open>
  The relationship triples of a create that compiles. For a create mutation
  with one root field that compiles, and every string-valued input field \<open>f\<close>
  other than \<^verbatim>\<open>id\<close> that ends in \<^verbatim>\<open>Id\<close> (relationship name: \<open>f\<close> without the
  suffix) or is a relationship field (relationship name: \<open>f\<close>), the forward
  triple \<open>s predicate_iri(name) expand_iri(v)\<close> is emitted, and whenever the
  inverse table gives a name whose predicate the context maps to \<open>q\<close>, the
  inverse triple \<open>expand_iri(v) q s\<close> is emitted too.
\<close>

theorem create_relationship_triples:
  assumes "document_events doc = [EnterOperationDefinition Mutation, EnterField node]"
    and "operation_of_name (field_name node) = Some (Create, entity)"
    and "find_named ''input'' (arguments node) = Some (n, ObjectValue flds)"
    and "convert ctx rnd doc = Inr result"
    and "(f, StringValue v) \<in> set flds" and "f \<noteq> ''id''"
    and "endsWith f ''Id'' \<or> isRelationshipField ctx f"
  shows "\<exists>s rnd1 r iri ps.
     result = CompositeUpdate [DeleteInsert None (Some ps) None] \<and>
     create_subject ctx flds rnd = Inr (s, rnd1) \<and>
     (endsWith f ''Id'' \<longrightarrow> f = relationship_name f @ ''Id'') \<and>
     (\<not> endsWith f ''Id'' \<longrightarrow> relationship_name f = f) \<and>
     getPredicateIri ctx (relationship_name f) = Inr r \<and>
     expandIri ctx v = Inr iri \<and>
     Pattern s r (NamedNode iri) DefaultGraph \<in> set ps \<and>
     (\<forall>inverseName q.
        map_of inversePatterns (relationship_name f) = Some inverseName \<and>
        getPredicateIri ctx inverseName = Inr q
        \<longrightarrow> Pattern (NamedNode iri) q s DefaultGraph \<in> set ps)"
proof -
  from assms(1,2,4) obtain quads rnd1 where
    h: "handleCreate ctx node entity [] rnd = Inr (quads, rnd1)"
    and r: "result = CompositeUpdate [DeleteInsert None (Some (map quadToAlgebraPattern quads)) None]"
    by (rule convert_single_create)
  from h obtain n' flds' t s qs where
    i: "find_named ''input'' (arguments node) = Some (n', ObjectValue flds')"
    and s: "create_subject ctx flds' rnd = Inr (s, rnd1)"
    and cf: "create_fields ctx s flds' [mk_quad s (NamedNode rdf_type) t] = Inr quads"
    by (rule handleCreate_structure)
  from i assms(3) have same: "flds' = flds" by simp
  have rel: "is_relationship_input ctx (f, StringValue v)"
    using assms(7) by (simp add: is_relationship_input_def)
  from create_fields_relationship [OF cf, of "(f, StringValue v)"] assms(5,6) rel same
  obtain rp iri where p: "getPredicateIri ctx (relationship_name f) = Inr rp"
    and x: "expandIri ctx v = Inr iri"
    and fw: "mk_quad s rp (NamedNode iri) \<in> set quads"
    and iv: "\<forall>q. getInversePredicateIri ctx (relationship_name f) = Some q
                  \<longrightarrow> mk_quad (NamedNode iri) q s \<in> set quads"
    by auto
  from fw have fwp: "Pattern s rp (NamedNode iri) DefaultGraph \<in> set (map quadToAlgebraPattern quads)"
    unfolding pattern_of_mk_quad [symmetric] by simp
  have ivp: "Pattern (NamedNode iri) q s DefaultGraph \<in> set (map quadToAlgebraPattern quads)"
    if "map_of inversePatterns (relationship_name f) = Some inverseName"
      and "getPredicateIri ctx inverseName = Inr q" for inverseName q
  proof -
    from that have "getInversePredicateIri ctx (relationship_name f) = Some q"
      by (rule getInversePredicateIri_table)
    with iv have "mk_quad (NamedNode iri) q s \<in> set quads" by blast
    then show ?thesis
      unfolding pattern_of_mk_quad [symmetric] by simp
  qed
  show ?thesis
  proof (intro exI conjI)
    show "result = CompositeUpdate [DeleteInsert None (Some (map quadToAlgebraPattern quads)) None]"
      by (rule r)
    show "create_subject ctx flds rnd = Inr (s, rnd1)" using s same by simp
    show "endsWith f ''Id'' \<longrightarrow> f = relationship_name f @ ''Id''"
      using endsWith_Id_split by (intro impI)
    show "\<not> endsWith f ''Id'' \<longrightarrow> relationship_name f = f"
      by (simp add: relationship_name_def)
    show "getPredicateIri ctx (relationship_name f) = Inr rp" by (rule p)
    show "expandIri ctx v = Inr iri" by (rule x)
    show "Pattern s rp (NamedNode iri) DefaultGraph \<in> set (map quadToAlgebraPattern quads)"
      by (rule fwp)
    show "\<forall>inverseName q.
        map_of inversePatterns (relationship_name f) = Some inverseName \<and>
        getPredicateIri ctx inverseName = Inr q
        \<longrightarrow> Pattern (NamedNode iri) q s DefaultGraph \<in> set (map quadToAlgebraPattern quads)"
      using ivp by (intro allI impI) (elim conjE)
  qed
qed

theorem create_relationship_triples_witness:
  "convert [''Review'' \<mapsto> Prim (JStr ''https://schema.org/Review''),
            ''productId'' \<mapsto> Prim (JStr ''https://schema.org/itemReviewed''),
            ''product'' \<mapsto> TermObj [(''@id'', JStr ''https://schema.org/itemReviewed''),
                                     (''@type'', JStr ''@id'')],
            ''reviews'' \<mapsto> TermObj [(''@id'', JStr ''https://schema.org/review''),
                                     (''@type'', JStr ''@id'')]] []
     [OperationDefinition Mutation
        [Field \<lparr>field_name = ''createReview'',
                 arguments = [(''input'', ObjectValue
                    [(''id'', StringValue ''http://example.org/r1''),
                     (''productId'', StringValue ''http://example.org/p1'')])]\<rparr>]]
     = Inr (CompositeUpdate
         [DeleteInsert None
            (Some [Pattern (NamedNode ''http://example.org/r1'') (NamedNode rdf_type)
                     (NamedNode ''https://schema.org/Review'') DefaultGraph,
                   Pattern (NamedNode ''http://example.org/r1'')
                     (NamedNode ''https://schema.org/itemReviewed'')
                     (NamedNode ''http://example.org/p1'') DefaultGraph,
                   Pattern (NamedNode ''http://example.org/p1'')
                     (NamedNode ''https://schema.org/review'')
                     (NamedNode ''http://example.org/r1'') DefaultGraph])
            None]) \<and>
   getPredicateIri [''Review'' \<mapsto> Prim (JStr ''https://schema.org/Review''),
            ''productId'' \<mapsto> Prim (JStr ''https://schema.org/itemReviewed''),
            ''product'' \<mapsto> TermObj [(''@id'', JStr ''https://schema.org/itemReviewed''),
                                     (''@type'', JStr ''@id'')],
            ''reviews'' \<mapsto> TermObj [(''@id'', JStr ''https://schema.org/review''),
                                     (''@type'', JStr ''@id'')]] (relationship_name ''productId'')
     = Inr (NamedNode ''https://schema.org/itemReviewed'')"
proof -
  let ?ctx = "[''Review'' \<mapsto> Prim (JStr ''https://schema.org/Review''),
            ''productId'' \<mapsto> Prim (JStr ''https://schema.org/itemReviewed''),
            ''product'' \<mapsto> TermObj [(''@id'', JStr ''https://schema.org/itemReviewed''),
                                     (''@type'', JStr ''@id'')],
            ''reviews'' \<mapsto> TermObj [(''@id'', JStr ''https://schema.org/review''),
                                     (''@type'', JStr ''@id'')]]"
  let ?flds = "[(''id'', StringValue ''http://example.org/r1''),
                     (''productId'', StringValue ''http://example.org/p1'')]"
  let ?node = "\<lparr>field_name = ''createReview'', arguments = [(''input'', ObjectValue ?flds)]\<rparr>"
  let ?doc = "[OperationDefinition Mutation [Field ?node]]"
  let ?ps = "[Pattern (NamedNode ''http://example.org/r1'') (NamedNode rdf_type)
                     (NamedNode ''https://schema.org/Review'') DefaultGraph,
                   Pattern (NamedNode ''http://example.org/r1'')
                     (NamedNode ''https://schema.org/itemReviewed'')
                     (NamedNode ''http://example.org/p1'') DefaultGraph,
                   Pattern (NamedNode ''http://example.org/p1'')
                     (NamedNode ''https://schema.org/review'')
                     (NamedNode ''http://example.org/r1'') DefaultGraph]"
  have ev: "document_events ?doc = [EnterOperationDefinition Mutation, EnterField ?node]"
    by (simp add: document_events_def)
  have op: "operation_of_name (field_name ?node) = Some (Create, ''Review'')"
    by (simp add: operation_of_name_def startsWith_def)
  have inp: "find_named ''input'' (arguments ?node) = Some (''input'', ObjectValue ?flds)"
    by (simp add: find_named_def)
  have mem: "(''productId'', StringValue ''http://example.org/p1'') \<in> set ?flds" by simp
  have ne: "''productId'' \<noteq> ''id''" by simp
  have ends: "endsWith ''productId'' ''Id'' \<or> isRelationshipField ?ctx ''productId''"
    by (simp add: endsWith_def)
  have conv: "convert ?ctx [] ?doc = Inr (CompositeUpdate [DeleteInsert None (Some ?ps) None])"
    by (simp add: convert_def document_events_def initial_state_def identify_operation_def
          operation_of_name_def startsWith_def find_named_def dispatch_handler_def
          handleCreate_def getTypeIri_def create_subject_def illegal_iri_chars_def
          includesChar_def expandIri_def create_field_def getPredicateIri_def endsWith_def
          relationship_name_def getInversePredicateIri_def
          inversePatterns_def build_operation_def mk_quad_def quadToAlgebraPattern_def Let_def)
  from create_relationship_triples [OF ev op inp conv mem ne ends] obtain r where
    "getPredicateIri ?ctx (relationship_name ''productId'') = Inr r"
    by (elim exE conjE)
  moreover have "getPredicateIri ?ctx (relationship_name ''productId'')
      = Inr (NamedNode ''https://schema.org/itemReviewed'')"
    by (simp add: relationship_name_def endsWith_def getPredicateIri_def)
  ultimately have "getPredicateIri ?ctx (relationship_name ''productId'')
      = Inr (NamedNode ''https://schema.org/itemReviewed'')" by simp
  with conv show ?thesis by (rule conjI)
qed

text \<open>
  Claim C6: for every create mutation with a string-valued input field \<open>f\<close>
  that ends in \<^verbatim>\<open>Id\<close> or is a relationship field, the compiler emits the forward
  triple with the predicate of the relationship name and, when the inverse
  table and the context yield an inverse predicate, the inverse triple. The
  code does not do so for a field \<^verbatim>\<open>productId\<close> under a context that maps the
  relationship \<^verbatim>\<open>product\<close> and its inverse \<^verbatim>\<open>reviews\<close>: the predicate of the
  relationship name and the inverse predicate both resolve, but \<^verbatim>\<open>handleCreate\<close>
  first looks up the predicate of the field name \<^verbatim>\<open>productId\<close> itself, a value
  that the relationship branch never uses, and that lookup raises an error, so
  no triple is emitted.
\<close>

theorem relationship_field_unmapped_fails:
  "endsWith ''productId'' ''Id'' \<and>
   relationship_name ''productId'' = ''product'' \<and>
   getPredicateIri [''Review'' \<mapsto> Prim (JStr ''https://schema.org/Review''),
            ''product'' \<mapsto> TermObj [(''@id'', JStr ''https://schema.org/itemReviewed''),
                                     (''@type'', JStr ''@id'')],
            ''reviews'' \<mapsto> TermObj [(''@id'', JStr ''https://schema.org/review''),
                                     (''@type'', JStr ''@id'')]] (relationship_name ''productId'')
     = Inr (NamedNode ''https://schema.org/itemReviewed'') \<and>
   getInversePredicateIri [''Review'' \<mapsto> Prim (JStr ''https://schema.org/Review''),
            ''product'' \<mapsto> TermObj [(''@id'', JStr ''https://schema.org/itemReviewed''),
                                     (''@type'', JStr ''@id'')],
            ''reviews'' \<mapsto> TermObj [(''@id'', JStr ''https://schema.org/review''),
                                     (''@type'', JStr ''@id'')]] (relationship_name ''productId'')
     = Some (NamedNode ''https://schema.org/review'') \<and>
   convert [''Review'' \<mapsto> Prim (JStr ''https://schema.org/Review''),
            ''product'' \<mapsto> TermObj [(''@id'', JStr ''https://schema.org/itemReviewed''),
                                     (''@type'', JStr ''@id'')],
            ''reviews'' \<mapsto> TermObj [(''@id'', JStr ''https://schema.org/review''),
                                     (''@type'', JStr ''@id'')]] []
     [OperationDefinition Mutation
        [Field \<lparr>field_name = ''createReview'',
                 arguments = [(''input'', ObjectValue
                    [(''id'', StringValue ''http://example.org/r1''),
                     (''productId'', StringValue ''http://example.org/p1'')])]\<rparr>]]
     = Inl (Error ''No IRI mapping found for predicate: productId in the JSON-LD context.'')"
  by (simp add: convert_def document_events_def initial_state_def identify_operation_def
        operation_of_name_def startsWith_def find_named_def dispatch_handler_def
        handleCreate_def getTypeIri_def create_subject_def illegal_iri_chars_def
        includesChar_def expandIri_def create_field_def getPredicateIri_def endsWith_def
        relationship_name_def getInversePredicateIri_def inversePatterns_def Let_def)

section \<open>Properties of the endpoint engine\<close>

lemma endpoint_query_options:
  assumes "m_timeout (mergeOptions o1) = m_timeout (mergeOptions o2)"
    and "m_maxResults (mergeOptions o1) = m_maxResults (mergeOptions o2)"
  shows "endpoint_query toSparql fetch ep alg o1 = endpoint_query toSparql fetch ep alg o2"
proof -
  have t: "query_try fetch ep sparql (mergeOptions o1) = query_try fetch ep sparql (mergeOptions o2)"
    for sparql
    unfolding query_try_def assms ..
  have c: "query_catch (mergeOptions o1) e = query_catch (mergeOptions o2) e" for e
    unfolding query_catch_def assms ..
  show ?thesis
    unfolding endpoint_query_def Let_def t c ..
qed

lemma mergeOptions_validateQuery:
  "m_timeout (mergeOptions (Some (opts\<lparr>validateQuery := a\<rparr>))) = m_timeout (mergeOptions (Some opts))"
  "m_maxResults (mergeOptions (Some (opts\<lparr>validateQuery := a\<rparr>))) = m_maxResults (mergeOptions (Some opts))"
  by (simp_all add: mergeOptions_def)

lemma endpoint_query_ok:
  assumes "toSparql alg = Inr sparql"
    and "fetch \<lparr> req_url = endpointUrl ep, req_method = ''POST'',
                  req_headers = [(''Content-Type'', ''application/sparql-query''),
                                 (''Accept'', ''application/sparql-results+json'')],
                  req_body = sparql, req_abort_after = m_timeout (mergeOptions options) \<rparr>
           = Inr response"
    and "ok response" and "response_json response = Inr result" and "isSparqlQueryResult result"
  shows "endpoint_query toSparql fetch ep alg options
           = Inr (apply_maxResults (m_maxResults (mergeOptions options)) result)"
  using assms by (simp add: endpoint_query_def query_try_def Let_def)

text \<open>
  Claim C9. The result of \<^verbatim>\<open>query\<close> is the same for any two values of the
  option \<^verbatim>\<open>validateQuery\<close>, and the same with the option given as without any
  options. The query text is not validated on the way: whatever text the
  serializer produces (also one that \<^verbatim>\<open>SparqlValidator.validateQuery\<close>
  rejects), when the endpoint answers it with a well-formed result, that
  result, cut to \<^verbatim>\<open>maxResults\<close>, is what \<^verbatim>\<open>query\<close> returns.
\<close>

theorem query_ignores_validateQuery:
  "endpoint_query toSparql fetch ep alg (Some (opts\<lparr>validateQuery := a\<rparr>))
     = endpoint_query toSparql fetch ep alg (Some (opts\<lparr>validateQuery := b\<rparr>)) \<and>
   endpoint_query toSparql fetch ep alg
       (Some \<lparr>timeout = Absent, maxResults = Absent, validateQuery = a\<rparr>)
     = endpoint_query toSparql fetch ep alg None \<and>
   (\<forall>sparql response result.
      toSparql alg = Inr sparql \<and>
      fetch \<lparr> req_url = endpointUrl ep, req_method = ''POST'',
              req_headers = [(''Content-Type'', ''application/sparql-query''),
                             (''Accept'', ''application/sparql-results+json'')],
              req_body = sparql, req_abort_after = m_timeout (mergeOptions options) \<rparr>
        = Inr response \<and>
      ok response \<and> response_json response = Inr result \<and> isSparqlQueryResult result
      \<longrightarrow> endpoint_query toSparql fetch ep alg options
            = Inr (apply_maxResults (m_maxResults (mergeOptions options)) result))"
proof (intro conjI allI impI)
  show "endpoint_query toSparql fetch ep alg (Some (opts\<lparr>validateQuery := a\<rparr>))
     = endpoint_query toSparql fetch ep alg (Some (opts\<lparr>validateQuery := b\<rparr>))"
    by (rule endpoint_query_options) (simp_all only: mergeOptions_validateQuery)
  show "endpoint_query toSparql fetch ep alg
       (Some \<lparr>timeout = Absent, maxResults = Absent, validateQuery = a\<rparr>)
     = endpoint_query toSparql fetch ep alg None"
    by (rule endpoint_query_options) (simp_all add: mergeOptions_def)
next
  fix sparql response result
  assume "toSparql alg = Inr sparql \<and>
      fetch \<lparr> req_url = endpointUrl ep, req_method = ''POST'',
              req_headers = [(''Content-Type'', ''application/sparql-query''),
                             (''Accept'', ''application/sparql-results+json'')],
              req_body = sparql, req_abort_after = m_timeout (mergeOptions options) \<rparr>
        = Inr response \<and>
      ok response \<and> response_json response = Inr result \<and> isSparqlQueryResult result"
  then show "endpoint_query toSparql fetch ep alg options
            = Inr (apply_maxResults (m_maxResults (mergeOptions options)) result)"
    by (elim conjE) (rule endpoint_query_ok)
qed

theorem query_ignores_validateQuery_witness:
  "SparqlValidator_validateQuery ''DROP ALL''
     = Inl (ValidationError ''Query contains forbidden operation: DROP'') \<and>
   endpoint_query (\<lambda>alg. Inr ''DROP ALL'')
       (\<lambda>request. Inr \<lparr> ok = True, status = 200, statusText = ''OK'', response_text = Inr [],
          response_json = Inr (JsObject [(''head'', JsObject [(''vars'', JsArray [])]),
                                         (''results'', JsObject [(''bindings'', JsArray [])])]) \<rparr>)
       (new_QueryEngineSparqlEndpoint ''http://localhost/sparql'' None) ()
       (Some \<lparr>timeout = Absent, maxResults = Absent, validateQuery = Present True\<rparr>)
     = Inr (JsObject [(''head'', JsObject [(''vars'', JsArray [])]),
                      (''results'', JsObject [(''bindings'', JsArray [])])])"
proof -
  let ?result = "JsObject [(''head'', JsObject [(''vars'', JsArray [])]),
                           (''results'', JsObject [(''bindings'', JsArray [])])]"
  let ?response = "\<lparr> ok = True, status = 200, statusText = ''OK'', response_text = Inr [],
          response_json = Inr ?result \<rparr>"
  let ?fetch = "\<lambda>request :: fetch_request. (Inr ?response :: js_error + http_response)"
  let ?toSparql = "\<lambda>alg :: unit. (Inr ''DROP ALL'' :: js_error + string)"
  let ?ep = "new_QueryEngineSparqlEndpoint ''http://localhost/sparql'' None"
  let ?options = "Some \<lparr>timeout = Absent, maxResults = Absent, validateQuery = Present True\<rparr>"
  have v: "SparqlValidator_validateQuery ''DROP ALL''
     = Inl (ValidationError ''Query contains forbidden operation: DROP'')"
    by (simp add: SparqlValidator_validateQuery_def toUpperCase_def upper_char_def
          FORBIDDEN_OPERATIONS_def includesString_def Let_def)
  have shape: "isSparqlQueryResult ?result"
    by (simp add: isSparqlQueryResult_def)
  have cut: "apply_maxResults (m_maxResults (mergeOptions ?options)) ?result = ?result"
    by (simp add: apply_maxResults_def mergeOptions_def)
  have premise: "?toSparql () = Inr ''DROP ALL'' \<and>
      ?fetch \<lparr> req_url = endpointUrl ?ep, req_method = ''POST'',
              req_headers = [(''Content-Type'', ''application/sparql-query''),
                             (''Accept'', ''application/sparql-results+json'')],
              req_body = ''DROP ALL'', req_abort_after = m_timeout (mergeOptions ?options) \<rparr>
        = Inr ?response \<and>
      ok ?response \<and> response_json ?response = Inr ?result \<and> isSparqlQueryResult ?result"
    using shape by simp
  from query_ignores_validateQuery [where toSparql = ?toSparql and fetch = ?fetch
      and ep = ?ep and alg = "()" and options = ?options] premise
  have "endpoint_query ?toSparql ?fetch ?ep () ?options
            = Inr (apply_maxResults (m_maxResults (mergeOptions ?options)) ?result)"
    by blast
  with cut have "endpoint_query ?toSparql ?fetch ?ep () ?options = Inr ?result" by simp
  with v show ?thesis by (rule conjI)
qed

section \<open>Properties of the client\<close>

text \<open>
  Claim C8, as amended. When the call of the query engine fails with an error
  that is not a \<^verbatim>\<open>QueryEngineError\<close>: \<^verbatim>\<open>mutate\<close> returns a result with no data
  and one error whose code is \<^verbatim>\<open>MUTATION_ERROR\<close>, whose message is
  "Mutation failed: " followed by the message of the cause, and whose
  original error is the cause when that is an \<^verbatim>\<open>Error\<close>; \<^verbatim>\<open>query\<close> throws a
  \<^verbatim>\<open>QueryEngineError\<close> with the code \<^verbatim>\<open>EXECUTION_ERROR\<close> and the message "Query
  execution failed: " followed by the message of the cause. A
  \<^verbatim>\<open>QueryEngineError\<close> of the engine is thrown on unchanged by both.
\<close>

theorem client_engine_errors:
  "(context_promise c = Inr ctx \<and> \<not> has_entries vs \<and>
    convertToSparql (graphql_parse c) (update_toSparql c) ctx (math_random c)
      (case q of Inl s \<Rightarrow> s | Inr doc \<Rightarrow> graphql_print c doc) vs = Inr sparqlUpdate \<and>
    engine_update c = Some update \<and> update sparqlUpdate opts = Inl cause
    \<longrightarrow> (instanceof_QueryEngineError cause \<longrightarrow>
           client_mutate c (QueryArgsRaw q vs opts) = Inl cause) \<and>
        (\<not> instanceof_QueryEngineError cause \<longrightarrow>
           client_mutate c (QueryArgsRaw q vs opts) =
             Inr \<lparr> data = None,
                   errors = Some [\<lparr> gql_message = ''Mutation failed: '' @ error_message cause,
                       gql_originalError = (if instanceof_Error cause then Some cause else None),
                       gql_extensions_code = ''MUTATION_ERROR'' \<rparr>] \<rparr>)) \<and>
   (engine_query c alg opts = Inl cause
    \<longrightarrow> (instanceof_QueryEngineError cause \<longrightarrow>
           client_query c (QueryArgsSparql alg sing opts) = Inl cause) \<and>
        (\<not> instanceof_QueryEngineError cause \<longrightarrow>
           client_query c (QueryArgsSparql alg sing opts) =
             Inl (QueryEngineError (''Query execution failed: '' @ error_message cause)
                    ''EXECUTION_ERROR''))) \<and>
   (graphQlToSparql c q (case vs of None \<Rightarrow> [] | Some entries \<Rightarrow> entries) = Inr (alg, sing) \<and>
    engine_query c alg opts = Inl cause
    \<longrightarrow> (instanceof_QueryEngineError cause \<longrightarrow>
           client_query c (QueryArgsRaw q vs opts) = Inl cause) \<and>
        (\<not> instanceof_QueryEngineError cause \<longrightarrow>
           client_query c (QueryArgsRaw q vs opts) =
             Inl (QueryEngineError (''Query execution failed: '' @ error_message cause)
                    ''EXECUTION_ERROR'')))"
proof (intro conjI impI)
  assume h: "context_promise c = Inr ctx \<and> \<not> has_entries vs \<and>
    convertToSparql (graphql_parse c) (update_toSparql c) ctx (math_random c)
      (case q of Inl s \<Rightarrow> s | Inr doc \<Rightarrow> graphql_print c doc) vs = Inr sparqlUpdate \<and>
    engine_update c = Some update \<and> update sparqlUpdate opts = Inl cause"
  {
    assume "instanceof_QueryEngineError cause"
    with h show "client_mutate c (QueryArgsRaw q vs opts) = Inl cause"
      by (simp add: client_mutate_def Let_def)
  next
    assume "\<not> instanceof_QueryEngineError cause"
    with h show "client_mutate c (QueryArgsRaw q vs opts) =
             Inr \<lparr> data = None,
                   errors = Some [\<lparr> gql_message = ''Mutation failed: '' @ error_message cause,
                       gql_originalError = (if instanceof_Error cause then Some cause else None),
                       gql_extensions_code = ''MUTATION_ERROR'' \<rparr>] \<rparr>"
      by (simp add: client_mutate_def Let_def mutation_failed_def)
  }
next
  assume h: "engine_query c alg opts = Inl cause"
  {
    assume "instanceof_QueryEngineError cause"
    with h show "client_query c (QueryArgsSparql alg sing opts) = Inl cause"
      by (simp add: client_query_def client_query_catch_def)
  next
    assume "\<not> instanceof_QueryEngineError cause"
    with h show "client_query c (QueryArgsSparql alg sing opts) =
             Inl (QueryEngineError (''Query execution failed: '' @ error_message cause)
                    ''EXECUTION_ERROR'')"
      by (simp add: client_query_def client_query_catch_def)
  }
next
  assume h: "graphQlToSparql c q (case vs of None \<Rightarrow> [] | Some entries \<Rightarrow> entries) = Inr (alg, sing) \<and>
    engine_query c alg opts = Inl cause"
  {
    assume "instanceof_QueryEngineError cause"
    with h show "client_query c (QueryArgsRaw q vs opts) = Inl cause"
      by (simp add: client_query_def client_query_catch_def)
  next
    assume "\<not> instanceof_QueryEngineError cause"
    with h show "client_query c (QueryArgsRaw q vs opts) =
             Inl (QueryEngineError (''Query execution failed: '' @ error_message cause)
                    ''EXECUTION_ERROR'')"
      by (simp add: client_query_def client_query_catch_def)
  }
qed
theorem client_engine_errors_witness:
  "client_mutate mock_client (QueryArgsRaw (Inl ''mutation { deleteUser }'') None None)
     = Inr \<lparr> data = None,
             errors = Some [\<lparr> gql_message = ''Mutation failed: Network error'',
                               gql_originalError = Some (Error ''Network error''),
                               gql_extensions_code = ''MUTATION_ERROR'' \<rparr>] \<rparr> \<and>
   client_query mock_client (QueryArgsRaw (Inl ''{ user { name } }'') None None)
     = Inl (QueryEngineError ''Query execution failed: Network error'' ''EXECUTION_ERROR'')"
proof -
  let ?update = "\<lambda>(sparqlUpdate :: string) (opts :: query_engine_options option).
      (Inl (Error ''Network error'') :: js_error + unit)"
  let ?text = "''DELETE WHERE { <http://example.org/u1> ?p_del ?o_del }''"
  have conv: "convertToSparql (graphql_parse mock_client) (update_toSparql mock_client) Map.empty
      (math_random mock_client)
      (case (Inl ''mutation { deleteUser }'' :: string + document) of
         Inl s \<Rightarrow> s | Inr doc \<Rightarrow> graphql_print mock_client doc) (None :: (string \<times> unit) list option)
      = Inr ?text"
    by (simp add: convertToSparql_def mock_client_def convert_def document_events_def
          initial_state_def identify_operation_def operation_of_name_def startsWith_def
          subject_of_id_argument_def find_named_def illegal_iri_chars_def includesChar_def
          expandIri_def dispatch_handler_def handleDelete_def build_operation_def Let_def)
  have m: "context_promise mock_client = Inr Map.empty \<and>
      \<not> has_entries (None :: (string \<times> unit) list option) \<and>
      convertToSparql (graphql_parse mock_client) (update_toSparql mock_client) Map.empty
        (math_random mock_client)
        (case (Inl ''mutation { deleteUser }'' :: string + document) of
           Inl s \<Rightarrow> s | Inr doc \<Rightarrow> graphql_print mock_client doc)
        (None :: (string \<times> unit) list option) = Inr ?text \<and>
      engine_update mock_client = Some ?update \<and> ?update ?text None = Inl (Error ''Network error'')"
    using conv by (simp add: mock_client_def)
  have g: "graphQlToSparql mock_client (Inl ''{ user { name } }'')
        (case (None :: (string \<times> unit) list option) of None \<Rightarrow> [] | Some entries \<Rightarrow> entries)
        = Inr ((), ()) \<and>
      engine_query mock_client () None = Inl (Error ''Network error'')"
    by (simp add: graphQlToSparql_def mock_client_def)
  have n: "\<not> instanceof_QueryEngineError (Error ''Network error'')" by simp
  note inst = client_engine_errors [where c = mock_client and ctx = Map.empty
      and vs = None and q = "Inl ''mutation { deleteUser }''" and sparqlUpdate = ?text
      and update = ?update and opts = None and cause = "Error ''Network error''"]
  from inst m n have 1: "client_mutate mock_client (QueryArgsRaw (Inl ''mutation { deleteUser }'') None None)
     = Inr \<lparr> data = None,
             errors = Some [\<lparr> gql_message = ''Mutation failed: '' @ error_message (Error ''Network error''),
                 gql_originalError = (if instanceof_Error (Error ''Network error'')
                    then Some (Error ''Network error'') else None),
                 gql_extensions_code = ''MUTATION_ERROR'' \<rparr>] \<rparr>"
    by blast
  from client_engine_errors [where c = mock_client and vs = None
      and q = "Inl ''{ user { name } }''" and alg = "()" and sing = "()" and opts = None
      and cause = "Error ''Network error''"] g n
  have 2: "client_query mock_client (QueryArgsRaw (Inl ''{ user { name } }'') None None)
     = Inl (QueryEngineError (''Query execution failed: '' @ error_message (Error ''Network error''))
              ''EXECUTION_ERROR'')"
    by blast
  from 1 2 show ?thesis by simp
qed

text \<open>
  The claim as stated fails for \<^verbatim>\<open>query\<close>: the error that wraps the cause has
  the code \<^verbatim>\<open>EXECUTION_ERROR\<close>, not \<^verbatim>\<open>QUERY_ERROR\<close>.
\<close>

theorem query_error_code_counterexample:
  "client_query mock_client (QueryArgsSparql () () None)
     = Inl (QueryEngineError ''Query execution failed: Network error'' ''EXECUTION_ERROR'') \<and>
   error_code (QueryEngineError ''Query execution failed: Network error'' ''EXECUTION_ERROR'')
     \<noteq> Some ''QUERY_ERROR''"
  by (simp add: client_query_def client_query_catch_def mock_client_def)

end
